(* ===== verification/Prelude.thy ===== *)
theory Prelude
  imports Main "HOL-Library.Word" "HOL-Library.Monad_Syntax"
begin

text \<open>
  Shared ground of the development: the machine types of the C code, the little-endian
  byte images of integers that the code reads and writes through pointer casts, buffer
  reads and writes with their bounds made explicit, and the collections of simp rules
  (\<open>word_nat\<close>, \<open>buffer\<close>) the component theories use.

  A memory error of the C code (a read or write outside its object, a shift by the width
  of its operand or more) is the value \<open>None\<close>; everything else is \<open>Some\<close>.
\<close>

unbundle bit_operations_syntax

named_theorems word_nat "facts that move machine words to natural numbers"
named_theorems buffer "facts about byte buffers and their bounds"

type_synonym u8 = "8 word"
type_synonym u16 = "16 word"
type_synonym u32 = "32 word"
type_synonym u64 = "64 word"
type_synonym byte = "8 word"

section \<open>Little-endian images\<close>

primrec le_bytes :: "nat \<Rightarrow> 'a::len word \<Rightarrow> byte list" where
  "le_bytes 0 w = []"
| "le_bytes (Suc n) w = ucast w # le_bytes n (drop_bit 8 w)"

primrec of_le :: "byte list \<Rightarrow> 'a::len word" where
  "of_le [] = 0"
| "of_le (b # bs) = ucast b OR push_bit 8 (of_le bs)"

lemma length_le_bytes [simp, buffer]: "length (le_bytes n w) = n"
  by (induction n arbitrary: w) auto

lemma of_le_le_bytes: "of_le (le_bytes n w) = take_bit (8 * n) w"
proof (induction n arbitrary: w)
  case 0
  then show ?case by simp
next
  case (Suc n)
  show ?case
    by (rule bit_word_eqI)
      (auto simp: Suc bit_simps not_less)
qed

lemma of_le_le_bytes_full:
  fixes w :: "'a::len word"
  assumes "8 * n = LENGTH('a)"
  shows "of_le (le_bytes n w) = w"
  by (rule bit_word_eqI) (simp add: of_le_le_bytes bit_simps assms)

lemma drop_of_le:
  fixes b :: byte
  assumes "8 * Suc (length bs) \<le> LENGTH('a)"
  shows "drop_bit 8 (of_le (b # bs) :: 'a::len word) = of_le bs"
    and "(ucast (of_le (b # bs) :: 'a word) :: byte) = b"
proof -
  have hi: "\<not> bit (of_le bs :: 'a word) n" if "8 * length bs \<le> n" for n
    using that
  proof (induction bs arbitrary: n)
    case Nil
    then show ?case by simp
  next
    case (Cons a bs)
    then have "8 \<le> n" and "\<not> bit (of_le bs :: 'a word) (n - 8)" by auto
    then show ?case by (auto simp: bit_simps dest: bit_imp_le_length)
  qed
  show "drop_bit 8 (of_le (b # bs) :: 'a word) = of_le bs"
    using assms hi
    by (intro bit_word_eqI) (auto simp: bit_simps not_le dest: bit_imp_le_length)
  show "(ucast (of_le (b # bs) :: 'a word) :: byte) = b"
    using assms by (intro bit_word_eqI) (auto simp: bit_simps)
qed

lemma le_bytes_of_le:
  assumes "8 * length bs \<le> LENGTH('a)"
  shows "le_bytes (length bs) (of_le bs :: 'a::len word) = bs"
  using assms
proof (induction bs)
  case Nil
  then show ?case by simp
next
  case (Cons b bs)
  have "8 * Suc (length bs) \<le> LENGTH('a)"
    using Cons.prems by simp
  note d = drop_of_le [OF this, of b]
  have "8 * length bs \<le> LENGTH('a)"
    using Cons.prems by simp
  with Cons.IH show ?case
    by (simp del: of_le.simps add: d)
qed

section \<open>Reading and writing buffers\<close>

text \<open>
  \<open>rd n bs i\<close> is the C code's \<open>*(uintN_t *)(ptr + i)\<close> on an object that holds
  exactly the bytes \<open>bs\<close>; \<open>write_at i xs bs\<close> stores the bytes \<open>xs\<close> from offset
  \<open>i\<close> of the object \<open>bs\<close>, whose size does not change.
\<close>

definition rd :: "nat \<Rightarrow> byte list \<Rightarrow> nat \<Rightarrow> 'a::len word option" where
  "rd n bs i = (if i + n \<le> length bs then Some (of_le (take n (drop i bs))) else None)"

definition write_at :: "nat \<Rightarrow> byte list \<Rightarrow> byte list \<Rightarrow> byte list option" where
  "write_at i xs bs =
     (if i + length xs \<le> length bs
      then Some (take i bs @ xs @ drop (i + length xs) bs) else None)"

lemma rd_Some_iff [buffer]: "(\<exists>w. rd n bs i = Some w) \<longleftrightarrow> i + n \<le> length bs"
  by (simp add: rd_def)

lemma rd_append_left [buffer]:
  "i + n \<le> length bs \<Longrightarrow> rd n (bs @ cs) i = rd n bs i"
  by (simp add: rd_def)

lemma rd_append_right [buffer]:
  "length bs \<le> i \<Longrightarrow> rd n (bs @ cs) i = rd n cs (i - length bs)"
  by (auto simp: rd_def)

lemma rd_le_bytes:
  fixes w :: "'a::len word"
  assumes "8 * n = LENGTH('a)"
  shows "rd n (le_bytes n w @ bs) 0 = Some w"
  by (simp add: rd_def of_le_le_bytes_full [OF assms])

lemma rd_le_bytes_16 [simp, buffer]: "rd 2 (le_bytes 2 w @ bs) 0 = Some (w :: u16)"
  and rd_le_bytes_32 [simp, buffer]: "rd 4 (le_bytes 4 v @ bs) 0 = Some (v :: u32)"
  and rd_le_bytes_64 [simp, buffer]: "rd 8 (le_bytes 8 u @ bs) 0 = Some (u :: u64)"
  by (simp_all add: rd_le_bytes)

lemma write_at_Some [buffer]:
  "write_at i xs bs = Some cs \<longleftrightarrow>
     i + length xs \<le> length bs \<and> cs = take i bs @ xs @ drop (i + length xs) bs"
  by (auto simp: write_at_def)

lemma length_write_at [buffer]: "write_at i xs bs = Some cs \<Longrightarrow> length cs = length bs"
  by (auto simp: write_at_def split: if_splits)

lemma take_write_at [buffer]:
  "write_at i xs bs = Some cs \<Longrightarrow> take (i + length xs) cs = take i bs @ xs"
  by (auto simp: write_at_def split: if_splits)

lemma take_min_length: "take (min k (length bs)) bs = take k bs"
  by (simp add: min_def)

lemma find_unique:
  assumes "i \<in> set xs" "P i" "\<forall>j \<in> set xs. P j \<longrightarrow> j = i"
  shows "List.find P xs = Some i"
proof (cases "List.find P xs")
  case None
  then show ?thesis using assms(1,2) by (auto simp: find_None_iff)
next
  case (Some j)
  then have "j \<in> set xs" "P j" by (auto simp: find_Some_iff)
  then show ?thesis using assms(3) Some by blast
qed

section \<open>Rounding a length up to a multiple of four\<close>

text \<open>The C expression \<open>(len + 3) & ~3\<close> on a 32-bit unsigned \<open>len\<close>.\<close>

definition pad4 :: "u32 \<Rightarrow> u32" where
  "pad4 len = (len + 3) AND NOT 3"

lemma and_not_3: "(w :: u32) AND NOT 3 = word_of_nat (unat w div 4 * 4)"
proof -
  have m: "NOT (3 :: u32) = NOT (mask 2)"
    by (simp add: mask_eq_exp_minus_1)
  have "w AND NOT 3 = push_bit 2 (drop_bit 2 w)"
    unfolding m by (rule bit_word_eqI) (auto simp: bit_simps not_less dest!: le_Suc_ex)
  also have "\<dots> = word_of_nat (unat w div 4 * 4)"
    by (simp add: push_bit_eq_mult drop_bit_eq_div word_arith_nat_div)
  finally show ?thesis .
qed

lemma unat_pad4 [word_nat]:
  assumes "unat len < 2 ^ 32 - 3"
  shows "unat (pad4 len) = (unat len + 3) div 4 * 4"
proof -
  have a: "unat (len + 3) = unat len + 3"
    using assms by (simp add: unat_word_ariths)
  have "(unat len + 3) div 4 * 4 < 2 ^ 32"
    using assms by simp
  then show ?thesis
    unfolding pad4_def and_not_3 a by (subst unat_of_nat) simp
qed

lemma pad4_bounds:
  fixes n :: nat
  shows "n \<le> (n + 3) div 4 * 4" and "(n + 3) div 4 * 4 \<le> n + 3"
    and "4 dvd (n + 3) div 4 * 4"
  by presburger+

lemma unat_u8_less [word_nat]: "unat (w :: u8) < 256"
  using unsigned_less [of w] by simp

lemma unat_u16_less [word_nat]: "unat (w :: u16) < 65536"
  using unsigned_less [of w] by simp

lemma unat_u32_less [word_nat]: "unat (w :: u32) < 4294967296"
  using unsigned_less [of w] by simp

lemma unat_ucast_u16_u32 [simp, word_nat]: "unat (ucast (w :: u16) :: u32) = unat w"
  using unat_u16_less [of w] by (simp add: unsigned_ucast_eq take_bit_nat_eq_self)

lemma unat_ucast_u8_u32 [simp, word_nat]: "unat (ucast (w :: u8) :: u32) = unat w"
  using unat_u8_less [of w] by (simp add: unsigned_ucast_eq take_bit_nat_eq_self)

lemma unat_pad4_u16 [word_nat]:
  "unat (pad4 (ucast (w :: u16))) = (unat w + 3) div 4 * 4"
  using unat_u16_less [of w] by (simp add: unat_pad4)

section \<open>Small naturals as words\<close>

text \<open>\<open>len16 n\<close> is the value a 16-bit length field gets from a natural number.\<close>

definition len16 :: "nat \<Rightarrow> u16" where
  "len16 n = of_nat n"

lemma word_eq_of_nat: "unat w = n \<Longrightarrow> w = of_nat n"
  by (metis of_nat_unat ucast_id)

lemma unat_of_nat_u8 [word_nat]: "n < 256 \<Longrightarrow> unat (of_nat n :: u8) = n"
  and unat_of_nat_u16 [word_nat]: "n < 65536 \<Longrightarrow> unat (of_nat n :: u16) = n"
  and unat_of_nat_u32 [word_nat]: "n < 4294967296 \<Longrightarrow> unat (of_nat n :: u32) = n"
  by (simp_all add: unat_of_nat)

lemma unat_len16 [word_nat]: "n < 65536 \<Longrightarrow> unat (len16 n) = n"
  by (simp add: len16_def unat_of_nat_u16)

lemma unat_len16_mod: "unat (len16 n) = n mod 65536"
  by (simp add: len16_def unat_of_nat)

lemma ucast_add_len16: "(ucast (8 + l :: u32) :: u16) = len16 (8 + unat l)"
proof -
  have "unat (ucast (8 + l) :: u16) = unat (8 + l) mod 65536"
    by (simp add: unsigned_ucast_eq take_bit_eq_mod)
  also have "\<dots> = (8 + unat l) mod 65536"
    by (simp add: unat_word_ariths mod_mod_cancel)
  also have "\<dots> = unat (len16 (8 + unat l))" by (simp add: unat_len16_mod)
  finally show ?thesis by (simp add: unsigned_word_eqI)
qed

lemma sint_small_u32:
  assumes "unat (l :: u32) < 2147483648"
  shows "sint l = int (unat l)"
proof -
  have "int (unat l) < 2147483648" using assms by linarith
  then have "uint l < 2147483648" by simp
  moreover have "- (2 ^ 31) \<le> uint l" by (rule order_trans [of _ 0]) simp_all
  ultimately show ?thesis by (simp add: sint_uint signed_take_bit_int_eq_self)
qed

lemma unat_sub_nat: "(b :: 'a::len word) \<le> a \<Longrightarrow> unat (a - b) = unat a - unat b"
  by (rule unat_sub)

lemma unat_if_min: "unat (if len > k then k else len :: u32) = min (unat len) (unat k)"
  by (auto simp: word_less_nat_alt min_def)

end
