(* ===== verification/Wire.thy ===== *)
theory Wire
  imports Prelude
begin

text \<open>
  The packet of \<open>coremodel.c\<close> (\<open>struct coremodel_packet\<close>), its byte image, and the
  transmit side of a connection: the chain of transmit buffers \<open>txbufs\<close>, the flag
  \<open>txflag\<close>, the wake-up pipe, and \<open>coremodel_push_packet\<close>, which every other part of
  the library uses to send.

  \<open>'d host\<close> is the part of \<open>struct coremodel\<close> a callback can reach through the
  public functions, together with the client program's own data \<open>h_usr\<close>. The outcome of
  the next allocations is the script \<open>h_oom\<close> (\<open>True\<close>: the allocation fails); an
  exhausted script means that allocations succeed.
\<close>

section \<open>Packets\<close>

record packet =
  pk_len :: u16
  pk_conn :: u16
  pk_pkt :: u8
  pk_bflag :: u8
  pk_hflag :: u16
  pk_data :: "byte list"

abbreviation (input) CONN_QUERY :: u16 where "CONN_QUERY \<equiv> 0xFFFF"

definition header_bytes :: "packet \<Rightarrow> byte list" where
  "header_bytes p =
     le_bytes 2 (pk_len p) @ le_bytes 2 (pk_conn p) @ [pk_pkt p, pk_bflag p] @ le_bytes 2 (pk_hflag p)"

definition encode_packet :: "packet \<Rightarrow> byte list" where
  "encode_packet p = header_bytes p @ pk_data p"

text \<open>
  Reading a packet at the start of a buffer: the eight header bytes, and the
  \<open>len - 8\<close> bytes that follow them (none where \<open>len\<close> is below the header size).
\<close>

definition decode_packet :: "byte list \<Rightarrow> packet option" where
  "decode_packet bs =
     (if length bs < 8 then None
      else let len = of_le (take 2 bs) in
        Some \<lparr>pk_len = len, pk_conn = of_le (take 2 (drop 2 bs)), pk_pkt = bs ! 4,
              pk_bflag = bs ! 5, pk_hflag = of_le (take 2 (drop 6 bs)),
              pk_data = take (unat len - 8) (drop 8 bs)\<rparr>)"

definition wf_packet :: "packet \<Rightarrow> bool" where
  "wf_packet p \<longleftrightarrow> unat (pk_len p) = 8 + length (pk_data p)"

text \<open>What a well-formed packet occupies in the byte stream: its image, zero-padded to four bytes.\<close>

definition wire_size :: "packet \<Rightarrow> nat" where
  "wire_size p = unat (pad4 (ucast (pk_len p)))"

definition wire_image :: "packet \<Rightarrow> byte list" where
  "wire_image p = encode_packet p @ replicate (wire_size p - unat (pk_len p)) 0"

lemma length_header_bytes [simp, buffer]: "length (header_bytes p) = 8"
  by (simp add: header_bytes_def)

lemma header_bytes_data [simp]: "header_bytes (p\<lparr>pk_data := d\<rparr>) = header_bytes p"
  by (simp add: header_bytes_def)

lemma wire_size_eq [word_nat]: "wire_size p = (unat (pk_len p) + 3) div 4 * 4"
  by (simp add: wire_size_def unat_pad4_u16)

lemma wire_size_ge: "unat (pk_len p) \<le> wire_size p"
  by (simp add: wire_size_eq pad4_bounds)

lemma wire_size_dvd: "4 dvd wire_size p"
  by (simp add: wire_size_eq)

lemma length_wire_image [simp, buffer]: "wf_packet p \<Longrightarrow> length (wire_image p) = wire_size p"
  using wire_size_ge [of p] by (simp add: wire_image_def encode_packet_def wf_packet_def)

lemma of_le_2 [simp]: "of_le (le_bytes 2 (w :: u16)) = w"
  by (simp add: of_le_le_bytes_full)

lemma decode_header:
  "decode_packet (header_bytes p @ bs) =
     Some (p\<lparr>pk_data := take (unat (pk_len p) - 8) bs\<rparr>)"
proof -
  have "header_bytes p ! 4 = pk_pkt p" and "header_bytes p ! 5 = pk_bflag p"
    by (simp_all add: header_bytes_def nth_append)
  moreover have "take 2 (header_bytes p) = le_bytes 2 (pk_len p)"
    and "take 2 (drop 2 (header_bytes p)) = le_bytes 2 (pk_conn p)"
    and "take 2 (drop 6 (header_bytes p)) = le_bytes 2 (pk_hflag p)"
    by (simp_all add: header_bytes_def)
  ultimately show ?thesis
    by (simp add: decode_packet_def nth_append Let_def)
qed

lemma decode_encode:
  "wf_packet p \<Longrightarrow> decode_packet (encode_packet p @ bs) = Some p"
  by (simp add: encode_packet_def decode_header wf_packet_def)

lemma decode_wire_image:
  "wf_packet p \<Longrightarrow> decode_packet (wire_image p @ bs) = Some p"
  by (simp add: wire_image_def decode_encode)

section \<open>The transmit side\<close>

record txbuf =
  tb_size :: u32
  tb_rptr :: u32
  tb_buf :: "byte list"

record 'd host =
  h_txbufs :: "txbuf list"
  h_txflag :: bool
  h_need_wake :: bool
  h_wake :: nat
  h_oom :: "bool list"
  h_usr :: 'd

text \<open>\<open>calloc\<close>: whether it returned memory, and the script without the entry it used.\<close>

definition calloc :: "'d host \<Rightarrow> bool \<times> 'd host" where
  "calloc h = (case h_oom h of [] \<Rightarrow> (True, h) | b # bs \<Rightarrow> (\<not> b, h\<lparr>h_oom := bs\<rparr>))"

text \<open>
  The bytes that \<open>coremodel_push_packet\<close> copies: the header and \<open>len - 8\<close> bytes of
  \<open>data\<close>, or \<open>len\<close> bytes of the packet itself. With \<open>data\<close> the copies take eight
  bytes whatever \<open>len\<close> is, and \<open>len - 8\<close> does not stop at zero.
\<close>

definition push_body :: "packet \<Rightarrow> byte list option \<Rightarrow> byte list option" where
  "push_body p data =
     (let len = unat (pk_len p) in
      case data of
        Some d \<Rightarrow>
          if 8 \<le> len \<and> len - 8 \<le> length d then Some (header_bytes p @ take (len - 8) d) else None
      | None \<Rightarrow>
          if len \<le> length (encode_packet p) then Some (take len (encode_packet p)) else None)"

text \<open>The flag is the C function's result: \<open>True\<close> for 1 (no memory), \<open>False\<close> for 0.\<close>

definition coremodel_push_packet ::
  "packet \<Rightarrow> byte list option \<Rightarrow> 'd host \<Rightarrow> (bool \<times> 'd host) option" where
  "coremodel_push_packet p data h =
     (let dlen = pad4 (ucast (pk_len p)); (ok, h) = calloc h in
      if \<not> ok then Some (True, h)
      else do {
        body \<leftarrow> push_body p data;
        let txb = \<lparr>tb_size = dlen, tb_rptr = 0,
                   tb_buf = body @ replicate (unat dlen - length body) 0\<rparr>;
        Some (False, h\<lparr>h_txbufs := h_txbufs h @ [txb], h_txflag := True,
                       h_wake := (if h_need_wake h then Suc (h_wake h) else h_wake h)\<rparr>)
      })"

text \<open>The bytes still to be written to the socket.\<close>

definition tx_pending :: "txbuf list \<Rightarrow> byte list" where
  "tx_pending ts = concat (map (\<lambda>t. drop (unat (tb_rptr t)) (tb_buf t)) ts)"

definition wf_txbuf :: "txbuf \<Rightarrow> bool" where
  "wf_txbuf t \<longleftrightarrow> unat (tb_size t) = length (tb_buf t) \<and> tb_rptr t < tb_size t"

lemma tx_pending_append [simp]: "tx_pending (ts @ us) = tx_pending ts @ tx_pending us"
  and tx_pending_Nil [simp]: "tx_pending [] = []"
  by (simp_all add: tx_pending_def)

text \<open>The packet that \<open>coremodel_push_packet\<close> sends.\<close>

definition pushed_packet :: "packet \<Rightarrow> byte list option \<Rightarrow> packet" where
  "pushed_packet p data =
     p\<lparr>pk_data := take (unat (pk_len p) - 8) (case data of Some d \<Rightarrow> d | None \<Rightarrow> pk_data p)\<rparr>"

lemma push_body_Some:
  assumes "push_body p data = Some body" "8 \<le> unat (pk_len p)"
  shows "body = encode_packet (pushed_packet p data)" and "wf_packet (pushed_packet p data)"
    and "length body = unat (pk_len p)"
  using assms
  by (auto simp: push_body_def pushed_packet_def encode_packet_def wf_packet_def Let_def
      split: option.splits if_splits)

definition host_push :: "packet \<Rightarrow> 'd host \<Rightarrow> 'd host" where
  "host_push p h =
     h\<lparr>h_txbufs := h_txbufs h @ [\<lparr>tb_size = pad4 (ucast (pk_len p)), tb_rptr = 0, tb_buf = wire_image p\<rparr>],
       h_txflag := True, h_wake := (if h_need_wake h then Suc (h_wake h) else h_wake h)\<rparr>"

lemma host_push_simps [simp]:
  "h_usr (host_push p h) = h_usr h" "h_oom (host_push p h) = h_oom h"
  "h_need_wake (host_push p h) = h_need_wake h" "h_txflag (host_push p h)"
  by (simp_all add: host_push_def)

text \<open>The functional behaviour of a push that finds memory: one framed packet at the tail.\<close>

lemma push_packet_ok:
  assumes "push_body p data = Some body" "8 \<le> unat (pk_len p)" "calloc h = (True, h')"
  shows "coremodel_push_packet p data h = Some (False, host_push (pushed_packet p data) h')"
proof -
  note b = push_body_Some [OF assms(1,2)]
  have l: "pk_len (pushed_packet p data) = pk_len p" by (simp add: pushed_packet_def)
  show ?thesis
    unfolding coremodel_push_packet_def host_push_def wire_image_def wire_size_def
    by (simp add: assms(1,3) b(1) [symmetric] b(3) l Let_def)
qed

lemma push_packet_oom:
  "calloc h = (False, h') \<Longrightarrow> coremodel_push_packet p data h = Some (True, h')"
  by (simp add: coremodel_push_packet_def Let_def)

lemma calloc_cases:
  obtains (ok) h' where "calloc h = (True, h')" "h' = h\<lparr>h_oom := h_oom h'\<rparr>"
  | (fail) h' where "calloc h = (False, h')" "h' = h\<lparr>h_oom := h_oom h'\<rparr>"
  by (cases "h_oom h"; cases "hd (h_oom h)") (auto simp: calloc_def)

lemma calloc_frame:
  assumes "calloc h = (b, h')"
  shows "h_txbufs h' = h_txbufs h" "h_txflag h' = h_txflag h" "h_need_wake h' = h_need_wake h"
    "h_wake h' = h_wake h" "h_usr h' = h_usr h"
  using assms by (auto simp: calloc_def split: list.splits)

lemma push_packet_Some:
  assumes "coremodel_push_packet p data h = Some (e, h')" "8 \<le> unat (pk_len p)"
  obtains (sent) h1 where "e = False" "calloc h = (True, h1)" "h' = host_push (pushed_packet p data) h1"
      "wf_packet (pushed_packet p data)"
  | (failed) "e = True" "calloc h = (False, h')"
proof (cases "fst (calloc h)")
  case True
  then obtain h1 where h1: "calloc h = (True, h1)" by (cases "calloc h") auto
  then obtain body where b: "push_body p data = Some body"
    using assms(1) by (auto simp: coremodel_push_packet_def Let_def split: Option.bind_splits)
  with assms h1 show ?thesis
    by (auto intro!: sent [of h1] simp: push_packet_ok [OF b] push_body_Some [OF b])
next
  case False
  then obtain h1 where "calloc h = (False, h1)" by (cases "calloc h") auto
  with assms show ?thesis by (auto intro!: failed simp: push_packet_oom)
qed

section \<open>Pushes with memory available\<close>

text \<open>A push whose result the code ignores.\<close>

definition push_ignoring :: "packet \<Rightarrow> byte list option \<Rightarrow> 'd host \<Rightarrow> 'd host option" where
  "push_ignoring p data h = do { (_, h) \<leftarrow> coremodel_push_packet p data h; Some h }"

lemma calloc_empty [simp]: "h_oom h = [] \<Longrightarrow> calloc h = (True, h)"
  by (simp add: calloc_def)

lemma push_packet_self:
  assumes "wf_packet p" "h_oom h = []"
  shows "coremodel_push_packet p None h = Some (False, host_push p h)"
proof -
  have b: "push_body p None = Some (encode_packet p)" and pp: "pushed_packet p None = p"
    using assms(1) by (simp_all add: push_body_def wf_packet_def encode_packet_def pushed_packet_def)
  show ?thesis
    using push_packet_ok [OF b _ calloc_empty [OF assms(2)]] assms(1) pp by (simp add: wf_packet_def)
qed

lemma push_packet_data:
  assumes "unat (pk_len p) = 8 + n" "n \<le> length d" "h_oom h = []"
  shows "coremodel_push_packet p (Some d) h = Some (False, host_push (p\<lparr>pk_data := take n d\<rparr>) h)"
proof -
  have b: "push_body p (Some d) = Some (header_bytes p @ take n d)"
    and pp: "pushed_packet p (Some d) = p\<lparr>pk_data := take n d\<rparr>"
    using assms by (simp_all add: push_body_def pushed_packet_def)
  show ?thesis
    using push_packet_ok [OF b _ calloc_empty [OF assms(3)]] assms(1) pp by simp
qed

lemma push_ignoring_self:
  "wf_packet p \<Longrightarrow> h_oom h = [] \<Longrightarrow> push_ignoring p None h = Some (host_push p h)"
  by (simp add: push_ignoring_def push_packet_self)

lemma push_ignoring_data:
  "unat (pk_len p) = 8 + n \<Longrightarrow> n \<le> length d \<Longrightarrow> h_oom h = [] \<Longrightarrow>
     push_ignoring p (Some d) h = Some (host_push (p\<lparr>pk_data := take n d\<rparr>) h)"
  by (simp add: push_ignoring_def push_packet_data)

lemma host_push_usr: "(host_push p h)\<lparr>h_usr := d\<rparr> = host_push p (h\<lparr>h_usr := d\<rparr>)"
  by (simp add: host_push_def)

text \<open>The packets queued by a sequence of pushes, oldest first.\<close>

definition host_pushes :: "packet list \<Rightarrow> 'd host \<Rightarrow> 'd host" where
  "host_pushes ps h = fold host_push ps h"

lemma host_pushes_simps [simp]:
  "host_pushes [] h = h" "host_pushes (p # ps) h = host_pushes ps (host_push p h)"
  "host_pushes (ps @ qs) h = host_pushes qs (host_pushes ps h)"
  by (simp_all add: host_pushes_def)

lemma host_pushes_usr: "(host_pushes ps h)\<lparr>h_usr := d\<rparr> = host_pushes ps (h\<lparr>h_usr := d\<rparr>)"
  by (induction ps arbitrary: h) (simp_all add: host_push_usr)

lemma host_pushes_frame [simp]:
  "h_usr (host_pushes ps h) = h_usr h" "h_oom (host_pushes ps h) = h_oom h"
  by (induction ps arbitrary: h) simp_all

lemma host_push_pending:
  "wf_packet p \<Longrightarrow> tx_pending (h_txbufs (host_push p h)) = tx_pending (h_txbufs h) @ wire_image p"
  by (simp add: host_push_def tx_pending_def)

end
