(* ===== verification/Ring.thy ===== *)
theory Ring
  imports Wire
begin

text \<open>
  The receive ring of \<open>struct coremodel\<close> (\<open>rxq\<close>, \<open>rxqwp\<close>, \<open>rxqrp\<close>) and the packet
  splitter \<open>coremodel_process_rxq\<close>. The two positions are free-running 32-bit counters;
  a position is reduced modulo the ring size when the array is accessed.

  \<open>ring_bytes\<close> is the abstraction: the bytes received and not yet consumed, in order.
  The locale \<open>byte_queue\<close> states what the splitter and the socket reader need of the
  ring; it is interpreted on the code's ring at the end of the theory's first half.
\<close>

abbreviation (input) RX_BUF :: nat where "RX_BUF \<equiv> 4096"
abbreviation (input) MAX_PKT :: nat where "MAX_PKT \<equiv> 2048"

record ring =
  rxq :: "byte list"
  rxqwp :: u32
  rxqrp :: u32

definition ring_used :: "ring \<Rightarrow> u32" where
  "ring_used r = rxqwp r - rxqrp r"

definition ring_ok :: "ring \<Rightarrow> bool" where
  "ring_ok r \<longleftrightarrow> length (rxq r) = RX_BUF \<and> unat (ring_used r) \<le> RX_BUF \<and> 4 dvd unat (rxqrp r)"

definition ring_bytes :: "ring \<Rightarrow> byte list" where
  "ring_bytes r = map (\<lambda>i. rxq r ! ((unat (rxqrp r) + i) mod RX_BUF)) [0..<unat (ring_used r)]"

definition ring_init :: ring where
  "ring_init = \<lparr>rxq = replicate RX_BUF 0, rxqwp = 0, rxqrp = 0\<rparr>"

section \<open>Storing what read(2) returned\<close>

text \<open>How many bytes the read loop of \<open>coremodel_processfds\<close> asks for (0: the loop stops).\<close>

definition ring_step :: "ring \<Rightarrow> nat" where
  "ring_step r =
     (let step = RX_BUF - unat (ring_used r); offs = unat (rxqwp r) mod RX_BUF in
      if step > RX_BUF - offs then RX_BUF - offs else step)"

definition ring_store :: "byte list \<Rightarrow> ring \<Rightarrow> ring option" where
  "ring_store bs r = do {
     q \<leftarrow> write_at (unat (rxqwp r) mod RX_BUF) bs (rxq r);
     Some (r\<lparr>rxq := q, rxqwp := rxqwp r + of_nat (length bs)\<rparr>) }"

definition ring_skip :: "u32 \<Rightarrow> ring \<Rightarrow> ring" where
  "ring_skip n r = r\<lparr>rxqrp := rxqrp r + n\<rparr>"

lemma length_ring_bytes [simp, buffer]: "length (ring_bytes r) = unat (ring_used r)"
  by (simp add: ring_bytes_def)

lemma ring_bytes_nth [buffer]:
  "i < unat (ring_used r) \<Longrightarrow> ring_bytes r ! i = rxq r ! ((unat (rxqrp r) + i) mod RX_BUF)"
  by (simp add: ring_bytes_def)

lemma ring_init_ok: "ring_ok ring_init" and ring_init_bytes: "ring_bytes ring_init = []"
  by (simp_all add: ring_ok_def ring_init_def ring_used_def ring_bytes_def)

lemma mod_4096_wrap: "(a mod 4294967296) mod 4096 = a mod (4096 :: nat)"
  by (simp add: mod_mod_cancel)

lemma unat_add_mod: "unat (a + b :: u32) mod RX_BUF = (unat a + unat b) mod RX_BUF"
  by (simp add: unat_word_ariths mod_4096_wrap)

lemma wp_mod: "unat (rxqwp r) mod RX_BUF = (unat (rxqrp r) + unat (ring_used r)) mod RX_BUF"
  using unat_add_mod [of "rxqrp r" "ring_used r"] by (simp add: ring_used_def)

lemma mod_shift_inj:
  fixes a m :: nat
  assumes "(a + i) mod m = (a + j) mod m" "i \<le> j" "j < m"
  shows "i = j"
proof -
  have "m dvd (a + j) - (a + i)"
    using assms by (metis add_le_cancel_left mod_eq_dvd_iff_nat)
  then have "m dvd j - i" by simp
  with assms show ?thesis
    by (metis diff_is_0_eq dvd_imp_le le_antisym less_imp_diff_less not_le zero_less_iff_neq_zero)
qed

lemma ring_index_inj:
  fixes a :: nat
  assumes "(a + i) mod RX_BUF = (a + j) mod RX_BUF" "i < RX_BUF" "j < RX_BUF"
  shows "i = j"
  using mod_shift_inj [of a i RX_BUF j] mod_shift_inj [of a j RX_BUF i] assms
  by (cases "i \<le> j") auto

lemma ring_step_bounds:
  "ring_step r \<le> RX_BUF - unat (ring_used r)" "unat (rxqwp r) mod RX_BUF + ring_step r \<le> RX_BUF"
  by (auto simp: ring_step_def Let_def)

lemma ring_step_pos: "unat (ring_used r) < RX_BUF \<Longrightarrow> 0 < ring_step r"
  by (auto simp: ring_step_def Let_def)


lemma unat_add_le_RX_BUF:
  fixes u :: u32
  assumes "unat u + n \<le> RX_BUF"
  shows "unat (u + of_nat n) = unat u + n"
  using assms by (simp add: unat_word_ariths unat_of_nat)

lemma ring_store_ok:
  assumes r: "ring_ok r" and n: "length bs \<le> ring_step r"
  shows "\<exists>r'. ring_store bs r = Some r' \<and> ring_ok r' \<and> ring_bytes r' = ring_bytes r @ bs"
proof -
  let ?offs = "unat (rxqwp r) mod RX_BUF" and ?rp = "unat (rxqrp r)" and ?u = "unat (ring_used r)"
  have len: "length (rxq r) = RX_BUF" and fit: "?offs + length bs \<le> RX_BUF"
    and room: "?u + length bs \<le> RX_BUF"
    using r n ring_step_bounds [of r] by (auto simp: ring_ok_def)
  define q where "q = take ?offs (rxq r) @ bs @ drop (?offs + length bs) (rxq r)"
  define r' where "r' = r\<lparr>rxq := q, rxqwp := rxqwp r + of_nat (length bs)\<rparr>"
  have st: "ring_store bs r = Some r'"
    using len fit by (simp add: ring_store_def write_at_def q_def r'_def)
  have "ring_used r' = ring_used r + of_nat (length bs)"
    by (simp add: ring_used_def r'_def)
  then have used: "unat (ring_used r') = ?u + length bs"
    using unat_add_le_RX_BUF [OF room] by simp
  have qlen: "length q = RX_BUF" using len fit by (simp add: q_def)
  have old: "q ! ((?rp + i) mod RX_BUF) = rxq r ! ((?rp + i) mod RX_BUF)" if "i < ?u" for i
  proof -
    have "(?rp + i) mod RX_BUF < ?offs \<or> ?offs + length bs \<le> (?rp + i) mod RX_BUF"
    proof (rule ccontr)
      define j where "j = (?rp + i) mod RX_BUF - ?offs"
      assume "\<not> ((?rp + i) mod RX_BUF < ?offs \<or> ?offs + length bs \<le> (?rp + i) mod RX_BUF)"
      then have j: "j < length bs" and "(?rp + i) mod RX_BUF = ?offs + j"
        unfolding j_def by linarith+
      note this(2)
      also have "\<dots> = (?offs + j) mod RX_BUF" using fit j by simp
      also have "\<dots> = (?rp + (?u + j)) mod RX_BUF"
        by (simp add: wp_mod mod_add_left_eq add.assoc)
      finally have "i = ?u + j"
        by (rule ring_index_inj) (use \<open>i < ?u\<close> room j in auto)
      with \<open>i < ?u\<close> show False by simp
    qed
    with len fit show ?thesis by (auto simp: q_def nth_append)
  qed
  have new: "q ! ((?rp + (?u + j)) mod RX_BUF) = bs ! j" if "j < length bs" for j
  proof -
    have "(?rp + (?u + j)) mod RX_BUF = (?offs + j) mod RX_BUF"
      by (simp add: wp_mod mod_add_left_eq add.assoc)
    also have "\<dots> = ?offs + j" using fit that by simp
    finally show ?thesis using that len fit by (simp add: q_def nth_append)
  qed
  have "ring_bytes r' = ring_bytes r @ bs"
  proof (rule nth_equalityI)
    show "length (ring_bytes r') = length (ring_bytes r @ bs)" by (simp add: used)
  next
    fix i
    assume "i < length (ring_bytes r')"
    then have i: "i < ?u + length bs" by (simp add: used)
    have e: "ring_bytes r' ! i = q ! ((?rp + i) mod RX_BUF)"
      using i by (simp add: ring_bytes_nth used) (simp add: r'_def)
    show "ring_bytes r' ! i = (ring_bytes r @ bs) ! i"
    proof (cases "i < ?u")
      case True
      then show ?thesis using e old [OF True] by (simp add: nth_append ring_bytes_nth)
    next
      case False
      then show ?thesis using e new [of "i - ?u"] i by (simp add: nth_append)
    qed
  qed
  moreover have "ring_ok r'"
    using r room used by (simp add: ring_ok_def r'_def qlen)
  ultimately show ?thesis using st by blast
qed

lemma ring_skip_ok:
  assumes r: "ring_ok r" and n: "unat n \<le> unat (ring_used r)" and d: "4 dvd unat n"
  shows "ring_ok (ring_skip n r)" "ring_bytes (ring_skip n r) = drop (unat n) (ring_bytes r)"
    "unat (ring_used (ring_skip n r)) = unat (ring_used r) - unat n"
proof -
  have "ring_used (ring_skip n r) = ring_used r - n"
    by (simp add: ring_used_def ring_skip_def)
  then show u: "unat (ring_used (ring_skip n r)) = unat (ring_used r) - unat n"
    using n by (simp add: unat_sub word_le_nat_alt)
  have "unat (rxqrp r + n) = (unat (rxqrp r) + unat n) mod 4294967296"
    by (simp add: unat_word_ariths)
  moreover have "(4 :: nat) dvd 4294967296" by simp
  ultimately have "4 dvd unat (rxqrp r + n)"
    using r d by (metis dvd_add dvd_mod ring_ok_def)
  with r u show "ring_ok (ring_skip n r)"
    by (auto simp: ring_ok_def) (simp_all add: ring_skip_def)
  show "ring_bytes (ring_skip n r) = drop (unat n) (ring_bytes r)"
  proof (rule nth_equalityI)
    show "length (ring_bytes (ring_skip n r)) = length (drop (unat n) (ring_bytes r))"
      by (simp add: u)
  next
    fix i
    assume "i < length (ring_bytes (ring_skip n r))"
    then have i: "unat n + i < unat (ring_used r)" by (simp add: u)
    have "(unat (rxqrp r + n) + i) mod RX_BUF = (unat (rxqrp r) + (unat n + i)) mod RX_BUF"
      by (metis (no_types, lifting) add.assoc mod_add_left_eq unat_add_mod)
    then show "ring_bytes (ring_skip n r) ! i = drop (unat n) (ring_bytes r) ! i"
      using i by (simp add: ring_bytes_nth u) (simp add: ring_skip_def)
  qed
qed

section \<open>The interface the connection uses\<close>

text \<open>
  A bounded byte queue: \<open>store\<close> appends a piece no larger than \<open>room\<close>, \<open>skip\<close>
  drops a multiple of four bytes from the front, and \<open>room\<close> is zero only on a full queue.
\<close>

locale byte_queue =
  fixes contents :: "'q \<Rightarrow> byte list"
    and invar :: "'q \<Rightarrow> bool"
    and cap :: nat
    and room :: "'q \<Rightarrow> nat"
    and store :: "byte list \<Rightarrow> 'q \<Rightarrow> 'q option"
    and skip :: "u32 \<Rightarrow> 'q \<Rightarrow> 'q"
  assumes store: "invar q \<Longrightarrow> length bs \<le> room q \<Longrightarrow>
      \<exists>q'. store bs q = Some q' \<and> invar q' \<and> contents q' = contents q @ bs"
    and skip_contents: "invar q \<Longrightarrow> unat n \<le> length (contents q) \<Longrightarrow> 4 dvd unat n \<Longrightarrow>
      contents (skip n q) = drop (unat n) (contents q)"
    and skip_invar: "invar q \<Longrightarrow> unat n \<le> length (contents q) \<Longrightarrow> 4 dvd unat n \<Longrightarrow> invar (skip n q)"
    and room_pos: "invar q \<Longrightarrow> length (contents q) < cap \<Longrightarrow> 0 < room q"
    and bounded: "invar q \<Longrightarrow> length (contents q) \<le> cap"
begin

lemma store_bounded:
  fixes bs :: "byte list"
  shows "invar q \<Longrightarrow> length bs \<le> room q \<Longrightarrow> length (contents q) + length bs \<le> cap"
  using store [of q bs] bounded by fastforce

lemma store_skip:
  assumes "invar q" "length bs \<le> room q" "unat n \<le> length (contents q)" "4 dvd unat n"
  obtains q' where "store bs q = Some q'" "invar (skip n q')"
    "contents (skip n q') = drop (unat n) (contents q) @ bs"
proof -
  obtain q' where "store bs q = Some q'" "invar q'" "contents q' = contents q @ bs"
    using store [OF assms(1,2)] by blast
  with assms that [of q'] show ?thesis by (simp add: skip_contents skip_invar)
qed

lemma room_full: "invar q \<Longrightarrow> room q = 0 \<Longrightarrow> length (contents q) = cap"
  using room_pos [of q] bounded [of q] by fastforce

end

interpretation rq: byte_queue ring_bytes ring_ok RX_BUF ring_step ring_store ring_skip
  by unfold_locales
    (auto simp: ring_store_ok ring_skip_ok intro: ring_step_pos, simp add: ring_ok_def)

end
