(* ===== verification/Splitter.thy ===== *)
theory Splitter
  imports Ring
begin

text \<open>
  \<open>coremodel_process_rxq\<close>: cutting the received bytes into packets and handing each to
  \<open>coremodel_process_packet\<close>. The handler is a parameter here, a step on the rest of the
  connection's state that may fail to find memory (\<open>True\<close>); \<open>Session\<close> instantiates it.

  The C loop need not end (a packet that gives its length as zero moves the read position
  by zero), so it is a \<open>partial_function\<close> over \<open>rxq_step\<close>, the body of the loop, and there is
  no bound on its iterations: \<open>None\<close> is an iteration that leaves the memory of the program or a
  loop that does not return. Which of the two, and when, is proved: \<open>process_rxq_None\<close> shows that the
  loop returns unless an iteration fails or a length field of zero comes to the head of the ring
  (every other iteration takes at least four bytes), and \<open>process_rxq_loops\<close> that an iteration
  which changes nothing is repeated for ever.
  \<open>process_rxq_refines\<close> gives the result on a stream of well-formed packets: the abstract
  \<open>deliver\<close> over the list of packets.
\<close>

section \<open>The code\<close>

text \<open>Reading the length field at the read position, with the code's test for a straddling field.\<close>

definition ring_peek_len :: "ring \<Rightarrow> u32 option" where
  "ring_peek_len r =
     (let offs = unat (rxqrp r) mod RX_BUF in
      if unat (rxqrp r) = RX_BUF - 1
      then do {
        lo \<leftarrow> rd 1 (rxq r) (RX_BUF - 1);
        hi \<leftarrow> rd 1 (rxq r) 0;
        Some (lo OR 256 * hi) }
      else do {
        w \<leftarrow> rd 2 (rxq r) offs;
        Some (ucast (w :: u16)) })"

text \<open>The packet at the read position: in place, or copied where it wraps around the end.\<close>

definition ring_packet :: "u32 \<Rightarrow> ring \<Rightarrow> packet option" where
  "ring_packet dlen r =
     (let offs = unat (rxqrp r) mod RX_BUF; step = RX_BUF - offs in
      if step < unat dlen
      then decode_packet (drop offs (rxq r) @ take (unat dlen - step) (rxq r))
      else decode_packet (drop offs (rxq r)))"

text \<open>
  The body of the loop: \<open>Inl\<close> goes round again, \<open>Inr\<close> is the end of the loop (its condition
  is false, or one of the two \<open>break\<close>s).
\<close>

fun rxq_step ::
  "(packet \<Rightarrow> 's \<Rightarrow> (bool \<times> 's) option) \<Rightarrow> ring \<times> 's \<Rightarrow> (ring \<times> 's + ring \<times> 's) option" where
  "rxq_step h (r, s) =
     (if ring_used r \<ge> 8 then do {
        len \<leftarrow> ring_peek_len r;
        let dlen = pad4 len;
        if ring_used r < dlen then Some (Inr (r, s))
        else if dlen > of_nat MAX_PKT then Some (Inl (ring_skip dlen r, s))
        else do {
          p \<leftarrow> ring_packet dlen r;
          (err, s') \<leftarrow> h p s;
          Some (if err then Inr (r, s') else Inl (ring_skip dlen r, s'))
        }
      } else Some (Inr (r, s)))"

partial_function (option) coremodel_process_rxq ::
  "(packet \<Rightarrow> 's \<Rightarrow> (bool \<times> 's) option) \<Rightarrow> ring \<times> 's \<Rightarrow> (ring \<times> 's) option" where
  "coremodel_process_rxq h x = do {
     y \<leftarrow> rxq_step h x;
     (case y of Inl x' \<Rightarrow> coremodel_process_rxq h x' | Inr x' \<Rightarrow> Some x') }"

section \<open>The abstract splitter\<close>

text \<open>
  Packets are handled in order; one whose padded size exceeds \<open>MAX_PKT\<close> is dropped; a
  handler that reports an error leaves its packet and the rest for the next round.
\<close>

fun deliver :: "(packet \<Rightarrow> 's \<Rightarrow> (bool \<times> 's) option) \<Rightarrow> packet list \<Rightarrow> 's \<Rightarrow> (packet list \<times> 's) option" where
  "deliver h [] s = Some ([], s)"
| "deliver h (p # ps) s =
     (if wire_size p > MAX_PKT then deliver h ps s
      else do {
        (err, s') \<leftarrow> h p s;
        if err then Some (p # ps, s') else deliver h ps s' })"

definition stream :: "packet list \<Rightarrow> byte list" where
  "stream ps = concat (map wire_image ps)"

text \<open>A tail that does not yet hold a whole packet.\<close>

definition incomplete :: "byte list \<Rightarrow> bool" where
  "incomplete bs \<longleftrightarrow> length bs < 8 \<or> length bs < unat (pad4 (ucast (of_le (take 2 bs) :: u16)))"

lemma stream_Cons [simp]: "stream (p # ps) = wire_image p @ stream ps"
  and stream_Nil [simp]: "stream [] = []"
  and stream_append: "stream (ps @ qs) = stream ps @ stream qs"
  by (simp_all add: stream_def)

section \<open>The ring as the splitter sees it\<close>

lemma ring_slice:
  assumes "ring_ok r" "unat (rxqrp r) mod RX_BUF + n \<le> RX_BUF" "n \<le> unat (ring_used r)"
  shows "take n (drop (unat (rxqrp r) mod RX_BUF) (rxq r)) = take n (ring_bytes r)"
proof (rule nth_equalityI)
  show "length (take n (drop (unat (rxqrp r) mod RX_BUF) (rxq r))) = length (take n (ring_bytes r))"
    using assms by (simp add: ring_ok_def)
next
  fix i
  assume "i < length (take n (drop (unat (rxqrp r) mod RX_BUF) (rxq r)))"
  then have i: "i < n" by simp
  have "(unat (rxqrp r) + i) mod RX_BUF = (unat (rxqrp r) mod RX_BUF + i) mod RX_BUF"
    by (simp add: mod_add_left_eq)
  also have "\<dots> = unat (rxqrp r) mod RX_BUF + i" using assms i by simp
  finally show "take n (drop (unat (rxqrp r) mod RX_BUF) (rxq r)) ! i = take n (ring_bytes r) ! i"
    using assms i by (simp add: ring_bytes_nth ring_ok_def)
qed

lemma ring_slice_wrap:
  assumes "ring_ok r" "RX_BUF - unat (rxqrp r) mod RX_BUF < n" "n \<le> unat (ring_used r)"
  shows "drop (unat (rxqrp r) mod RX_BUF) (rxq r) @ take (n - (RX_BUF - unat (rxqrp r) mod RX_BUF)) (rxq r)
         = take n (ring_bytes r)"
    (is "?l = _")
proof (rule nth_equalityI)
  let ?o = "unat (rxqrp r) mod RX_BUF"
  have o: "?o < RX_BUF" and n: "n \<le> RX_BUF" and q: "length (rxq r) = RX_BUF"
    using assms by (auto simp: ring_ok_def)
  show len: "length ?l = length (take n (ring_bytes r))"
    using assms o n q by simp
  fix i
  assume "i < length ?l"
  then have i: "i < n" using len assms by simp
  have "(unat (rxqrp r) + i) mod RX_BUF = (?o + i) mod RX_BUF" by (simp add: mod_add_left_eq)
  also have "\<dots> = (if i < RX_BUF - ?o then ?o + i else i - (RX_BUF - ?o))"
  proof (cases "i < RX_BUF - ?o")
    case True
    then show ?thesis by simp
  next
    case False
    then have "?o + i = RX_BUF + (i - (RX_BUF - ?o))" using o by linarith
    then have "(?o + i) mod RX_BUF = (i - (RX_BUF - ?o)) mod RX_BUF" by (metis mod_add_self1)
    also have "\<dots> = i - (RX_BUF - ?o)" using i n by simp
    finally show ?thesis using False by simp
  qed
  finally have e: "(unat (rxqrp r) + i) mod RX_BUF
      = (if i < RX_BUF - ?o then ?o + i else i - (RX_BUF - ?o))" .
  show "?l ! i = take n (ring_bytes r) ! i"
  proof (cases "i < RX_BUF - ?o")
    case True
    then show ?thesis using assms i q e by (simp add: ring_bytes_nth nth_append)
  next
    case False
    define w where "w = RX_BUF - ?o"
    have "i - w < n - w" and "\<not> i < w" using False i by (simp_all add: w_def)
    moreover have "length (drop ?o (rxq r)) = w" using q by (simp add: w_def)
    ultimately have "?l ! i = rxq r ! (i - w)"
      unfolding w_def [symmetric] by (simp add: nth_append)
    also have "\<dots> = ring_bytes r ! i"
      using assms i e False by (simp add: ring_bytes_nth w_def)
    finally show ?thesis using i by simp
  qed
qed

lemma rxqrp_aligned:
  assumes "ring_ok r"
  shows "4 dvd unat (rxqrp r) mod RX_BUF" "unat (rxqrp r) mod RX_BUF + 4 \<le> RX_BUF"
    "unat (rxqrp r) \<noteq> RX_BUF - 1"
proof -
  show d: "4 dvd unat (rxqrp r) mod RX_BUF"
    using assms by (simp add: ring_ok_def dvd_mod)
  then obtain k where k: "unat (rxqrp r) mod RX_BUF = 4 * k" by (elim dvdE)
  have "unat (rxqrp r) mod RX_BUF < 4 * 1024" by simp
  then have "k < 1024" unfolding k by simp
  then show "unat (rxqrp r) mod RX_BUF + 4 \<le> RX_BUF" unfolding k by simp
  show "unat (rxqrp r) \<noteq> RX_BUF - 1"
  proof
    assume "unat (rxqrp r) = RX_BUF - 1"
    then have "4 dvd (4095 :: nat)" using assms by (simp add: ring_ok_def)
    then show False by simp
  qed
qed

text \<open>With an aligned read position the length field never straddles the end of the array.\<close>

lemma ring_peek_len_eq:
  assumes "ring_ok r" "8 \<le> unat (ring_used r)"
  shows "ring_peek_len r = Some (ucast (of_le (take 2 (ring_bytes r)) :: u16))"
  using rxqrp_aligned [OF assms(1)] ring_slice [OF assms(1), of 2] assms
  by (simp add: ring_peek_len_def rd_def Let_def ring_ok_def)

lemma decode_take:
  assumes "8 \<le> n" "n \<le> length bs" "unat (of_le (take 2 bs) :: u16) \<le> n"
  shows "decode_packet (take n bs) = decode_packet bs"
proof -
  have "take 2 (drop 2 (take n bs)) = take 2 (drop 2 bs)" "take 2 (drop 6 (take n bs)) = take 2 (drop 6 bs)"
    "take 2 (take n bs) = take 2 bs"
    using assms by (simp_all add: drop_take min_def)
  then show ?thesis
    using assms by (simp add: decode_packet_def Let_def drop_take min_def)
qed

lemma ring_packet_eq:
  assumes r: "ring_ok r" and n: "8 \<le> unat n" "unat n \<le> unat (ring_used r)"
    and l: "unat (of_le (take 2 (ring_bytes r)) :: u16) \<le> unat n"
  shows "ring_packet n r = decode_packet (ring_bytes r)"
proof -
  let ?o = "unat (rxqrp r) mod RX_BUF"
  have d: "decode_packet (take (unat n) (ring_bytes r)) = decode_packet (ring_bytes r)"
    using n l by (intro decode_take) simp_all
  show ?thesis
  proof (cases "RX_BUF - ?o < unat n")
    case True
    then show ?thesis
      using ring_slice_wrap [OF r True n(2)] d by (simp add: ring_packet_def Let_def)
  next
    case False
    then have s: "take (unat n) (drop ?o (rxq r)) = take (unat n) (ring_bytes r)"
      using n by (intro ring_slice [OF r]) auto
    then have "take 2 (take (unat n) (drop ?o (rxq r))) = take 2 (take (unat n) (ring_bytes r))"
      by simp
    then have "take 2 (drop ?o (rxq r)) = take 2 (ring_bytes r)"
      using n by (simp add: min_def)
    then have "decode_packet (take (unat n) (drop ?o (rxq r))) = decode_packet (drop ?o (rxq r))"
      using False n l r by (intro decode_take) (auto simp: ring_ok_def)
    then show ?thesis using False d s by (simp add: ring_packet_def Let_def)
  qed
qed

section \<open>The splitter implements delivery\<close>

lemma take_2_wire [simp]: "take 2 (wire_image p) = le_bytes 2 (pk_len p)"
  and length_wire_2 [simp]: "2 - length (wire_image p) = 0"
  by (simp_all add: wire_image_def encode_packet_def header_bytes_def)

declare rxq_step.simps [simp del]

lemma wire_image_ge_8: "wf_packet p \<Longrightarrow> 8 \<le> wire_size p"
  using wire_size_ge [of p] by (simp add: wf_packet_def)

lemma ring_used_wire:
  assumes "ring_bytes r = wire_image p @ bs" "wf_packet p"
  shows "unat (ring_used r) = wire_size p + length bs"
  using assms length_ring_bytes [of r] by simp

lemma process_rxq_unfold:
  "rxq_step h x = None \<Longrightarrow> coremodel_process_rxq h x = None"
  "rxq_step h x = Some (Inl x') \<Longrightarrow> coremodel_process_rxq h x = coremodel_process_rxq h x'"
  "rxq_step h x = Some (Inr x') \<Longrightarrow> coremodel_process_rxq h x = Some x'"
  by (simp_all add: coremodel_process_rxq.simps [of h x])

lemma rxq_step_packet:
  assumes r: "ring_ok r" and b: "ring_bytes r = wire_image p @ bs" and wf: "wf_packet p"
  shows "rxq_step h (r, s) =
     (let r' = ring_skip (pad4 (ucast (pk_len p))) r in
      if wire_size p > MAX_PKT then Some (Inl (r', s))
      else do { (err, s') \<leftarrow> h p s; Some (if err then Inr (r, s') else Inl (r', s')) })"
proof -
  let ?n = "pad4 (ucast (pk_len p))"
  have u: "unat (ring_used r) = wire_size p + length bs"
    using b wf by (rule ring_used_wire)
  have n: "unat ?n = wire_size p" by (simp add: wire_size_def)
  have l8: "8 \<le> unat (ring_used r)" using u wire_image_ge_8 [OF wf] by simp
  have pk: "ring_peek_len r = Some (ucast (pk_len p))"
    using ring_peek_len_eq [OF r l8] b by simp
  have d: "ring_packet ?n r = Some p"
    using r b wf wire_image_ge_8 [OF wf] u wire_size_ge [of p]
    by (subst ring_packet_eq) (simp_all add: n decode_wire_image)
  have "8 \<le> ring_used r" "\<not> ring_used r < ?n"
    and "of_nat MAX_PKT < ?n \<longleftrightarrow> MAX_PKT < wire_size p"
    using l8 u n by (simp_all add: word_le_nat_alt word_less_nat_alt)
  then show ?thesis by (simp add: rxq_step.simps pk d Let_def)
qed

lemma process_rxq_packet:
  assumes r: "ring_ok r" and b: "ring_bytes r = wire_image p @ bs" and wf: "wf_packet p"
  shows "coremodel_process_rxq h (r, s) =
     (let r' = ring_skip (pad4 (ucast (pk_len p))) r in
      if wire_size p > MAX_PKT then coremodel_process_rxq h (r', s)
      else do { (err, s') \<leftarrow> h p s;
                if err then Some (r, s') else coremodel_process_rxq h (r', s') })"
  by (subst coremodel_process_rxq.simps)
    (auto simp: rxq_step_packet [OF assms] Let_def split: Option.bind_split)

lemma process_rxq_incomplete:
  assumes r: "ring_ok r" and i: "incomplete (ring_bytes r)"
  shows "coremodel_process_rxq h (r, s) = Some (r, s)"
proof (rule process_rxq_unfold(3))
  show "rxq_step h (r, s) = Some (Inr (r, s))"
  proof (cases "8 \<le> unat (ring_used r)")
    case True
    then have "ring_used r < pad4 (ucast (of_le (take 2 (ring_bytes r)) :: u16))"
      using i by (simp add: incomplete_def word_less_nat_alt)
    with True show ?thesis
      by (simp add: rxq_step.simps ring_peek_len_eq [OF r] Let_def)
  next
    case False
    then show ?thesis by (simp add: rxq_step.simps word_le_nat_alt)
  qed
qed

lemma ring_skip_packet:
  assumes r: "ring_ok r" and b: "ring_bytes r = wire_image p @ bs" and wf: "wf_packet p"
  shows "ring_ok (ring_skip (pad4 (ucast (pk_len p))) r)"
    and "ring_bytes (ring_skip (pad4 (ucast (pk_len p))) r) = bs"
  using ring_skip_ok [OF r, of "pad4 (ucast (pk_len p))"] ring_used_wire [OF b wf]
    wire_size_dvd [of p] b wf
  by (simp_all add: wire_size_def [symmetric])

text \<open>
  The refinement: on a ring that holds the images of well-formed packets and an incomplete
  tail the splitter does what \<open>deliver\<close> says; what it leaves in the ring is the images of the
  packets not taken and the tail.
\<close>

lemma process_rxq_refines:
  assumes "ring_ok r" "ring_bytes r = stream ps @ t" "\<forall>p \<in> set ps. wf_packet p" "incomplete t"
  shows "case deliver h ps s of
      None \<Rightarrow> coremodel_process_rxq h (r, s) = None
    | Some (rest, s') \<Rightarrow> \<exists>r'. coremodel_process_rxq h (r, s) = Some (r', s') \<and> ring_ok r' \<and>
        ring_bytes r' = stream rest @ t"
  using assms
proof (induction ps arbitrary: r s)
  case Nil
  then show ?case by (simp add: process_rxq_incomplete)
next
  case (Cons p ps)
  let ?r = "ring_skip (pad4 (ucast (pk_len p))) r"
  have wf: "wf_packet p" and b: "ring_bytes r = wire_image p @ (stream ps @ t)"
    using Cons.prems by simp_all
  note st = process_rxq_packet [OF Cons.prems(1) b wf, of h s]
  note sk = ring_skip_packet [OF Cons.prems(1) b wf]
  have IH: "case deliver h ps s1 of
      None \<Rightarrow> coremodel_process_rxq h (?r, s1) = None
    | Some (rest, s') \<Rightarrow> \<exists>r'. coremodel_process_rxq h (?r, s1) = Some (r', s') \<and> ring_ok r' \<and>
        ring_bytes r' = stream rest @ t" for s1
    using Cons.IH [of ?r s1] sk Cons.prems by simp
  show ?case
  proof (cases "wire_size p > MAX_PKT")
    case True
    then show ?thesis using IH [of s] st by (auto simp: Let_def split: option.splits)
  next
    case big: False
    show ?thesis
    proof (cases "h p s")
      case None
      then show ?thesis using st big by (simp add: Let_def)
    next
      case (Some es)
      obtain e s1 where es: "es = (e, s1)" by (cases es)
      show ?thesis
        using IH [of s1] st big Some es b Cons.prems(1)
        by (cases e) (auto simp: Let_def split: option.splits)
    qed
  qed
qed

text \<open>No packet is below eight bytes on the wire.\<close>

lemma length_stream_ge: "\<forall>p \<in> set ps. wf_packet p \<Longrightarrow> 8 * length ps \<le> length (stream ps)"
  by (induction ps) (auto dest: wire_image_ge_8)

text \<open>Every prefix of a packet stream is some whole packets and an incomplete tail.\<close>

lemma stream_prefix:
  assumes "bs @ cs = stream ps" "\<forall>p \<in> set ps. wf_packet p"
  shows "\<exists>ps1 ps2 t. ps = ps1 @ ps2 \<and> bs = stream ps1 @ t \<and> incomplete t \<and> t @ cs = stream ps2"
  using assms
proof (induction ps arbitrary: bs)
  case Nil
  then show ?case by (auto simp: incomplete_def)
next
  case (Cons p ps)
  have wf: "wf_packet p" using Cons.prems by simp
  show ?case
  proof (cases "wire_size p \<le> length bs")
    case True
    have e: "bs @ cs = wire_image p @ stream ps" using Cons.prems by simp
    have "take (wire_size p) (bs @ cs) = wire_image p"
      unfolding e using wf by simp
    then have "take (wire_size p) bs = wire_image p" using True by simp
    then have "bs = wire_image p @ drop (wire_size p) bs" by (metis append_take_drop_id)
    moreover have "drop (wire_size p) (bs @ cs) = stream ps"
      unfolding e using wf by simp
    then have "drop (wire_size p) bs @ cs = stream ps" using True by simp
    moreover obtain ps1 ps2 t where "ps = ps1 @ ps2" "drop (wire_size p) bs = stream ps1 @ t"
      "incomplete t" "t @ cs = stream ps2"
      using Cons.IH [OF calculation(2)] Cons.prems by auto
    ultimately show ?thesis
      by (intro exI [of _ "p # ps1"] exI [of _ ps2] exI [of _ t]) simp
  next
    case False
    have "incomplete bs"
    proof (cases "2 \<le> length bs")
      case True
      then have "take 2 bs = take 2 (bs @ cs)" by simp
      also have "\<dots> = le_bytes 2 (pk_len p)"
        using Cons.prems(1) wire_image_ge_8 [OF wf] by simp
      finally show ?thesis using False by (simp add: incomplete_def wire_size_def)
    qed (simp add: incomplete_def)
    with Cons.prems show ?thesis
      by (intro exI [of _ "[]"] exI [of _ "p # ps"] exI [of _ bs]) simp
  qed
qed

lemma incomplete_wire_bound:
  assumes "t @ cs = stream ps" "\<forall>p \<in> set ps. wf_packet p \<and> wire_size p \<le> MAX_PKT" "incomplete t"
  shows "length t < MAX_PKT"
proof (cases ps)
  case Nil
  then show ?thesis using assms by simp
next
  case (Cons p qs)
  show ?thesis
  proof (rule ccontr)
    assume big: "\<not> length t < MAX_PKT"
    then have "take 2 t = take 2 (t @ cs)" by simp
    also have "\<dots> = le_bytes 2 (pk_len p)" using assms(1) Cons by simp
    finally show False
      using big assms(2,3) Cons by (auto simp: incomplete_def wire_size_def)
  qed
qed

section \<open>What the loop does on other input\<close>

text \<open>The length field at the read position.\<close>

abbreviation (input) head_len :: "ring \<Rightarrow> u16" where "head_len r \<equiv> of_le (take 2 (ring_bytes r))"

lemma decode_header_Some: "8 \<le> length bs \<Longrightarrow> \<exists>p. decode_packet bs = Some p"
  by (simp add: decode_packet_def Let_def)

lemma pad4_pos:
  assumes "n \<noteq> (0 :: u16)"
  shows "0 < unat (pad4 (ucast n))"
proof -
  have "0 < unat n" using assms by (simp add: unat_gt_0)
  then show ?thesis using pad4_bounds(1) [of "unat n"] by (simp add: unat_pad4_u16)
qed

text \<open>
  An iteration that goes round again keeps the ring well-formed, and takes something from it
  unless the length field is zero.
\<close>

lemma rxq_step_Inl:
  assumes r: "ring_ok r" and st: "rxq_step h (r, s) = Some (Inl (r', s'))"
  shows "8 \<le> unat (ring_used r) \<and> ring_ok r' \<and>
    (head_len r \<noteq> 0 \<longrightarrow> unat (ring_used r') < unat (ring_used r))"
proof -
  have u: "8 \<le> unat (ring_used r)" using st by (simp add: rxq_step.simps word_le_nat_alt split: if_split_asm)
  let ?n = "pad4 (ucast (head_len r))"
  have r': "r' = ring_skip ?n r" and le: "unat ?n \<le> unat (ring_used r)"
    using st u by (auto simp: rxq_step.simps ring_peek_len_eq [OF r u] Let_def word_less_nat_alt
        split: if_split_asm Option.bind_split_asm)
  have d: "4 dvd unat ?n" using pad4_bounds(3) by (simp add: unat_pad4_u16)
  note sk = ring_skip_ok [OF r le d]
  have "unat (ring_used r') < unat (ring_used r)" if "head_len r \<noteq> 0"
    using sk(3) pad4_pos [OF that] u unfolding r' by linarith
  then show ?thesis using u sk(1) r' by simp
qed

lemma rxq_step_Inr:
  assumes "rxq_step h (r, s) = Some (Inr (r', s'))"
  shows "r' = r"
  using assms by (auto simp: rxq_step.simps Let_def split: if_split_asm Option.bind_split_asm)

lemma rxq_step_handler:
  assumes "P s" and step: "\<And>p s e s'. P s \<Longrightarrow> h p s = Some (e, s') \<Longrightarrow> P s'"
    and st: "rxq_step h (r, s) = Some (Inl (r', s')) \<or> rxq_step h (r, s) = Some (Inr (r', s'))"
  shows "P s'"
proof -
  have "s' = s \<or> (\<exists>p e. h p s = Some (e, s'))"
    using st by (auto simp: rxq_step.simps Let_def split: if_split_asm Option.bind_split_asm)
  then show ?thesis using assms(1) step by blast
qed

text \<open>
  What the handler keeps invariant the splitter keeps, and it keeps the ring well-formed: when it
  returns (induction on the iterations), and up to the iteration at which it fails or hangs
  (induction on what the ring holds).
\<close>

lemmas process_rxq_induct [consumes 1, case_names loop] =
  coremodel_process_rxq.raw_induct [where xa = "(h, x)" for h x, unfolded prod.case, rotated]

lemma process_rxq_Some:
  "coremodel_process_rxq h x = Some y \<Longrightarrow> P (snd x) \<Longrightarrow> ring_ok (fst x) \<Longrightarrow>
    (\<And>p s e s'. P s \<Longrightarrow> h p s = Some (e, s') \<Longrightarrow> P s') \<Longrightarrow> P (snd y) \<and> ring_ok (fst y)"
proof (induction h x y rule: process_rxq_induct)
  case (loop f h x y)
  obtain r s z where x: "x = (r, s)" and z: "rxq_step h (r, s) = Some z"
    using loop.hyps by (cases x) (auto split: Option.bind_split_asm)
  obtain r' s' where z': "z = Inl (r', s') \<or> z = Inr (r', s')" by (cases z) auto
  have P: "P s'"
    using rxq_step_handler [of P s h r r' s'] loop.prems(1,3) z z' x by auto
  have "ring_ok r'"
    using rxq_step_Inl [of r h s r' s'] rxq_step_Inr [of h r s r' s'] loop.prems(2) z z' x by auto
  with P show ?case
    using loop.IH [of h "(r', s')" y] loop.hyps loop.prems(3) z z' x by auto
qed

lemma process_rxq_None:
  assumes step: "\<And>p s e s'. P s \<Longrightarrow> h p s = Some (e, s') \<Longrightarrow> P s'"
  shows "P s \<Longrightarrow> ring_ok r \<Longrightarrow> coremodel_process_rxq h (r, s) = None \<Longrightarrow>
    \<exists>r1 s1. P s1 \<and> ring_ok r1 \<and> 8 \<le> unat (ring_used r1) \<and> (head_len r1 = 0 \<or> rxq_step h (r1, s1) = None)"
proof (induction "unat (ring_used r)" arbitrary: r s rule: less_induct)
  case less
  show ?case
  proof (cases "rxq_step h (r, s)")
    case None
    then have "8 \<le> unat (ring_used r)" by (auto simp: rxq_step.simps word_le_nat_alt split: if_split_asm)
    then show ?thesis using None less.prems by auto
  next
    case (Some y)
    then obtain r' s' where y: "y = Inl (r', s')"
      using less.prems(3) process_rxq_unfold(3) [of h "(r, s)"] by (cases y) auto
    have P: "P s'" using rxq_step_handler [of P s h r r' s'] less.prems(1) step Some y by blast
    have u: "8 \<le> unat (ring_used r)" and r': "ring_ok r'"
      and d: "head_len r \<noteq> 0 \<longrightarrow> unat (ring_used r') < unat (ring_used r)"
      using rxq_step_Inl [OF less.prems(2), of h s r' s'] Some y by simp_all
    have n: "coremodel_process_rxq h (r', s') = None"
      using less.prems(3) process_rxq_unfold(2) [of h "(r, s)"] Some y by simp
    show ?thesis
    proof (cases "head_len r = 0")
      case True
      then show ?thesis using u less.prems by blast
    next
      case False
      then show ?thesis using less.hyps [OF _ P r' n] d by simp
    qed
  qed
qed

text \<open>
  A loop that repeats one iteration for ever: \<open>None\<close> is then all that the recursion equation
  admits, the least solution.
\<close>

lemma process_rxq_loops:
  assumes "rxq_step h x = Some (Inl x)"
  shows "coremodel_process_rxq h x = None"
proof (rule ccontr)
  assume "coremodel_process_rxq h x \<noteq> None"
  then obtain y where "coremodel_process_rxq h x = Some y" by blast
  then show False using assms
  proof (induction h x y rule: process_rxq_induct)
    case (loop f h x y)
    then show ?case by simp
  qed
qed

text \<open>
  A length field of zero, on a packet of no known interface: the iteration neither fails nor
  changes anything. (At the last four bytes of the array the header is read beyond the end.)
\<close>

lemma rxq_step_zero:
  assumes r: "ring_ok r" and u: "8 \<le> unat (ring_used r)" and z: "head_len r = 0"
    and o: "unat (rxqrp r) mod RX_BUF + 8 \<le> RX_BUF"
    and h: "\<And>p. pk_conn p = of_le (take 2 (drop 2 (ring_bytes r))) \<Longrightarrow> h p s = Some (False, s)"
  shows "rxq_step h (r, s) = Some (Inl (r, s))"
proof -
  let ?o = "unat (rxqrp r) mod RX_BUF"
  have pk: "ring_peek_len r = Some 0" using ring_peek_len_eq [OF r u] z by simp
  have s0: "ring_skip 0 r = r" by (simp add: ring_skip_def)
  have p0: "pad4 0 = 0" by (simp add: pad4_def)
  have l: "length (rxq r) = RX_BUF" using r by (simp add: ring_ok_def)
  have "take 8 (drop ?o (rxq r)) = take 8 (ring_bytes r)"
    using ring_slice [OF r o u] .
  then have "take 2 (drop 2 (take 8 (drop ?o (rxq r)))) = take 2 (drop 2 (take 8 (ring_bytes r)))" by simp
  then have c: "take 2 (drop 2 (drop ?o (rxq r))) = take 2 (drop 2 (ring_bytes r))"
    by (simp add: drop_take min_def del: drop_drop)
  obtain p where p: "decode_packet (drop ?o (rxq r)) = Some p"
    using decode_header_Some [of "drop ?o (rxq r)"] o l by (auto simp: le_diff_conv2)
  then have "pk_conn p = of_le (take 2 (drop 2 (drop ?o (rxq r))))"
    by (auto simp: decode_packet_def Let_def split: if_split_asm)
  then have "h p s = Some (False, s)" using c h by simp
  moreover have "ring_packet 0 r = Some p" using p by (simp add: ring_packet_def Let_def)
  moreover have "8 \<le> ring_used r" using u by (simp add: word_le_nat_alt)
  ultimately show ?thesis using pk s0 p0 by (simp add: rxq_step.simps Let_def)
qed

text \<open>A length field beyond the ring's size: the splitter never consumes anything again.\<close>

lemma process_rxq_too_long:
  assumes r: "ring_ok r" and u: "8 \<le> unat (ring_used r)"
    and z: "RX_BUF < unat (of_le (take 2 (ring_bytes r)) :: u16)"
  shows "coremodel_process_rxq h (r, s) = Some (r, s)"
proof (rule process_rxq_incomplete [OF r])
  have "unat (ring_used r) \<le> RX_BUF" using r by (simp add: ring_ok_def)
  then show "incomplete (ring_bytes r)"
    using less_le_trans [OF z pad4_bounds(1)] by (simp add: incomplete_def unat_pad4_u16)
qed

section \<open>Delivery in parts\<close>

lemma deliver_append:
  "deliver h (ps @ qs) s = (case deliver h ps s of
      None \<Rightarrow> None
    | Some (rest, s') \<Rightarrow> if rest = [] then deliver h qs s' else Some (rest @ qs, s'))"
  by (induction ps arbitrary: s) (auto split: Option.bind_splits option.splits)

lemma deliver_all_append:
  assumes "deliver h (ps @ qs) s = Some ([], s2)"
  obtains s1 where "deliver h ps s = Some ([], s1)" "deliver h qs s1 = Some ([], s2)"
  using assms by (auto simp: deliver_append split: option.splits if_splits)

end
