(* ===== verification/Iface.thy ===== *)
theory Iface
  imports Splitter
begin

text \<open>
  \<open>struct coremodel_if\<close>, the interface object behind a handle. Its scalar fields and the
  read buffer are the record \<open>core\<close>, the part a callback can change through the public
  functions of its own handle; the queue \<open>rxbufs\<close> of packets not yet handled, the callback
  table and \<open>defer_pkt\<close> are in the record \<open>'d coremodel_if\<close>.

  A callback of the client is a step on the interface and the host part of the connection.
  It gets the bytes its pointer and length arguments name; a callback that fills a buffer
  returns the bytes it stores. It may fail (\<open>None\<close>) only by a memory error of its own. Flags
  that the C code only ever sets to 0 and 1 (\<open>busy\<close>, \<open>defer_pkt\<close>, \<open>query\<close>) are booleans.
\<close>

section \<open>Interfaces and callbacks\<close>

abbreviation (input) COREMODEL_UART :: u32 where "COREMODEL_UART \<equiv> 0"
abbreviation (input) COREMODEL_I2C :: u32 where "COREMODEL_I2C \<equiv> 1"
abbreviation (input) COREMODEL_SPI :: u32 where "COREMODEL_SPI \<equiv> 2"
abbreviation (input) COREMODEL_GPIO :: u32 where "COREMODEL_GPIO \<equiv> 3"
abbreviation (input) COREMODEL_USBH :: u32 where "COREMODEL_USBH \<equiv> 4"
abbreviation (input) COREMODEL_CAN :: u32 where "COREMODEL_CAN \<equiv> 5"
abbreviation (input) COREMODEL_ETH :: u32 where "COREMODEL_ETH \<equiv> 6"
abbreviation (input) COREMODEL_EVENT :: u32 where "COREMODEL_EVENT \<equiv> 7"
abbreviation (input) RDBUF :: nat where "RDBUF \<equiv> 512"

record core =
  c_conn :: u16
  c_trnidx :: u16
  c_type :: u32
  c_cred :: u32
  c_busy :: bool
  c_offs :: u32
  c_ebusy :: u64
  c_priv :: nat
  c_rdbuf :: "byte list"

type_synonym ('a, 'd) step = "core \<Rightarrow> 'd host \<Rightarrow> ('a \<times> core \<times> 'd host) option"

record 'd uart_func =
  uf_tx :: "(nat \<Rightarrow> byte list \<Rightarrow> (int, 'd) step) option"
  uf_brk :: "(nat \<Rightarrow> (unit, 'd) step) option"
  uf_rxrdy :: "(nat \<Rightarrow> (unit, 'd) step) option"

record 'd i2c_func =
  i2_start :: "(nat \<Rightarrow> (int, 'd) step) option"
  i2_write :: "(nat \<Rightarrow> byte list \<Rightarrow> (int, 'd) step) option"
  i2_read :: "(nat \<Rightarrow> u32 \<Rightarrow> (int \<times> byte list, 'd) step) option"
  i2_stop :: "(nat \<Rightarrow> (unit, 'd) step) option"

record 'd spi_func =
  sf_cs :: "(nat \<Rightarrow> u32 \<Rightarrow> (unit, 'd) step) option"
  sf_xfr :: "(nat \<Rightarrow> byte list \<Rightarrow> (int \<times> byte list, 'd) step) option"

record 'd gpio_func =
  gf_notify :: "(nat \<Rightarrow> int \<Rightarrow> (unit, 'd) step) option"

text \<open>
  \<open>xfr\<close> of USB gets \<open>dev\<close>, \<open>ep\<close>, \<open>tkn\<close>, the data of an OUT or SETUP token or the size of
  the buffer of an IN token, and \<open>end\<close>; for IN it returns the bytes it stored.
\<close>

record 'd usbh_func =
  ub_rst :: "(nat \<Rightarrow> (unit, 'd) step) option"
  ub_xfr :: "(nat \<Rightarrow> u8 \<Rightarrow> u8 \<Rightarrow> u8 \<Rightarrow> byte list + u32 \<Rightarrow> u8 \<Rightarrow> (int \<times> byte list, 'd) step) option"

record 'd can_func =
  cf_tx :: "(nat \<Rightarrow> u64 \<times> u64 \<Rightarrow> byte list \<Rightarrow> (int, 'd) step) option"
  cf_rxcomplete :: "(nat \<Rightarrow> int \<Rightarrow> (unit, 'd) step) option"

record 'd eth_func =
  ef_tx :: "(nat \<Rightarrow> byte list \<Rightarrow> (int, 'd) step) option"
  ef_rxrdy :: "(nat \<Rightarrow> (unit, 'd) step) option"

record 'd event_func =
  vf_update :: "(nat \<Rightarrow> u64 \<Rightarrow> u64 \<Rightarrow> bool \<Rightarrow> (unit, 'd) step) option"
  vf_atresp :: "(nat \<Rightarrow> u64 \<Rightarrow> u64 \<Rightarrow> (unit, 'd) step) option"

text \<open>The union of callback tables, with the member that was stored.\<close>

datatype 'd func =
    UartF "'d uart_func" | I2cF "'d i2c_func" | SpiF "'d spi_func" | GpioF "'d gpio_func"
  | UsbhF "'d usbh_func" | CanF "'d can_func" | EthF "'d eth_func" | EventF "'d event_func"

record 'd coremodel_if =
  if_core :: core
  if_func :: "'d func"
  if_rxbufs :: "packet list"
  if_defer_pkt :: bool

section \<open>Payloads\<close>

text \<open>\<open>pkt->len - 8\<close> as the code computes it, in 32-bit unsigned arithmetic.\<close>

definition payload_len :: "packet \<Rightarrow> u32" where
  "payload_len p = ucast (pk_len p) - 8"

text \<open>The \<open>n\<close> bytes from \<open>pkt->data + off\<close>, where the packet holds them.\<close>

definition payload_slice :: "packet \<Rightarrow> nat \<Rightarrow> nat \<Rightarrow> byte list option" where
  "payload_slice p off n =
     (if off + n \<le> length (pk_data p) then Some (take n (drop off (pk_data p))) else None)"

lemma unat_payload_len:
  assumes "wf_packet p"
  shows "unat (payload_len p) = length (pk_data p)"
proof -
  have "8 \<le> (ucast (pk_len p) :: u32)"
    using assms by (simp add: word_le_nat_alt wf_packet_def)
  then show ?thesis
    using assms by (simp add: payload_len_def unat_sub wf_packet_def)
qed

lemma payload_left:
  assumes "wf_packet p" "unat (c_offs c) \<le> length (pk_data p)"
  shows "unat (payload_len p - c_offs c) = length (pk_data p) - unat (c_offs c)"
proof -
  have "c_offs c \<le> payload_len p"
    using assms by (simp add: word_le_nat_alt unat_payload_len)
  then show ?thesis
    using assms by (simp add: unat_sub unat_payload_len)
qed

lemma payload_slice_rest:
  "off \<le> length (pk_data p) \<Longrightarrow>
     payload_slice p off (length (pk_data p) - off) = Some (drop off (pk_data p))"
  by (simp add: payload_slice_def)

lemma payload_slice_past:
  "length (pk_data p) < off \<Longrightarrow> payload_slice p off n = None"
  by (simp add: payload_slice_def)

lemma wf_packet_data_bound: "wf_packet p \<Longrightarrow> length (pk_data p) < 65528"
  using unat_u16_less [of "pk_len p"] by (simp add: wf_packet_def)

text \<open>Advancing \<open>offs\<close> by the result of a callback that stays inside the payload.\<close>

lemma offs_advance:
  assumes "wf_packet p" "unat (c_offs c) + r \<le> length (pk_data p)"
  shows "unat (c_offs c + of_nat r) = unat (c_offs c) + r"
    and "c_offs c + of_nat r < payload_len p \<longleftrightarrow> unat (c_offs c) + r < length (pk_data p)"
proof -
  have b: "length (pk_data p) < 65528" using assms(1) by (rule wf_packet_data_bound)
  show u: "unat (c_offs c + of_nat r) = unat (c_offs c) + r"
    using assms(2) b by (simp add: unat_word_ariths unat_of_nat)
  show "c_offs c + of_nat r < payload_len p \<longleftrightarrow> unat (c_offs c) + r < length (pk_data p)"
    unfolding word_less_nat_alt u unat_payload_len [OF assms(1)] ..
qed

section \<open>What a callback leaves alone\<close>

text \<open>
  The public functions change, of their handle's interface, only the credits, the
  transaction index and the busy set (\<open>cred\<close>, \<open>trnidx\<close>, \<open>ebusy\<close>).
\<close>

definition cb_frame :: "core \<Rightarrow> core \<Rightarrow> bool" where
  "cb_frame c c' \<longleftrightarrow> c_conn c' = c_conn c \<and> c_type c' = c_type c \<and> c_busy c' = c_busy c \<and>
     c_offs c' = c_offs c \<and> c_priv c' = c_priv c \<and> c_rdbuf c' = c_rdbuf c"

lemma cb_frame_refl [simp, intro]: "cb_frame c c"
  by (simp add: cb_frame_def)

lemma cb_frame_trans: "cb_frame c c' \<Longrightarrow> cb_frame c' c'' \<Longrightarrow> cb_frame c c''"
  by (simp add: cb_frame_def)

text \<open>A callback that works on the client's data only.\<close>

definition pure_cb :: "('d \<Rightarrow> ('a \<times> 'd) option) \<Rightarrow> ('a, 'd) step" where
  "pure_cb f c h = do { (r, d) \<leftarrow> f (h_usr h); Some (r, c, h\<lparr>h_usr := d\<rparr>) }"

end
