(* ===== verification/Uart.thy ===== *)
theory Uart
  imports Iface
begin

text \<open>
  The UART interface of \<open>coremodel.c\<close>: \<open>coremodel_advance_if_uart\<close> (data, credits and
  break conditions from the virtual machine) and \<open>coremodel_uart_rx\<close> (data to it, limited
  by the credits it has granted).
\<close>

abbreviation (input) PKT_UART_TX :: u8 where "PKT_UART_TX \<equiv> 0x00"
abbreviation (input) PKT_UART_RX :: u8 where "PKT_UART_RX \<equiv> 0x01"
abbreviation (input) PKT_UART_RX_ACK :: u8 where "PKT_UART_RX_ACK \<equiv> 0x02"
abbreviation (input) PKT_UART_BRK :: u8 where "PKT_UART_BRK \<equiv> 0x03"

section \<open>The code\<close>

definition coremodel_advance_if_uart :: "'d uart_func \<Rightarrow> packet \<Rightarrow> (int, 'd) step" where
  "coremodel_advance_if_uart f p c h =
    (if pk_pkt p = PKT_UART_TX then
       if c_busy c then Some (1, c, h)
       else do {
         let left = payload_len p - c_offs c;
         d \<leftarrow> payload_slice p (unat (c_offs c)) (unat left);
         (res, c, h) \<leftarrow> (case uf_tx f of
              Some tx \<Rightarrow> tx (c_priv c) d c h
            | None \<Rightarrow> Some (sint left, c, h));
         if res = 0 then Some (0, c\<lparr>c_busy := True\<rparr>, h)
         else let c = c\<lparr>c_offs := c_offs c + word_of_int res\<rparr> in
           if c_offs c < payload_len p then Some (1, c, h)
           else Some (0, c\<lparr>c_offs := 0\<rparr>, h) }
     else if pk_pkt p = PKT_UART_RX_ACK then
       if c_cred c = 0 then
         let c = c\<lparr>c_cred := c_cred c + ucast (pk_hflag p)\<rparr> in
         (case uf_rxrdy f of
            Some rxrdy \<Rightarrow> do { (_, c, h) \<leftarrow> rxrdy (c_priv c) c h; Some (0, c, h) }
          | None \<Rightarrow> Some (0, c, h))
       else Some (0, c\<lparr>c_cred := c_cred c + ucast (pk_hflag p)\<rparr>, h)
     else if pk_pkt p = PKT_UART_BRK then
       (case uf_brk f of
          Some brk \<Rightarrow> do { (_, c, h) \<leftarrow> brk (c_priv c) c h; Some (0, c, h) }
        | None \<Rightarrow> Some (0, c, h))
     else Some (0, c, h))"

text \<open>The handle may be NULL (\<open>None\<close>); \<open>len\<close> and \<open>data\<close> are the caller's arguments.\<close>

definition coremodel_uart_rx ::
  "core option \<Rightarrow> u32 \<Rightarrow> byte list \<Rightarrow> 'd host \<Rightarrow> (int \<times> core option \<times> 'd host) option" where
  "coremodel_uart_rx uart len data h =
    (case uart of
       None \<Rightarrow> Some (0, None, h)
     | Some c \<Rightarrow>
         if c_cred c = 0 then Some (0, Some c, h)
         else do {
           let len = (if len > c_cred c then c_cred c else len);
           (err, h) \<leftarrow> coremodel_push_packet
              \<lparr>pk_len = ucast (8 + len), pk_conn = c_conn c, pk_pkt = PKT_UART_RX, pk_bflag = 0,
               pk_hflag = 0, pk_data = []\<rparr> (Some data) h;
           if err then Some (0, Some c, h)
           else Some (sint len, Some (c\<lparr>c_cred := c_cred c - len\<rparr>), h) })"

section \<open>Client contract: a transmit callback that takes what it is given\<close>

text \<open>
  \<open>tx\<close> accepts at least one byte of a non-empty piece (no piece exceeds what a packet can
  carry) and never more than it was given;
  \<open>seen\<close> is the stream of bytes the client has accepted.
\<close>

locale tx_client =
  fixes tx :: "nat \<Rightarrow> byte list \<Rightarrow> (int, 'd) step"
    and seen :: "'d host \<Rightarrow> byte list"
  assumes accepts: "d \<noteq> [] \<Longrightarrow> length d < 65528 \<Longrightarrow> \<exists>r c' h'. tx p d c h = Some (int r, c', h') \<and> 0 < r \<and>
      r \<le> length d \<and> cb_frame c c' \<and> seen h' = seen h @ take r d"

section \<open>One step on a data packet\<close>

lemma uart_tx_busy:
  "pk_pkt p = PKT_UART_TX \<Longrightarrow> c_busy c \<Longrightarrow> coremodel_advance_if_uart f p c h = Some (1, c, h)"
  by (simp add: coremodel_advance_if_uart_def)

lemma uart_tx_step:
  assumes p: "pk_pkt p = PKT_UART_TX" "wf_packet p" and c: "\<not> c_busy c"
    and o: "unat (c_offs c) \<le> length (pk_data p)"
    and tx: "uf_tx f = Some tx" "tx (c_priv c) (drop (unat (c_offs c)) (pk_data p)) c h = Some (int r, c', h')"
    and r: "0 < r" "unat (c_offs c) + r \<le> length (pk_data p)" and fr: "cb_frame c c'"
  shows "coremodel_advance_if_uart f p c h =
    (if unat (c_offs c) + r < length (pk_data p)
     then Some (1, c'\<lparr>c_offs := c_offs c + of_nat r\<rparr>, h')
     else Some (0, c'\<lparr>c_offs := 0\<rparr>, h'))"
proof -
  have "c_offs c' = c_offs c" using fr by (simp add: cb_frame_def)
  moreover have "int r \<noteq> 0" using r by simp
  ultimately show ?thesis
    unfolding coremodel_advance_if_uart_def Let_def
    using p c o tx offs_advance [OF p(2) r(2)]
    by (simp add: payload_slice_rest payload_left)
qed

lemma uart_tx_stall:
  assumes p: "pk_pkt p = PKT_UART_TX" "wf_packet p" and c: "\<not> c_busy c"
    and o: "unat (c_offs c) \<le> length (pk_data p)"
    and tx: "uf_tx f = Some tx" "tx (c_priv c) (drop (unat (c_offs c)) (pk_data p)) c h = Some (0, c', h')"
  shows "coremodel_advance_if_uart f p c h = Some (0, c'\<lparr>c_busy := True\<rparr>, h')"
  using p c o tx by (simp add: coremodel_advance_if_uart_def payload_slice_rest payload_left)

context tx_client
begin

text \<open>
  Each time the queue comes to a data packet the client gets what it has not yet accepted of it, and
  takes a prefix; the packet is done with when it has taken everything.
\<close>

lemma takes_prefix:
  assumes p: "pk_pkt p = PKT_UART_TX" "wf_packet p" and f: "uf_tx f = Some tx"
    and c: "\<not> c_busy c" "unat (c_offs c) < length (pk_data p)"
  shows "\<exists>r res c' h'. coremodel_advance_if_uart f p c h = Some (res, c', h') \<and> 0 < r \<and>
    seen h' = seen h @ take r (drop (unat (c_offs c)) (pk_data p)) \<and> \<not> c_busy c' \<and>
    (if unat (c_offs c) + r < length (pk_data p) then res = 1 \<and> unat (c_offs c') = unat (c_offs c) + r
     else res = 0 \<and> c_offs c' = 0 \<and> unat (c_offs c) + r = length (pk_data p))"
proof -
  let ?o = "unat (c_offs c)"
  have ne: "drop ?o (pk_data p) \<noteq> []" using c by simp
  obtain r c1 h1 where t: "tx (c_priv c) (drop ?o (pk_data p)) c h = Some (int r, c1, h1)"
    and r: "0 < r" "r \<le> length (drop ?o (pk_data p))" and fr: "cb_frame c c1"
    and s: "seen h1 = seen h @ take r (drop ?o (pk_data p))"
    using accepts [OF ne] wf_packet_data_bound [OF p(2)] by fastforce
  have or: "?o + r \<le> length (pk_data p)" using r c by simp
  have b: "\<not> c_busy c1" using fr c(1) by (simp add: cb_frame_def)
  show ?thesis
    using uart_tx_step [OF p c(1) _ f t r(1) or fr] c(2) offs_advance(1) [OF p(2) or] s r(1) or b
    by (intro exI [of _ r]) auto
qed

end

text \<open>A client that takes every piece whole is one that takes what it is given.\<close>

locale tx_sink =
  fixes tx :: "nat \<Rightarrow> byte list \<Rightarrow> (int, 'd) step"
    and seen :: "'d host \<Rightarrow> byte list"
  assumes whole: "d \<noteq> [] \<Longrightarrow> length d < 65528 \<Longrightarrow> \<exists>c' h'. tx p d c h = Some (int (length d), c', h') \<and>
      cb_frame c c' \<and> seen h' = seen h @ d"

sublocale tx_sink \<subseteq> tx_client
proof
  fix d :: "byte list" and p c h
  assume d: "d \<noteq> []" "length d < 65528"
  then have "take (length d) d = d" "0 < length d" by simp_all
  with whole [OF d, of p c h] show "\<exists>r c' h'. tx p d c h = Some (int r, c', h') \<and> 0 < r \<and>
      r \<le> length d \<and> cb_frame c c' \<and> seen h' = seen h @ take r d"
    by (metis le_refl)
qed

context tx_sink
begin

lemma packet_taken:
  assumes "pk_pkt p = PKT_UART_TX" "wf_packet p" "uf_tx f = Some tx" "pk_data p \<noteq> []"
    "\<not> c_busy c" "c_offs c = 0"
  shows "\<exists>c' h'. coremodel_advance_if_uart f p c h = Some (0, c', h') \<and> cb_frame c c' \<and>
    seen h' = seen h @ pk_data p"
proof -
  obtain c' h' where t: "tx (c_priv c) (pk_data p) c h = Some (int (length (pk_data p)), c', h')"
    "cb_frame c c'" "seen h' = seen h @ pk_data p"
    using whole [OF assms(4) wf_packet_data_bound [OF assms(2)]] by blast
  have "c'\<lparr>c_offs := 0\<rparr> = c'" using t(2) assms(6) by (simp add: cb_frame_def)
  moreover have "tx (c_priv c) (drop (unat (c_offs c)) (pk_data p)) c h =
      Some (int (length (pk_data p)), c', h')" using t(1) assms(6) by simp
  note uart_tx_step [OF assms(1,2,5) _ assms(3) this _ _ t(2)]
  ultimately show ?thesis using t assms by simp
qed

end

section \<open>Sending to the virtual machine\<close>

definition uart_rx_packet :: "core \<Rightarrow> byte list \<Rightarrow> packet" where
  "uart_rx_packet c d = \<lparr>pk_len = len16 (8 + length d), pk_conn = c_conn c, pk_pkt = PKT_UART_RX,
     pk_bflag = 0, pk_hflag = 0, pk_data = d\<rparr>"

lemma wf_uart_rx_packet: "length d \<le> 65527 \<Longrightarrow> wf_packet (uart_rx_packet c d)"
  by (simp add: wf_packet_def uart_rx_packet_def unat_len16)

text \<open>What is accepted is sent, in one packet, and charged against the credits.\<close>

lemma uart_rx_sends:
  assumes cr: "c_cred c \<noteq> 0" and n: "n = min (unat len) (unat (c_cred c))"
    and fit: "n \<le> 65527" "n \<le> length data" and mem: "calloc h = (True, h')"
  shows "coremodel_uart_rx (Some c) len data h =
     Some (int n, Some (c\<lparr>c_cred := c_cred c - of_nat n\<rparr>),
           host_push (uart_rx_packet c (take n data)) h')"
proof -
  define l where "l = (if len > c_cred c then c_cred c else len)"
  have ln: "unat l = n" unfolding l_def n by (rule unat_if_min)
  then have l: "l = of_nat n" by (rule word_eq_of_nat)
  have s: "sint l = int n" using fit by (simp add: sint_small_u32 ln)
  let ?p = "\<lparr>pk_len = len16 (8 + n), pk_conn = c_conn c, pk_pkt = PKT_UART_RX, pk_bflag = 0,
               pk_hflag = 0, pk_data = []\<rparr>"
  have len: "unat (len16 (8 + n)) = 8 + n" using fit by (simp add: unat_len16)
  have b: "push_body ?p (Some data) = Some (header_bytes ?p @ take n data)"
    using fit len by (simp add: push_body_def)
  have pp: "pushed_packet ?p (Some data) = uart_rx_packet c (take n data)"
    using fit len by (simp add: pushed_packet_def uart_rx_packet_def min_def)
  have "coremodel_push_packet ?p (Some data) h = Some (False, host_push (uart_rx_packet c (take n data)) h')"
    using push_packet_ok [OF b _ mem] len pp by simp
  then show ?thesis
    unfolding coremodel_uart_rx_def using cr s
    by (simp add: l_def [symmetric] ucast_add_len16 ln) (simp add: l)
qed

text \<open>
  A request beyond the 16-bit length field, once the credits allow it: the packet carries
  fewer bytes than the call reports as accepted and takes from the credits.
\<close>

lemma uart_rx_truncates:
  assumes cr: "unat len \<le> unat (c_cred c)" and n: "65528 \<le> unat len" "unat len < 2147483648"
    and body: "8 \<le> (8 + unat len) mod 65536" "unat len \<le> length data" and mem: "calloc h = (True, h')"
  shows "\<exists>p. coremodel_uart_rx (Some c) len data h =
       Some (int (unat len), Some (c\<lparr>c_cred := c_cred c - len\<rparr>), host_push p h')
     \<and> wf_packet p \<and> length (pk_data p) = (8 + unat len) mod 65536 - 8 \<and> length (pk_data p) < unat len"
proof -
  let ?p = "\<lparr>pk_len = len16 (8 + unat len), pk_conn = c_conn c, pk_pkt = PKT_UART_RX, pk_bflag = 0,
               pk_hflag = 0, pk_data = []\<rparr>"
  let ?m = "(8 + unat len) mod 65536"
  have m: "unat (pk_len ?p) = ?m" by (simp add: unat_len16_mod)
  have le: "?m \<le> 8 + unat len" by (rule mod_less_eq_dividend)
  have b: "push_body ?p (Some data) = Some (header_bytes ?p @ take (?m - 8) data)"
    using body le_trans [OF diff_le_mono [OF le, of 8]] m by (simp add: push_body_def Let_def)
  have c: "c_cred c \<noteq> 0" "\<not> c_cred c < len"
    using cr n by (auto simp: word_less_nat_alt)
  have push: "coremodel_push_packet ?p (Some data) h =
      Some (False, host_push (pushed_packet ?p (Some data)) h')"
    using push_packet_ok [OF b _ mem] m body by simp
  have "?m < 65536" by simp
  then have "?m - 8 < unat len" using n by linarith
  then show ?thesis
    using c push push_body_Some(2) [OF b] m body n le
    by (intro exI [of _ "pushed_packet ?p (Some data)"])
      (simp add: coremodel_uart_rx_def ucast_add_len16 sint_small_u32 pushed_packet_def)
qed

end
