(* ===== verification/I2c.thy ===== *)
theory I2c
  imports Iface
begin

text \<open>
  The I2C interface of \<open>coremodel.c\<close>: \<open>coremodel_advance_if_i2c\<close> drives a client's
  \<open>start\<close>, \<open>write\<close>, \<open>read\<close> and \<open>stop\<close> and answers with \<open>DONE\<close> packets;
  \<open>coremodel_i2c_push_read\<close> sends unsolicited read data.
\<close>

abbreviation (input) PKT_I2C_START :: u8 where "PKT_I2C_START \<equiv> 0x00"
abbreviation (input) PKT_I2C_WRITE :: u8 where "PKT_I2C_WRITE \<equiv> 0x01"
abbreviation (input) PKT_I2C_READ :: u8 where "PKT_I2C_READ \<equiv> 0x02"
abbreviation (input) PKT_I2C_STOP :: u8 where "PKT_I2C_STOP \<equiv> 0x03"
abbreviation (input) PKT_I2C_DONE :: u8 where "PKT_I2C_DONE \<equiv> 0x04"

section \<open>The code\<close>

definition i2c_start_step :: "'d i2c_func \<Rightarrow> packet \<Rightarrow> u16 \<Rightarrow> u16 \<Rightarrow> (int, 'd) step" where
  "i2c_start_step f p nconn nhflag c h = do {
     (res, c, h) \<leftarrow> (case i2_start f of Some start \<Rightarrow> start (c_priv c) c h | None \<Rightarrow> Some (1, c, h));
     if res = 0 then Some (1, c\<lparr>c_busy := True\<rparr>, h)
     else if bit (pk_bflag p) 0 then do {
       h \<leftarrow> push_ignoring \<lparr>pk_len = 8, pk_conn = nconn, pk_pkt = PKT_I2C_DONE,
              pk_bflag = (if res < 0 then 1 else 0), pk_hflag = nhflag, pk_data = []\<rparr> None h;
       Some (0, c, h) }
     else Some (0, c, h) }"

definition i2c_write_step :: "'d i2c_func \<Rightarrow> packet \<Rightarrow> u16 \<Rightarrow> u16 \<Rightarrow> (int, 'd) step" where
  "i2c_write_step f p nconn nhflag c h = do {
     let left = payload_len p - c_offs c;
     d \<leftarrow> payload_slice p (unat (c_offs c)) (unat left);
     (res, c, h) \<leftarrow> (case i2_write f of Some write \<Rightarrow> write (c_priv c) d c h | None \<Rightarrow> Some (-1, c, h));
     let npkt = \<lparr>pk_len = 8, pk_conn = nconn, pk_pkt = PKT_I2C_DONE, pk_bflag = 0,
                 pk_hflag = nhflag, pk_data = []\<rparr>;
     if res = 0 then Some (1, c\<lparr>c_busy := True\<rparr>, h)
     else if res < 0 then
       (if bit (pk_bflag p) 0
        then do { h \<leftarrow> push_ignoring (npkt\<lparr>pk_bflag := 1\<rparr>) None h; Some (0, c, h) }
        else Some (0, c, h))
     else let c = c\<lparr>c_offs := c_offs c + word_of_int res\<rparr> in
       if c_offs c < payload_len p then Some (1, c, h)
       else let c = c\<lparr>c_offs := 0\<rparr> in
         (if bit (pk_bflag p) 0
          then do { h \<leftarrow> push_ignoring npkt None h; Some (0, c, h) }
          else Some (0, c, h)) }"

text \<open>
  A read asks for \<open>bflag - offs\<close> bytes at \<open>rdbuf + offs\<close>; what the callback stores must
  stay inside \<open>rdbuf\<close>.
\<close>

definition i2c_read_step :: "'d i2c_func \<Rightarrow> packet \<Rightarrow> u16 \<Rightarrow> u16 \<Rightarrow> (int, 'd) step" where
  "i2c_read_step f p nconn nhflag c h = do {
     let left = (ucast (pk_bflag p) :: u32) - c_offs c;
     (res, c, h) \<leftarrow> (case i2_read f of
         Some read \<Rightarrow> do {
           let offs = unat (c_offs c);
           ((res, bs), c, h) \<leftarrow> read (c_priv c) left c h;
           buf \<leftarrow> write_at offs bs (c_rdbuf c);
           Some (res, c\<lparr>c_rdbuf := buf\<rparr>, h) }
       | None \<Rightarrow> Some (sint left, c, h));
     if res = 0 then Some (1, c\<lparr>c_busy := True\<rparr>, h)
     else let c = c\<lparr>c_offs := c_offs c + word_of_int res\<rparr> in
       if c_offs c < ucast (pk_bflag p) then Some (1, c, h)
       else let c = c\<lparr>c_offs := 0\<rparr> in do {
         h \<leftarrow> push_ignoring \<lparr>pk_len = 8 + ucast (pk_bflag p), pk_conn = nconn, pk_pkt = PKT_I2C_DONE,
                pk_bflag = 0, pk_hflag = nhflag, pk_data = []\<rparr> (Some (c_rdbuf c)) h;
         Some (0, c, h) } }"

definition coremodel_advance_if_i2c :: "'d i2c_func \<Rightarrow> packet \<Rightarrow> (int, 'd) step" where
  "coremodel_advance_if_i2c f p c h =
    (if c_busy c then Some (1, c, h)
     else let nconn = c_conn c; c = c\<lparr>c_trnidx := pk_hflag p\<rparr>; nhflag = c_trnidx c in
       if pk_pkt p = PKT_I2C_START then i2c_start_step f p nconn nhflag c h
       else if pk_pkt p = PKT_I2C_WRITE then i2c_write_step f p nconn nhflag c h
       else if pk_pkt p = PKT_I2C_READ then i2c_read_step f p nconn nhflag c h
       else if pk_pkt p = PKT_I2C_STOP then
         (case i2_stop f of
            Some stop \<Rightarrow> do { (_, c, h) \<leftarrow> stop (c_priv c) c h; Some (0, c, h) }
          | None \<Rightarrow> Some (0, c, h))
       else Some (0, c, h))"

definition coremodel_i2c_push_read ::
  "core option \<Rightarrow> u32 \<Rightarrow> byte list \<Rightarrow> 'd host \<Rightarrow> (int \<times> core option \<times> 'd host) option" where
  "coremodel_i2c_push_read i2c len data h =
    (case i2c of
       None \<Rightarrow> Some (0, None, h)
     | Some c \<Rightarrow> do {
         let len = (if len > 255 then 255 else len);
         (err, h) \<leftarrow> coremodel_push_packet
            \<lparr>pk_len = ucast (8 + len), pk_conn = c_conn c, pk_pkt = PKT_I2C_DONE, pk_bflag = 0,
             pk_hflag = c_trnidx c, pk_data = []\<rparr> (Some data) h;
         if err then Some (0, Some c, h) else Some (sint len, Some c, h) })"

section \<open>A write that is refused half-way\<close>

text \<open>The step on a write that the client refuses: the packet is done, but \<open>offs\<close> keeps its value.\<close>

lemma i2c_write_nak:
  assumes p: "pk_pkt p = PKT_I2C_WRITE" "wf_packet p" and c: "\<not> c_busy c"
    and o: "unat (c_offs c) \<le> length (pk_data p)" and b: "\<not> bit (pk_bflag p) 0"
    and w: "i2_write f = Some wr" "res < 0" "cb_frame c c'"
      "wr (c_priv c) (drop (unat (c_offs c)) (pk_data p)) (c\<lparr>c_trnidx := pk_hflag p\<rparr>) h = Some (res, c', h')"
  shows "coremodel_advance_if_i2c f p c h = Some (0, c', h') \<and> c_offs c' = c_offs c"
proof -
  have "unat (payload_len p - c_offs c) = length (pk_data p) - unat (c_offs c)"
    by (rule payload_left [OF p(2) o])
  then show ?thesis
    using p c o b w payload_slice_rest [OF o]
    by (simp add: coremodel_advance_if_i2c_def i2c_write_step_def Let_def cb_frame_def)
qed

text \<open>A write whose payload ends before the left-over offset is read outside the packet.\<close>

lemma i2c_write_stale:
  assumes "pk_pkt p = PKT_I2C_WRITE" "\<not> c_busy c" "length (pk_data p) < unat (c_offs c)"
  shows "coremodel_advance_if_i2c f p c h = None"
  using assms by (simp add: coremodel_advance_if_i2c_def i2c_write_step_def Let_def payload_slice_past)

section \<open>Client contract: a device that never stalls\<close>

text \<open>
  A device model that works on its own data \<open>'d\<close>, acknowledges every start, takes every
  write whole and fills every read, while \<open>ok\<close> holds of its data.
\<close>

definition i2c_table ::
  "('d \<Rightarrow> (int \<times> 'd) option) \<Rightarrow> (byte list \<Rightarrow> 'd \<Rightarrow> (int \<times> 'd) option) \<Rightarrow>
   (u32 \<Rightarrow> 'd \<Rightarrow> ((int \<times> byte list) \<times> 'd) option) \<Rightarrow> ('d \<Rightarrow> (unit \<times> 'd) option) \<Rightarrow> 'd i2c_func" where
  "i2c_table start write read stop =
     \<lparr>i2_start = Some (\<lambda>_. pure_cb start), i2_write = Some (\<lambda>_ d. pure_cb (write d)),
      i2_read = Some (\<lambda>_ n. pure_cb (read n)), i2_stop = Some (\<lambda>_. pure_cb stop)\<rparr>"

definition i2c_reply :: "core \<Rightarrow> u16 \<Rightarrow> u8 \<Rightarrow> byte list \<Rightarrow> packet" where
  "i2c_reply c trn bflag d = \<lparr>pk_len = len16 (8 + length d), pk_conn = c_conn c,
     pk_pkt = PKT_I2C_DONE, pk_bflag = bflag, pk_hflag = trn, pk_data = d\<rparr>"

lemma i2c_reply_8: "i2c_reply c t b [] = \<lparr>pk_len = 8, pk_conn = c_conn c,
     pk_pkt = PKT_I2C_DONE, pk_bflag = b, pk_hflag = t, pk_data = []\<rparr>"
  by (simp add: i2c_reply_def len16_def)

lemma wf_i2c_reply: "length d < 65528 \<Longrightarrow> wf_packet (i2c_reply c t b d)"
  by (simp add: wf_packet_def i2c_reply_def unat_len16)

lemma write_at_0: "length bs \<le> length xs \<Longrightarrow> write_at 0 bs xs = Some (bs @ drop (length bs) xs)"
  by (simp add: write_at_def)

text \<open>
  The abstract bus: what such a device does with one packet, and the replies it owes.
\<close>

definition i2c_serve ::
  "('d \<Rightarrow> (int \<times> 'd) option) \<Rightarrow> (byte list \<Rightarrow> 'd \<Rightarrow> (int \<times> 'd) option) \<Rightarrow>
   (u32 \<Rightarrow> 'd \<Rightarrow> ((int \<times> byte list) \<times> 'd) option) \<Rightarrow> ('d \<Rightarrow> (unit \<times> 'd) option) \<Rightarrow>
   core \<Rightarrow> packet \<Rightarrow> 'd \<Rightarrow> (packet list \<times> 'd) option" where
  "i2c_serve start write read stop c p d =
    (let ack = (if bit (pk_bflag p) 0 then [i2c_reply c (pk_hflag p) 0 []] else []) in
     if pk_pkt p = PKT_I2C_START then do { (_, d) \<leftarrow> start d; Some (ack, d) }
     else if pk_pkt p = PKT_I2C_WRITE then do { (_, d) \<leftarrow> write (pk_data p) d; Some (ack, d) }
     else if pk_pkt p = PKT_I2C_READ then do {
       ((_, bs), d) \<leftarrow> read (ucast (pk_bflag p)) d; Some ([i2c_reply c (pk_hflag p) 0 bs], d) }
     else if pk_pkt p = PKT_I2C_STOP then do { (_, d) \<leftarrow> stop d; Some ([], d) }
     else Some ([], d))"

fun i2c_serves ::
  "('d \<Rightarrow> (int \<times> 'd) option) \<Rightarrow> (byte list \<Rightarrow> 'd \<Rightarrow> (int \<times> 'd) option) \<Rightarrow>
   (u32 \<Rightarrow> 'd \<Rightarrow> ((int \<times> byte list) \<times> 'd) option) \<Rightarrow> ('d \<Rightarrow> (unit \<times> 'd) option) \<Rightarrow>
   core \<Rightarrow> packet list \<Rightarrow> 'd \<Rightarrow> (packet list \<times> 'd) option" where
  "i2c_serves start write read stop c [] d = Some ([], d)"
| "i2c_serves start write read stop c (p # ps) d = do {
     (rs, d) \<leftarrow> i2c_serve start write read stop c p d;
     (rss, d) \<leftarrow> i2c_serves start write read stop c ps d;
     Some (rs @ rss, d) }"

text \<open>The packets a bus master sends: writes and reads of at least one byte.\<close>

definition i2c_request :: "packet \<Rightarrow> bool" where
  "i2c_request p \<longleftrightarrow> pk_pkt p = PKT_I2C_START \<or> pk_pkt p = PKT_I2C_STOP \<or>
     (pk_pkt p = PKT_I2C_WRITE \<and> wf_packet p \<and> pk_data p \<noteq> []) \<or>
     (pk_pkt p = PKT_I2C_READ \<and> pk_bflag p \<noteq> 0)"

lemma i2c_serves_conn:
  "c_conn c = c_conn c' \<Longrightarrow> i2c_serves s w r t c ps d = i2c_serves s w r t c' ps d"
  by (induction ps arbitrary: d) (simp_all add: i2c_serve_def i2c_reply_def)

locale i2c_device =
  fixes dstart :: "'d \<Rightarrow> (int \<times> 'd) option"
    and dwrite :: "byte list \<Rightarrow> 'd \<Rightarrow> (int \<times> 'd) option"
    and dread :: "u32 \<Rightarrow> 'd \<Rightarrow> ((int \<times> byte list) \<times> 'd) option"
    and dstop :: "'d \<Rightarrow> (unit \<times> 'd) option"
    and ok :: "'d \<Rightarrow> bool"
  assumes starts: "ok d \<Longrightarrow> \<exists>d'. dstart d = Some (1, d') \<and> ok d'"
    and writes: "ok d \<Longrightarrow> bs \<noteq> [] \<Longrightarrow> \<exists>d'. dwrite bs d = Some (int (length bs), d') \<and> ok d'"
    and reads: "ok d \<Longrightarrow> 0 < n \<Longrightarrow> n < 256 \<Longrightarrow>
      \<exists>bs d'. dread (of_nat n) d = Some ((int n, bs), d') \<and> length bs = n \<and> ok d'"
    and stops: "ok d \<Longrightarrow> \<exists>d'. dstop d = Some ((), d') \<and> ok d'"
begin

text \<open>An idle interface between packets: not stalled, no packet half done, memory available.\<close>

definition idle :: "core \<Rightarrow> 'd host \<Rightarrow> bool" where
  "idle c h \<longleftrightarrow> \<not> c_busy c \<and> c_offs c = 0 \<and> length (c_rdbuf c) = RDBUF \<and> h_oom h = [] \<and> ok (h_usr h)"

lemma start_done:
  assumes "idle c h" "pk_pkt p = PKT_I2C_START"
  shows "\<exists>d'. dstart (h_usr h) = Some (1, d') \<and>
    coremodel_advance_if_i2c (i2c_table dstart dwrite dread dstop) p c h =
      Some (0, c\<lparr>c_trnidx := pk_hflag p\<rparr>,
        host_pushes (if bit (pk_bflag p) 0 then [i2c_reply c (pk_hflag p) 0 []] else [])
          (h\<lparr>h_usr := d'\<rparr>)) \<and> ok d'"
proof -
  obtain d' where d': "dstart (h_usr h) = Some (1, d')" "ok d'"
    using starts assms(1) by (auto simp: idle_def)
  then show ?thesis
    using assms wf_i2c_reply [of "[]" c "pk_hflag p" 0]
    by (simp add: coremodel_advance_if_i2c_def i2c_start_step_def idle_def i2c_table_def
        pure_cb_def i2c_reply_8 push_ignoring_self)
qed

lemma write_done:
  assumes "idle c h" "pk_pkt p = PKT_I2C_WRITE" "wf_packet p" "pk_data p \<noteq> []"
  shows "\<exists>d'. dwrite (pk_data p) (h_usr h) = Some (int (length (pk_data p)), d') \<and>
    coremodel_advance_if_i2c (i2c_table dstart dwrite dread dstop) p c h =
      Some (0, c\<lparr>c_trnidx := pk_hflag p\<rparr>,
        host_pushes (if bit (pk_bflag p) 0 then [i2c_reply c (pk_hflag p) 0 []] else [])
          (h\<lparr>h_usr := d'\<rparr>)) \<and> ok d'"
proof -
  obtain d' where d': "dwrite (pk_data p) (h_usr h) = Some (int (length (pk_data p)), d')" "ok d'"
    using writes assms(1,4) by (auto simp: idle_def)
  let ?c = "c\<lparr>c_trnidx := pk_hflag p\<rparr>"
  have o: "c_offs ?c = 0" using assms(1) by (simp add: idle_def)
  have s: "payload_slice p 0 (unat (payload_len p)) = Some (pk_data p)"
    using payload_slice_rest [of 0 p] by (simp add: unat_payload_len [OF assms(3)])
  have "\<not> (of_nat (length (pk_data p)) :: u32) < payload_len p"
    using offs_advance(2) [OF assms(3), of ?c "length (pk_data p)"] o by simp
  then show ?thesis
    using assms d' o s wf_i2c_reply [of "[]" c "pk_hflag p" 0]
    by (auto simp: coremodel_advance_if_i2c_def i2c_write_step_def idle_def i2c_table_def Let_def
        pure_cb_def i2c_reply_8 push_ignoring_self)
qed

lemma read_done:
  assumes "idle c h" "pk_pkt p = PKT_I2C_READ" "pk_bflag p \<noteq> 0"
  shows "\<exists>bs d'. dread (ucast (pk_bflag p)) (h_usr h) = Some ((int (unat (pk_bflag p)), bs), d') \<and>
    length bs = unat (pk_bflag p) \<and>
    coremodel_advance_if_i2c (i2c_table dstart dwrite dread dstop) p c h =
      Some (0, c\<lparr>c_trnidx := pk_hflag p, c_rdbuf := bs @ drop (length bs) (c_rdbuf c)\<rparr>,
        host_pushes [i2c_reply c (pk_hflag p) 0 bs] (h\<lparr>h_usr := d'\<rparr>)) \<and> ok d'"
proof -
  let ?n = "unat (pk_bflag p)"
  have n: "0 < ?n" "?n < 256" using assms(3) unat_u8_less by (auto simp: unat_gt_0)
  have u: "(ucast (pk_bflag p) :: u32) = of_nat ?n" by (rule word_eq_of_nat) simp
  have "ok (h_usr h)" using assms(1) by (simp add: idle_def)
  from reads [OF this n] obtain bs d' where
    d': "dread (ucast (pk_bflag p)) (h_usr h) = Some ((int ?n, bs), d')"
    and l: "length bs = ?n" and ok: "ok d'"
    unfolding u by blast
  have w: "write_at 0 bs (c_rdbuf c) = Some (bs @ drop (length bs) (c_rdbuf c))"
    using l n assms(1) by (intro write_at_0) (simp add: idle_def)
  have "8 + ucast (pk_bflag p) = len16 (8 + ?n)"
  proof -
    have "(ucast (pk_bflag p) :: u16) = of_nat ?n"
      by (rule word_eq_of_nat) (use n in \<open>simp add: unsigned_ucast_eq take_bit_nat_eq_self\<close>)
    then show ?thesis by (simp add: len16_def)
  qed
  moreover have "push_ignoring \<lparr>pk_len = len16 (8 + ?n), pk_conn = c_conn c, pk_pkt = PKT_I2C_DONE,
       pk_bflag = 0, pk_hflag = pk_hflag p, pk_data = []\<rparr> (Some (bs @ drop (length bs) (c_rdbuf c)))
       (h\<lparr>h_usr := d'\<rparr>) = Some (host_push (i2c_reply c (pk_hflag p) 0 bs) (h\<lparr>h_usr := d'\<rparr>))"
    using n l assms(1) by (subst push_ignoring_data [where n = ?n])
      (simp_all add: unat_len16 i2c_reply_def idle_def)
  ultimately show ?thesis
    using assms n d' l w ok unsigned_eq_0_iff [of "pk_bflag p"]
    by (auto simp: coremodel_advance_if_i2c_def i2c_read_step_def idle_def i2c_table_def Let_def pure_cb_def)
qed

lemma stop_done:
  assumes "idle c h" "pk_pkt p = PKT_I2C_STOP"
  shows "\<exists>d'. dstop (h_usr h) = Some ((), d') \<and>
    coremodel_advance_if_i2c (i2c_table dstart dwrite dread dstop) p c h =
      Some (0, c\<lparr>c_trnidx := pk_hflag p\<rparr>, h\<lparr>h_usr := d'\<rparr>) \<and> ok d'"
  using stops [of "h_usr h"] assms
  by (auto simp: coremodel_advance_if_i2c_def idle_def i2c_table_def Let_def pure_cb_def)

text \<open>One request: the handler does what the abstract bus says and is ready for the next.\<close>

lemma request_done:
  assumes "idle c h" "i2c_request p"
  shows "\<exists>rs d' buf. i2c_serve dstart dwrite dread dstop c p (h_usr h) = Some (rs, d') \<and>
    coremodel_advance_if_i2c (i2c_table dstart dwrite dread dstop) p c h =
      Some (0, c\<lparr>c_trnidx := pk_hflag p, c_rdbuf := buf\<rparr>, host_pushes rs (h\<lparr>h_usr := d'\<rparr>)) \<and>
    idle (c\<lparr>c_trnidx := pk_hflag p, c_rdbuf := buf\<rparr>) (host_pushes rs (h\<lparr>h_usr := d'\<rparr>))"
proof -
  have self: "c\<lparr>c_trnidx := t\<rparr> = c\<lparr>c_trnidx := t, c_rdbuf := c_rdbuf c\<rparr>" for t by simp
  consider "pk_pkt p = PKT_I2C_START" | "pk_pkt p = PKT_I2C_STOP"
    | "pk_pkt p = PKT_I2C_WRITE" "wf_packet p" "pk_data p \<noteq> []"
    | "pk_pkt p = PKT_I2C_READ" "pk_bflag p \<noteq> 0"
    using assms(2) by (auto simp: i2c_request_def)
  then show ?thesis
  proof cases
    case 1
    with start_done [OF assms(1) 1] assms(1) show ?thesis
      by (intro exI [of _ "if bit (pk_bflag p) 0 then [i2c_reply c (pk_hflag p) 0 []] else []"])
        (auto simp: i2c_serve_def idle_def intro!: exI [of _ "c_rdbuf c"])
  next
    case 2
    with stop_done [OF assms(1) 2] assms(1) show ?thesis
      by (intro exI [of _ "[]"]) (auto simp: i2c_serve_def idle_def intro!: exI [of _ "c_rdbuf c"])
  next
    case 3
    with write_done [OF assms(1) 3] assms(1) show ?thesis
      by (intro exI [of _ "if bit (pk_bflag p) 0 then [i2c_reply c (pk_hflag p) 0 []] else []"])
        (auto simp: i2c_serve_def idle_def intro!: exI [of _ "c_rdbuf c"])
  next
    case 4
    then obtain bs d' where r: "dread (ucast (pk_bflag p)) (h_usr h) = Some ((int (unat (pk_bflag p)), bs), d')"
      "length bs = unat (pk_bflag p)" "ok d'"
      "coremodel_advance_if_i2c (i2c_table dstart dwrite dread dstop) p c h =
        Some (0, c\<lparr>c_trnidx := pk_hflag p, c_rdbuf := bs @ drop (length bs) (c_rdbuf c)\<rparr>,
          host_pushes [i2c_reply c (pk_hflag p) 0 bs] (h\<lparr>h_usr := d'\<rparr>))"
      using read_done [OF assms(1) 4] by blast
    have "length bs < RDBUF" using r(2) unat_u8_less [of "pk_bflag p"] by simp
    with 4 r assms(1) show ?thesis
      by (intro exI [of _ "[i2c_reply c (pk_hflag p) 0 bs]"] exI [of _ d']
          exI [of _ "bs @ drop (length bs) (c_rdbuf c)"]) (auto simp: i2c_serve_def idle_def)
  qed
qed

end

end
