(* ===== verification/Spi.thy ===== *)
theory Spi
  imports Uart
begin

text \<open>
  The SPI interface of \<open>coremodel.c\<close>: \<open>coremodel_advance_if_spi\<close> hands a transfer to the
  client in pieces of at most 256 bytes, collects the answer in \<open>rdbuf\<close> and sends it in
  one packet. \<open>spi_pieces\<close> is the abstract transfer, and \<open>spi_device\<close> the contract of a
  client that shifts every byte it is given.
\<close>

abbreviation (input) PKT_SPI_CS :: u8 where "PKT_SPI_CS \<equiv> 0x00"
abbreviation (input) PKT_SPI_TX :: u8 where "PKT_SPI_TX \<equiv> 0x01"
abbreviation (input) PKT_SPI_RX :: u8 where "PKT_SPI_RX \<equiv> 0x02"
abbreviation (input) SPI_PIECE :: nat where "SPI_PIECE \<equiv> 256"

section \<open>The code\<close>

definition coremodel_advance_if_spi :: "'d spi_func \<Rightarrow> packet \<Rightarrow> (int, 'd) step" where
  "coremodel_advance_if_spi f p c h =
    (if pk_pkt p = PKT_SPI_CS then
       (case sf_cs f of
          Some cs \<Rightarrow> do { (_, c, h) \<leftarrow> cs (c_priv c) (ucast (pk_bflag p AND 1)) c h; Some (0, c, h) }
        | None \<Rightarrow> Some (0, c, h))
     else if pk_pkt p = PKT_SPI_TX then
       if c_busy c then Some (1, c, h)
       else do {
         let c = c\<lparr>c_trnidx := pk_hflag p\<rparr>;
         let res = sint (payload_len p - c_offs c);
         let res = (if res > 256 then 256 else res);
         (res, c, h) \<leftarrow> (case sf_xfr f of
              Some xfr \<Rightarrow> do {
                let offs = unat (c_offs c);
                d \<leftarrow> payload_slice p offs (unat (word_of_int res :: u32));
                ((res, bs), c, h) \<leftarrow> xfr (c_priv c) d c h;
                buf \<leftarrow> write_at offs bs (c_rdbuf c);
                Some (res, c\<lparr>c_rdbuf := buf\<rparr>, h) }
            | None \<Rightarrow> Some (res, c, h));
         if res = 0 then Some (1, c\<lparr>c_busy := True\<rparr>, h)
         else let c = c\<lparr>c_offs := c_offs c + word_of_int res\<rparr> in
           if c_offs c < payload_len p then Some (1, c, h)
           else let c = c\<lparr>c_offs := 0\<rparr> in do {
             h \<leftarrow> push_ignoring \<lparr>pk_len = pk_len p, pk_conn = c_conn c, pk_pkt = PKT_SPI_RX,
                    pk_bflag = 0, pk_hflag = c_trnidx c, pk_data = []\<rparr> (Some (c_rdbuf c)) h;
             Some (0, c, h) } }
     else Some (0, c, h))"

section \<open>Client contract: a device that shifts every byte\<close>

definition spi_table ::
  "(u32 \<Rightarrow> 'd \<Rightarrow> (unit \<times> 'd) option) \<Rightarrow> (byte list \<Rightarrow> 'd \<Rightarrow> ((int \<times> byte list) \<times> 'd) option) \<Rightarrow> 'd spi_func" where
  "spi_table cs xfr = \<lparr>sf_cs = Some (\<lambda>_ n. pure_cb (cs n)), sf_xfr = Some (\<lambda>_ d. pure_cb (xfr d))\<rparr>"

definition spi_reply :: "core \<Rightarrow> u16 \<Rightarrow> byte list \<Rightarrow> packet" where
  "spi_reply c trn d = \<lparr>pk_len = len16 (8 + length d), pk_conn = c_conn c, pk_pkt = PKT_SPI_RX,
     pk_bflag = 0, pk_hflag = trn, pk_data = d\<rparr>"

text \<open>The transfer of a payload piece by piece: the bytes shifted out and the device's new state.\<close>

function spi_pieces ::
  "(byte list \<Rightarrow> 'd \<Rightarrow> ((int \<times> byte list) \<times> 'd) option) \<Rightarrow> byte list \<Rightarrow> 'd \<Rightarrow> (byte list \<times> 'd) option" where
  "spi_pieces xfr bs d =
     (if bs = [] then Some ([], d)
      else do {
        ((_, out), d) \<leftarrow> xfr (take SPI_PIECE bs) d;
        (outs, d) \<leftarrow> spi_pieces xfr (drop SPI_PIECE bs) d;
        Some (out @ outs, d) })"
  by pat_completeness auto
termination by (relation "measure (\<lambda>(_, bs, _). length bs)") auto

declare spi_pieces.simps [simp del]

lemma spi_pieces_Nil [simp]: "spi_pieces xfr [] d = Some ([], d)"
  by (simp add: spi_pieces.simps)

text \<open>The piece the code asks for.\<close>

lemma spi_res:
  assumes "wf_packet p" "unat (c_offs c) \<le> length (pk_data p)"
  shows "(if sint (payload_len p - c_offs c) > 256 then 256 else sint (payload_len p - c_offs c))
       = int (min SPI_PIECE (length (pk_data p) - unat (c_offs c)))"
proof -
  have u: "unat (payload_len p - c_offs c) = length (pk_data p) - unat (c_offs c)"
    using payload_left [OF assms] .
  have "length (pk_data p) < 65528" using assms(1) by (rule wf_packet_data_bound)
  then show ?thesis by (simp add: sint_small_u32 u min_def)
qed

text \<open>The handler sets the transaction index itself.\<close>

lemma spi_trnidx:
  assumes "pk_pkt p = PKT_SPI_TX" "\<not> c_busy c"
  shows "coremodel_advance_if_spi f p (c\<lparr>c_trnidx := pk_hflag p\<rparr>) h = coremodel_advance_if_spi f p c h"
  using assms by (simp add: coremodel_advance_if_spi_def Let_def)

locale spi_device =
  fixes dcs :: "u32 \<Rightarrow> 'd \<Rightarrow> (unit \<times> 'd) option"
    and dxfr :: "byte list \<Rightarrow> 'd \<Rightarrow> ((int \<times> byte list) \<times> 'd) option"
    and ok :: "'d \<Rightarrow> bool"
  assumes selects: "ok d \<Longrightarrow> \<exists>d'. dcs n d = Some ((), d') \<and> ok d'"
    and shifts: "ok d \<Longrightarrow> bs \<noteq> [] \<Longrightarrow> length bs \<le> SPI_PIECE \<Longrightarrow>
      \<exists>out d'. dxfr bs d = Some ((int (length bs), out), d') \<and> length out = length bs \<and> ok d'"
begin

abbreviation (input) advance :: "packet \<Rightarrow> (int, 'd) step" where
  "advance \<equiv> coremodel_advance_if_spi (spi_table dcs dxfr)"

lemma cs_done:
  assumes "pk_pkt p = PKT_SPI_CS" "ok (h_usr h)"
  shows "\<exists>d'. dcs (ucast (pk_bflag p AND 1)) (h_usr h) = Some ((), d') \<and>
    advance p c h = Some (0, c, h\<lparr>h_usr := d'\<rparr>) \<and> ok d'"
  using selects [OF assms(2), of "ucast (pk_bflag p AND 1)"] assms(1)
  by (auto simp: coremodel_advance_if_spi_def spi_table_def pure_cb_def)

lemma pieces_total:
  "ok d \<Longrightarrow> \<exists>out d'. spi_pieces dxfr bs d = Some (out, d') \<and> length out = length bs \<and> ok d'"
proof (induction bs arbitrary: d rule: length_induct)
  case (1 bs)
  show ?case
  proof (cases "bs = []")
    case True
    then show ?thesis using 1 by simp
  next
    case False
    have ne: "take SPI_PIECE bs \<noteq> []" "length (take SPI_PIECE bs) \<le> SPI_PIECE" using False by simp_all
    obtain out d1 where x: "dxfr (take SPI_PIECE bs) d = Some ((int (length (take SPI_PIECE bs)), out), d1)"
      and l: "length out = length (take SPI_PIECE bs)" and o: "ok d1"
      using shifts [OF 1(2) ne] by blast
    have "length (drop SPI_PIECE bs) < length bs" using False by simp
    then obtain outs d2 where "spi_pieces dxfr (drop SPI_PIECE bs) d1 = Some (outs, d2)"
      "length outs = length (drop SPI_PIECE bs)" "ok d2"
      using 1(1) o by blast
    then show ?thesis using False x l by (subst spi_pieces.simps) auto
  qed
qed

text \<open>One call of the handler on a transfer with \<open>rest\<close> still to shift.\<close>

lemma tx_step:
  assumes p: "pk_pkt p = PKT_SPI_TX" "wf_packet p" and c: "\<not> c_busy c" "c_trnidx c = pk_hflag p"
    and o: "unat (c_offs c) < length (pk_data p)" and h: "h_oom h = []"
    and x: "dxfr (take SPI_PIECE (drop (unat (c_offs c)) (pk_data p))) (h_usr h) =
        Some ((int (min SPI_PIECE (length (pk_data p) - unat (c_offs c))), out), d')"
      "length out = min SPI_PIECE (length (pk_data p) - unat (c_offs c))"
  shows "advance p c h =
    (let n = min SPI_PIECE (length (pk_data p) - unat (c_offs c)) in
     case write_at (unat (c_offs c)) out (c_rdbuf c) of
       None \<Rightarrow> None
     | Some buf \<Rightarrow>
         if unat (c_offs c) + n < length (pk_data p)
         then Some (1, c\<lparr>c_rdbuf := buf, c_offs := c_offs c + of_nat n\<rparr>, h\<lparr>h_usr := d'\<rparr>)
         else do { h \<leftarrow> push_ignoring \<lparr>pk_len = pk_len p, pk_conn = c_conn c, pk_pkt = PKT_SPI_RX,
                    pk_bflag = 0, pk_hflag = c_trnidx c, pk_data = []\<rparr> (Some buf) (h\<lparr>h_usr := d'\<rparr>);
                   Some (0, c\<lparr>c_rdbuf := buf, c_offs := 0\<rparr>, h) })"
proof -
  define n where "n = min SPI_PIECE (length (pk_data p) - unat (c_offs c))"
  have n: "0 < n" "n \<le> SPI_PIECE" "unat (c_offs c) + n \<le> length (pk_data p)"
    using o by (simp_all add: n_def)
  have c2: "c\<lparr>c_trnidx := pk_hflag p\<rparr> = c" using c(2) by simp
  have u: "unat (word_of_int (int n) :: u32) = n" using n by (simp add: unat_of_nat_u32)
  have s: "payload_slice p (unat (c_offs c)) n = Some (take SPI_PIECE (drop (unat (c_offs c)) (pk_data p)))"
    using n(3) take_min_length [of SPI_PIECE "drop (unat (c_offs c)) (pk_data p)"]
    by (simp add: payload_slice_def) (simp add: n_def)
  have r: "(if sint (payload_len p - c_offs c) > 256 then 256 else sint (payload_len p - c_offs c)) = int n"
    unfolding n_def by (rule spi_res [OF p(2)]) (use o in linarith)
  show ?thesis
    unfolding coremodel_advance_if_spi_def Let_def c2 r n_def [symmetric]
    using p c x [folded n_def] u s offs_advance(2) [OF p(2) n(3)] n(1)
    by (simp add: spi_table_def pure_cb_def split: option.splits)
qed

text \<open>
  A call on a transfer that fits \<open>rdbuf\<close>, from any point of it: one piece is shifted; what was shifted
  so far is in \<open>rdbuf\<close>, and after the last piece all of it is the reply.
\<close>

lemma transfer_step:
  assumes p: "pk_pkt p = PKT_SPI_TX" "wf_packet p" and fit: "length (pk_data p) \<le> RDBUF"
    and c: "\<not> c_busy c" "c_trnidx c = pk_hflag p" "unat (c_offs c) < length (pk_data p)" "length (c_rdbuf c) = RDBUF"
    and h: "h_oom h = []" "ok (h_usr h)"
  defines "n \<equiv> min SPI_PIECE (length (pk_data p) - unat (c_offs c))"
  shows "\<exists>out d' buf. dxfr (take SPI_PIECE (drop (unat (c_offs c)) (pk_data p))) (h_usr h) = Some ((int n, out), d') \<and>
    ok d' \<and> length out = n \<and> length buf = RDBUF \<and>
    take (unat (c_offs c) + n) buf = take (unat (c_offs c)) (c_rdbuf c) @ out \<and>
    advance p c h =
      (if unat (c_offs c) + n < length (pk_data p)
       then Some (1, c\<lparr>c_rdbuf := buf, c_offs := c_offs c + of_nat n\<rparr>, h\<lparr>h_usr := d'\<rparr>)
       else Some (0, c\<lparr>c_rdbuf := buf, c_offs := 0\<rparr>,
         host_push (spi_reply c (pk_hflag p) (take (unat (c_offs c)) (c_rdbuf c) @ out)) (h\<lparr>h_usr := d'\<rparr>)))"
proof -
  define off where "off = unat (c_offs c)"
  have o: "off < length (pk_data p)" using c by (simp add: off_def)
  have n: "0 < n" "off + n \<le> length (pk_data p)" using o by (simp_all add: n_def off_def)
  have ln: "length (take SPI_PIECE (drop off (pk_data p))) = n" by (simp add: n_def off_def min.commute)
  have ne: "take SPI_PIECE (drop off (pk_data p)) \<noteq> []"
    "length (take SPI_PIECE (drop off (pk_data p))) \<le> SPI_PIECE" using o by simp_all
  obtain out d1 where x: "dxfr (take SPI_PIECE (drop off (pk_data p))) (h_usr h) = Some ((int n, out), d1)"
    and l: "length out = n" and k1: "ok d1"
    using shifts [OF h(2) ne] unfolding ln by blast
  define buf where "buf = take off (c_rdbuf c) @ out @ drop (off + n) (c_rdbuf c)"
  have w: "write_at off out (c_rdbuf c) = Some buf"
    using l n fit c(4) by (simp add: write_at_def buf_def)
  have lb: "length buf = RDBUF" using w c(4) by (simp add: length_write_at)
  have t: "take (off + n) buf = take off (c_rdbuf c) @ out" using take_write_at [OF w] l by simp
  note st = tx_step [OF p c(1-3) h(1), folded n_def, folded off_def, OF x l, unfolded w Let_def, simplified]
  have reply: "push_ignoring \<lparr>pk_len = pk_len p, pk_conn = c_conn c, pk_pkt = PKT_SPI_RX,
           pk_bflag = 0, pk_hflag = pk_hflag p, pk_data = []\<rparr> (Some buf) (h\<lparr>h_usr := d1\<rparr>)
      = Some (host_push (spi_reply c (pk_hflag p) (take off (c_rdbuf c) @ out)) (h\<lparr>h_usr := d1\<rparr>))"
    if e: "off + n = length (pk_data p)"
  proof -
    have "unat (pk_len p) = 8 + length (pk_data p)" using p(2) by (simp add: wf_packet_def)
    moreover from this have "pk_len p = len16 (8 + length (pk_data p))"
      unfolding len16_def by (rule word_eq_of_nat)
    moreover have "length (take off (c_rdbuf c) @ out) = length (pk_data p)"
      using e l o fit c(4) by simp
    ultimately show ?thesis
      using fit lb h(1) t e
      by (subst push_ignoring_data [where n = "length (pk_data p)"])
        (simp_all add: spi_reply_def del: length_append)
  qed
  have "advance p c h = (if off + n < length (pk_data p)
       then Some (1, c\<lparr>c_rdbuf := buf, c_offs := c_offs c + of_nat n\<rparr>, h\<lparr>h_usr := d1\<rparr>)
       else Some (0, c\<lparr>c_rdbuf := buf, c_offs := 0\<rparr>,
         host_push (spi_reply c (pk_hflag p) (take off (c_rdbuf c) @ out)) (h\<lparr>h_usr := d1\<rparr>)))"
    using st reply n(2) c(2) by (cases "off + n < length (pk_data p)") simp_all
  then show ?thesis using x l k1 lb t unfolding off_def by blast
qed

text \<open>A transfer of at most one piece is answered by the first call.\<close>

lemma transfer_short:
  assumes p: "pk_pkt p = PKT_SPI_TX" "wf_packet p" "length (pk_data p) \<le> SPI_PIECE" "pk_data p \<noteq> []"
    and c: "\<not> c_busy c" "c_offs c = 0" "length (c_rdbuf c) = RDBUF" and h: "h_oom h = []" "ok (h_usr h)"
  shows "\<exists>out d' c'. spi_pieces dxfr (pk_data p) (h_usr h) = Some (out, d') \<and> length out = length (pk_data p) \<and>
      \<not> c_busy c' \<and> c_offs c' = 0 \<and>
      advance p c h = Some (0, c', host_push (spi_reply c (pk_hflag p) out) (h\<lparr>h_usr := d'\<rparr>))"
proof -
  let ?c = "c\<lparr>c_trnidx := pk_hflag p\<rparr>"
  obtain out d' buf where s: "dxfr (pk_data p) (h_usr h) = Some ((int (length (pk_data p)), out), d')"
    "length out = length (pk_data p)"
    "advance p ?c h = Some (0, ?c\<lparr>c_rdbuf := buf, c_offs := 0\<rparr>, host_push (spi_reply ?c (pk_hflag p) out) (h\<lparr>h_usr := d'\<rparr>))"
    using transfer_step [OF p(1,2), of ?c h] p(3,4) c h by auto
  have "spi_pieces dxfr (pk_data p) (h_usr h) = Some (out, d')"
    using s(1) p(3,4) by (subst spi_pieces.simps) simp
  moreover have "spi_reply ?c (pk_hflag p) out = spi_reply c (pk_hflag p) out" by (simp add: spi_reply_def)
  ultimately show ?thesis
    using s(2,3) c(1) spi_trnidx [OF p(1) c(1), of "spi_table dcs dxfr" h]
    by (intro exI [of _ out] exI [of _ d'] exI [of _ "?c\<lparr>c_rdbuf := buf, c_offs := 0\<rparr>"]) simp
qed

text \<open>A transfer of two pieces: the first call leaves the packet unanswered, the second answers it.\<close>

lemma transfer_long:
  assumes p: "pk_pkt p = PKT_SPI_TX" "wf_packet p" "SPI_PIECE < length (pk_data p)" "length (pk_data p) \<le> RDBUF"
    and c: "\<not> c_busy c" "c_offs c = 0" "length (c_rdbuf c) = RDBUF" and h: "h_oom h = []" "ok (h_usr h)"
  shows "\<exists>out d1 d' c1 c2. spi_pieces dxfr (pk_data p) (h_usr h) = Some (out, d') \<and> length out = length (pk_data p) \<and>
      advance p c h = Some (1, c1, h\<lparr>h_usr := d1\<rparr>) \<and> \<not> c_busy c1 \<and> c_offs c1 = 256 \<and> c_type c1 = c_type c \<and>
      advance p c1 (h\<lparr>h_usr := d1\<rparr>) = Some (0, c2, host_push (spi_reply c (pk_hflag p) out) (h\<lparr>h_usr := d'\<rparr>)) \<and>
      \<not> c_busy c2 \<and> c_offs c2 = 0"
proof -
  let ?c = "c\<lparr>c_trnidx := pk_hflag p\<rparr>" and ?k = "length (pk_data p) - SPI_PIECE"
  have ne: "pk_data p \<noteq> []" using p(3) by auto
  have m: "min SPI_PIECE (length (pk_data p)) = 256" "min SPI_PIECE ?k = ?k" using p(3,4) by simp_all
  obtain out d1 buf where s: "dxfr (take SPI_PIECE (pk_data p)) (h_usr h) = Some ((256, out), d1)" "ok d1"
    "length out = 256" "length buf = RDBUF" "take 256 buf = out"
    "advance p ?c h = Some (1, ?c\<lparr>c_rdbuf := buf, c_offs := 256\<rparr>, h\<lparr>h_usr := d1\<rparr>)"
    using transfer_step [OF p(1,2), of ?c h] p(3,4) c h m(1) ne by auto
  let ?c1 = "?c\<lparr>c_rdbuf := buf, c_offs := 256\<rparr>" and ?h1 = "h\<lparr>h_usr := d1\<rparr>"
  have off: "unat (c_offs ?c1) = 256" by simp
  have "c_trnidx ?c1 = pk_hflag p" by simp
  then obtain out2 d2 buf2 where t: "dxfr (drop SPI_PIECE (pk_data p)) d1 = Some ((int ?k, out2), d2)" "length out2 = ?k"
    "advance p ?c1 ?h1 = Some (0, ?c1\<lparr>c_rdbuf := buf2, c_offs := 0\<rparr>,
        host_push (spi_reply ?c1 (pk_hflag p) (out @ out2)) (?h1\<lparr>h_usr := d2\<rparr>))"
    using transfer_step [OF p(1,2), of ?c1 ?h1, unfolded off m(2)] p(3,4) c h s by auto
  have "spi_pieces dxfr (drop SPI_PIECE (pk_data p)) d1 = Some (out2, d2)"
    using t(1) p(3,4) by (subst spi_pieces.simps) simp
  then have "spi_pieces dxfr (pk_data p) (h_usr h) = Some (out @ out2, d2)"
    using s(1) p(3) by (subst spi_pieces.simps) auto
  moreover have "spi_reply ?c1 (pk_hflag p) (out @ out2) = spi_reply c (pk_hflag p) (out @ out2)" by (simp add: spi_reply_def)
  ultimately show ?thesis
    using s t c(1) p(3) spi_trnidx [OF p(1) c(1), of "spi_table dcs dxfr" h]
    by (intro exI [of _ "out @ out2"] exI [of _ d1] exI [of _ d2] exI [of _ ?c1]
        exI [of _ "?c1\<lparr>c_rdbuf := buf2, c_offs := 0\<rparr>"]) simp
qed

text \<open>A longer transfer stores past the end of \<open>rdbuf\<close> when its third piece is due.\<close>

lemma transfer_overruns:
  assumes p: "pk_pkt p = PKT_SPI_TX" "wf_packet p" and big: "RDBUF < length (pk_data p)"
    and c: "\<not> c_busy c" "unat (c_offs c) = RDBUF" "length (c_rdbuf c) = RDBUF" and h: "h_oom h = []" "ok (h_usr h)"
  shows "advance p c h = None"
proof -
  let ?c = "c\<lparr>c_trnidx := pk_hflag p\<rparr>"
  define n where "n = min SPI_PIECE (length (pk_data p) - RDBUF)"
  have n: "0 < n" using big by (simp add: n_def)
  have ln: "length (take SPI_PIECE (drop RDBUF (pk_data p))) = n" by (simp add: n_def min.commute)
  have ne: "take SPI_PIECE (drop RDBUF (pk_data p)) \<noteq> []"
    "length (take SPI_PIECE (drop RDBUF (pk_data p))) \<le> SPI_PIECE" using big by simp_all
  obtain out d1 where x: "dxfr (take SPI_PIECE (drop RDBUF (pk_data p))) (h_usr h) = Some ((int n, out), d1)"
    and l: "length out = n"
    using shifts [OF h(2) ne] unfolding ln by blast
  have "write_at RDBUF out (c_rdbuf c) = None" using l n c(3) by (simp add: write_at_def)
  then have "advance p ?c h = None"
    using tx_step [OF p, of ?c h out d1] c h(1) big x l unfolding n_def by (simp add: Let_def)
  then show ?thesis using spi_trnidx [OF p(1) c(1), of "spi_table dcs dxfr" h] by simp
qed

end

end
