(* ===== verification/Gpio.thy ===== *)
theory Gpio
  imports Iface
begin

text \<open>
  The GPIO interface of \<open>coremodel.c\<close>: \<open>coremodel_advance_if_gpio\<close> reports the voltage of
  a pin in millivolts, a signed 16-bit field on the wire; \<open>coremodel_gpio_set\<close> drives one.
\<close>

abbreviation (input) PKT_GPIO_UPDATE :: u8 where "PKT_GPIO_UPDATE \<equiv> 0x00"
abbreviation (input) PKT_GPIO_FORCE :: u8 where "PKT_GPIO_FORCE \<equiv> 0x01"

section \<open>The code\<close>

definition coremodel_advance_if_gpio :: "'d gpio_func \<Rightarrow> packet \<Rightarrow> (int, 'd) step" where
  "coremodel_advance_if_gpio f p c h =
    (if pk_pkt p = PKT_GPIO_UPDATE then
       (case gf_notify f of
          Some notify \<Rightarrow> do { (_, c, h) \<leftarrow> notify (c_priv c) (sint (pk_hflag p)) c h; Some (0, c, h) }
        | None \<Rightarrow> Some (0, c, h))
     else Some (0, c, h))"

definition coremodel_gpio_set :: "core option \<Rightarrow> u32 \<Rightarrow> int \<Rightarrow> 'd host \<Rightarrow> 'd host option" where
  "coremodel_gpio_set pin drven mvolt h =
    (case pin of
       None \<Rightarrow> Some h
     | Some c \<Rightarrow> push_ignoring \<lparr>pk_len = 8, pk_conn = c_conn c, pk_pkt = PKT_GPIO_FORCE,
         pk_bflag = (if drven \<noteq> 0 then 1 else 0), pk_hflag = word_of_int mvolt, pk_data = []\<rparr> None h)"

section \<open>Voltages\<close>

definition gpio_force :: "core \<Rightarrow> bool \<Rightarrow> int \<Rightarrow> packet" where
  "gpio_force c on mvolt = \<lparr>pk_len = 8, pk_conn = c_conn c, pk_pkt = PKT_GPIO_FORCE,
     pk_bflag = (if on then 1 else 0), pk_hflag = word_of_int mvolt, pk_data = []\<rparr>"

lemma wf_gpio_force: "wf_packet (gpio_force c on mvolt)"
  by (simp add: wf_packet_def gpio_force_def)

lemma gpio_set_sends:
  "h_oom h = [] \<Longrightarrow> coremodel_gpio_set (Some c) drven mvolt h = Some (host_push (gpio_force c (drven \<noteq> 0) mvolt) h)"
  using push_ignoring_self [OF wf_gpio_force, of h c "drven \<noteq> 0" mvolt]
  by (simp add: coremodel_gpio_set_def gpio_force_def)

text \<open>A voltage in the range of the field arrives unchanged; one outside it wraps around.\<close>

lemma mvolt_wrap: "sint (word_of_int mvolt :: u16) = (mvolt + 32768) mod 65536 - 32768"
  by (simp add: sint_uint uint_word_of_int signed_take_bit_eq_take_bit_shift take_bit_eq_mod mod_simps)

lemma mvolt_roundtrip: "- 32768 \<le> mvolt \<Longrightarrow> mvolt < 32768 \<Longrightarrow> sint (word_of_int mvolt :: u16) = mvolt"
  by (simp add: mvolt_wrap)

lemma gpio_update_notifies:
  assumes "pk_pkt p = PKT_GPIO_UPDATE" "gf_notify f = Some notify"
    "notify (c_priv c) (sint (pk_hflag p)) c h = Some ((), c', h')"
  shows "coremodel_advance_if_gpio f p c h = Some (0, c', h')"
  using assms by (simp add: coremodel_advance_if_gpio_def)

end
