(* ===== verification/Usbh.thy ===== *)
theory Usbh
  imports Iface
begin

text \<open>
  The USB host interface of \<open>coremodel.c\<close>: \<open>coremodel_advance_if_usbh\<close>. A NAK pauses one
  endpoint and direction, a bit of \<open>ebusy\<close>, and leaves the transfer queued (result -1); a
  reset runs in two rounds, the first of which (result -2) sets \<open>busy\<close> so that the queue is
  gone through again with every queued transfer discarded.
\<close>

abbreviation (input) PKT_USBH_RESET :: u8 where "PKT_USBH_RESET \<equiv> 0x00"
abbreviation (input) PKT_USBH_XFR :: u8 where "PKT_USBH_XFR \<equiv> 0x01"
abbreviation (input) PKT_USBH_DONE :: u8 where "PKT_USBH_DONE \<equiv> 0x02"
abbreviation (input) USB_TKN_OUT :: u8 where "USB_TKN_OUT \<equiv> 0"
abbreviation (input) USB_TKN_IN :: u8 where "USB_TKN_IN \<equiv> 1"
abbreviation (input) USB_TKN_SETUP :: u8 where "USB_TKN_SETUP \<equiv> 2"
abbreviation (input) USB_XFR_NAK :: int where "USB_XFR_NAK \<equiv> - 1"
abbreviation (input) USB_XFR_STALL :: int where "USB_XFR_STALL \<equiv> - 2"

section \<open>The code\<close>

text \<open>\<open>1ul << (ep * 4 + tkn)\<close>; shifting a 64-bit one by 64 or more is undefined.\<close>

definition usbh_bit :: "u8 \<Rightarrow> u8 \<Rightarrow> u64 option" where
  "usbh_bit ep tkn =
     (let n = unat ep * 4 + unat tkn in if n < 64 then Some (push_bit n 1) else None)"

definition usbh_ep :: "packet \<Rightarrow> u8" where "usbh_ep p = ucast (drop_bit 4 (pk_hflag p) AND 15)"
definition usbh_tkn :: "packet \<Rightarrow> u8" where "usbh_tkn p = ucast (pk_hflag p AND 15)"
definition usbh_dev :: "packet \<Rightarrow> u8" where "usbh_dev p = ucast (drop_bit 8 (pk_hflag p) AND 127)"
definition usbh_end :: "packet \<Rightarrow> u8" where "usbh_end p = ucast (drop_bit 15 (pk_hflag p))"

text \<open>The call of the client; \<open>None\<close> as its result is the early return on a short IN packet.\<close>

definition usbh_call :: "'d usbh_func \<Rightarrow> packet \<Rightarrow> (int option, 'd) step" where
  "usbh_call f p c h =
    (case ub_xfr f of
       None \<Rightarrow> Some (Some USB_XFR_NAK, c, h)
     | Some xfr \<Rightarrow>
         if usbh_tkn p = USB_TKN_IN then
           if pk_len p < 10 then Some (None, c, h)
           else do {
             d \<leftarrow> payload_slice p 0 2;
             let size = (of_le d :: u16);
             let size = (if size > of_nat RDBUF then of_nat RDBUF else size);
             ((res, bs), c, h) \<leftarrow> xfr (c_priv c) (usbh_dev p) (usbh_ep p) (usbh_tkn p)
                                     (Inr (ucast size)) (usbh_end p) c h;
             buf \<leftarrow> write_at 0 bs (c_rdbuf c);
             Some (Some res, c\<lparr>c_rdbuf := buf\<rparr>, h) }
         else do {
           d \<leftarrow> payload_slice p 0 (unat (payload_len p));
           ((res, _), c, h) \<leftarrow> xfr (c_priv c) (usbh_dev p) (usbh_ep p) (usbh_tkn p)
                                   (Inl d) (usbh_end p) c h;
           Some (Some res, c, h) })"

definition usbh_done :: "packet \<Rightarrow> int \<Rightarrow> (int, 'd) step" where
  "usbh_done p res c h =
    (let tkn = usbh_tkn p;
         hflag = ucast tkn OR push_bit 4 (ucast (usbh_ep p)) OR push_bit 8 (ucast (usbh_dev p));
         npkt = \<lparr>pk_len = 0, pk_conn = c_conn c, pk_pkt = PKT_USBH_DONE, pk_bflag = pk_bflag p,
                 pk_hflag = hflag, pk_data = []\<rparr> in
     do {
       h \<leftarrow> (if res < 0 then
               push_ignoring (npkt\<lparr>pk_len := (if tkn = USB_TKN_IN then 8 else 10), pk_hflag := hflag OR 0x8000\<rparr>)
                 (Some (le_bytes 2 (0 :: u16))) h
             else if tkn = USB_TKN_IN then
               push_ignoring (npkt\<lparr>pk_len := 8 + word_of_int res\<rparr>) (Some (c_rdbuf c)) h
             else push_ignoring (npkt\<lparr>pk_len := 10\<rparr>) (Some (le_bytes 2 (word_of_int res :: u16))) h);
       Some (0, c, h) })"

definition coremodel_advance_if_usbh :: "'d usbh_func \<Rightarrow> packet \<Rightarrow> (int, 'd) step" where
  "coremodel_advance_if_usbh f p c h =
    (if pk_pkt p = PKT_USBH_RESET then
       if \<not> c_busy c then Some (- 2, c\<lparr>c_busy := True\<rparr>, h)
       else let c = c\<lparr>c_busy := False, c_ebusy := 0\<rparr> in
         (case ub_rst f of
            Some rst \<Rightarrow> do { (_, c, h) \<leftarrow> rst (c_priv c) c h; Some (0, c, h) }
          | None \<Rightarrow> Some (0, c, h))
     else if pk_pkt p = PKT_USBH_XFR then
       if c_busy c then Some (0, c, h)
       else do {
         let tkn = usbh_tkn p;
         b \<leftarrow> usbh_bit (usbh_ep p) tkn;
         let c = (if tkn = USB_TKN_SETUP then c\<lparr>c_ebusy := c_ebusy c AND NOT b\<rparr> else c);
         if c_ebusy c AND b \<noteq> 0 then Some (- 1, c, h)
         else do {
           (res, c, h) \<leftarrow> usbh_call f p c h;
           (case res of
              None \<Rightarrow> Some (0, c, h)
            | Some res \<Rightarrow>
                if tkn = USB_TKN_SETUP then Some (0, c, h)
                else if res = USB_XFR_NAK then Some (- 1, c\<lparr>c_ebusy := c_ebusy c OR b\<rparr>, h)
                else usbh_done p res c h) } }
     else Some (0, c, h))"

section \<open>Endpoints\<close>

definition usbh_tkn_ok :: "packet \<Rightarrow> bool" where
  "usbh_tkn_ok p \<longleftrightarrow> usbh_tkn p < 4"

lemma usbh_ep_less: "unat (usbh_ep p) < 16" and usbh_tkn_less: "unat (usbh_tkn p) < 16"
proof -
  have l: "unat (ucast (w AND 15 :: u16) :: u8) < 16" for w
  proof -
    have "w AND 15 \<le> 15" by (rule word_and_le1)
    then have "unat (w AND 15) \<le> 15" by (simp add: word_le_nat_alt)
    then show ?thesis by (simp add: unsigned_ucast_eq take_bit_eq_mod)
  qed
  show "unat (usbh_ep p) < 16" and "unat (usbh_tkn p) < 16"
    by (simp_all only: usbh_ep_def usbh_tkn_def l)
qed

text \<open>The defined tokens never shift out of range, and distinct endpoints have distinct bits.\<close>

lemma usbh_bit_defined: "usbh_bit (usbh_ep p) (usbh_tkn p) = None \<Longrightarrow> 4 \<le> unat (usbh_tkn p)"
  using usbh_ep_less [of p] usbh_tkn_less [of p] by (simp add: usbh_bit_def Let_def split: if_splits)

lemma usbh_bit_ok: "usbh_tkn_ok p \<Longrightarrow> \<exists>b. usbh_bit (usbh_ep p) (usbh_tkn p) = Some b"
  using usbh_bit_defined [of p]
  by (cases "usbh_bit (usbh_ep p) (usbh_tkn p)") (auto simp: usbh_tkn_ok_def word_less_nat_alt)

lemma bit_push_one: "bit (push_bit n 1 :: u64) m \<longleftrightarrow> n = m \<and> m < 64"
  by (auto simp: bit_simps)

lemma and_push_one: "((e :: u64) AND push_bit n 1 \<noteq> 0) \<longleftrightarrow> n < 64 \<and> bit e n"
proof
  assume "e AND push_bit n 1 \<noteq> 0"
  then obtain m where "bit (e AND push_bit n 1) m" using bit_eqI [of "e AND push_bit n 1" 0] by auto
  then show "n < 64 \<and> bit e n" by (auto simp only: bit_and_iff bit_push_one)
next
  assume "n < 64 \<and> bit e n"
  then have "bit (e AND push_bit n 1) n" by (simp only: bit_and_iff bit_push_one)
  then show "e AND push_bit n 1 \<noteq> 0" by (rule contrapos_pn) (erule ssubst, simp)
qed

text \<open>Which endpoint bit is set after a pause or a release of another.\<close>

lemma usbh_bit_index:
  "usbh_bit ep tkn = Some b \<Longrightarrow> b = push_bit (unat ep * 4 + unat tkn) 1 \<and> unat ep * 4 + unat tkn < 64"
  by (auto simp: usbh_bit_def Let_def split: if_splits)

lemma usbh_index_inj:
  fixes ep ep' tkn tkn' :: u8
  assumes "unat ep * 4 + unat tkn = unat ep' * 4 + unat tkn'" "tkn < 4" "tkn' < 4"
  shows "ep = ep' \<and> tkn = tkn'"
proof -
  have t: "unat tkn < 4" "unat tkn' < 4" using assms by (simp_all add: word_less_nat_alt)
  have "unat ep = unat ep'" "unat tkn = unat tkn'" using assms(1) t by presburger+
  then show ?thesis by (simp add: unsigned_word_eqI)
qed

text \<open>The reply carries the token, endpoint and device of the request.\<close>

lemma usbh_hflag:
  "(ucast (usbh_tkn p) OR push_bit 4 (ucast (usbh_ep p)) OR push_bit 8 (ucast (usbh_dev p)) :: u16)
     = pk_hflag p AND 0x7FFF"
proof (rule bit_word_eqI)
  fix n
  assume n: "n < LENGTH(16)"
  have m: "(15 :: u16) = mask 4" "(127 :: u16) = mask 7" "(0x7FFF :: u16) = mask 15"
    by (simp_all add: mask_eq_exp_minus_1)
  show "bit (ucast (usbh_tkn p) OR push_bit 4 (ucast (usbh_ep p)) OR push_bit 8 (ucast (usbh_dev p)) :: u16) n
      = bit (pk_hflag p AND 0x7FFF) n"
    using n unfolding usbh_tkn_def usbh_ep_def usbh_dev_def m
    by (cases "n < 4"; cases "n < 8") (auto simp: bit_simps)
qed

section \<open>Paused endpoints and reset\<close>

definition usbh_paused :: "core \<Rightarrow> u8 \<Rightarrow> u8 \<Rightarrow> bool" where
  "usbh_paused c ep tkn \<longleftrightarrow> bit (c_ebusy c) (unat ep * 4 + unat tkn)"

lemma usbh_paused_iff:
  "usbh_bit ep tkn = Some b \<Longrightarrow> c_ebusy c AND b \<noteq> 0 \<longleftrightarrow> usbh_paused c ep tkn"
  by (drule usbh_bit_index) (simp only: and_push_one usbh_paused_def simp_thms)

text \<open>A transfer for a paused endpoint stays queued and nothing changes.\<close>

lemma usbh_xfr_paused:
  assumes "pk_pkt p = PKT_USBH_XFR" "\<not> c_busy c" "usbh_tkn_ok p" "usbh_tkn p \<noteq> USB_TKN_SETUP"
    "usbh_paused c (usbh_ep p) (usbh_tkn p)"
  shows "coremodel_advance_if_usbh f p c h = Some (- 1, c, h)"
  using assms usbh_bit_ok [OF assms(3)]
  by (auto simp: coremodel_advance_if_usbh_def Let_def usbh_paused_iff)

text \<open>Pausing an endpoint leaves every other endpoint as it was.\<close>

lemma usbh_pause_frame:
  assumes "usbh_bit ep tkn = Some b" "tkn < 4" "tkn' < 4"
  shows "usbh_paused (c\<lparr>c_ebusy := c_ebusy c OR b\<rparr>) ep' tkn' \<longleftrightarrow>
    (ep = ep' \<and> tkn = tkn') \<or> usbh_paused c ep' tkn'"
proof -
  from usbh_bit_index [OF assms(1)]
  have b: "b = push_bit (unat ep * 4 + unat tkn) 1" "unat ep * 4 + unat tkn < 64" by simp_all
  have "bit (c_ebusy c OR b) (unat ep' * 4 + unat tkn') \<longleftrightarrow>
      bit (c_ebusy c) (unat ep' * 4 + unat tkn') \<or>
      unat ep * 4 + unat tkn = unat ep' * 4 + unat tkn' \<and> unat ep' * 4 + unat tkn' < 64"
    unfolding b(1) by (simp only: bit_or_iff bit_push_one)
  then show ?thesis
    using b(2) usbh_index_inj [OF _ assms(2,3), of ep ep'] by (auto simp: usbh_paused_def)
qed

lemma usbh_release_frame:
  assumes "usbh_bit ep tkn = Some b" "tkn < 4" "tkn' < 4"
  shows "usbh_paused (c\<lparr>c_ebusy := c_ebusy c AND NOT b\<rparr>) ep' tkn' \<longleftrightarrow>
    \<not> (ep = ep' \<and> tkn = tkn') \<and> usbh_paused c ep' tkn'"
proof -
  from usbh_bit_index [OF assms(1)]
  have b: "b = push_bit (unat ep * 4 + unat tkn) 1" "unat ep * 4 + unat tkn < 64" by simp_all
  have "bit (c_ebusy c AND NOT b) m \<longleftrightarrow>
      bit (c_ebusy c) m \<and> \<not> (unat ep * 4 + unat tkn = m)" for m
    using bit_imp_le_length [of "c_ebusy c" m]
    unfolding b(1) by (auto simp only: bit_and_iff bit_not_iff bit_push_one) auto
  then show ?thesis
    using usbh_index_inj [OF _ assms(2,3), of ep ep'] by (auto simp: usbh_paused_def)
qed

text \<open>The two rounds of a reset, and what the queued transfers come to in between.\<close>

lemma usbh_reset_first:
  "pk_pkt p = PKT_USBH_RESET \<Longrightarrow> \<not> c_busy c \<Longrightarrow>
     coremodel_advance_if_usbh f p c h = Some (- 2, c\<lparr>c_busy := True\<rparr>, h)"
  by (simp add: coremodel_advance_if_usbh_def)

lemma usbh_reset_second:
  "pk_pkt p = PKT_USBH_RESET \<Longrightarrow> c_busy c \<Longrightarrow> ub_rst f = None \<Longrightarrow>
     coremodel_advance_if_usbh f p c h = Some (0, c\<lparr>c_busy := False, c_ebusy := 0\<rparr>, h)"
  by (simp add: coremodel_advance_if_usbh_def)

lemma usbh_discard:
  "pk_pkt p \<noteq> PKT_USBH_RESET \<Longrightarrow> c_busy c \<Longrightarrow> coremodel_advance_if_usbh f p c h = Some (0, c, h)"
  by (simp add: coremodel_advance_if_usbh_def)

section \<open>Client contract: a device that answers IN within the buffer\<close>

definition usbh_table ::
  "('d \<Rightarrow> (unit \<times> 'd) option) \<Rightarrow>
   (u8 \<Rightarrow> u8 \<Rightarrow> u8 \<Rightarrow> byte list + u32 \<Rightarrow> u8 \<Rightarrow> 'd \<Rightarrow> ((int \<times> byte list) \<times> 'd) option) \<Rightarrow> 'd usbh_func" where
  "usbh_table rst xfr = \<lparr>ub_rst = Some (\<lambda>_. pure_cb rst),
     ub_xfr = Some (\<lambda>_ dev ep tkn b e. pure_cb (xfr dev ep tkn b e))\<rparr>"

definition usbh_reply :: "core \<Rightarrow> packet \<Rightarrow> bool \<Rightarrow> byte list \<Rightarrow> packet" where
  "usbh_reply c p stall d = \<lparr>pk_len = len16 (8 + length d), pk_conn = c_conn c, pk_pkt = PKT_USBH_DONE,
     pk_bflag = pk_bflag p, pk_hflag = (pk_hflag p AND 0x7FFF) OR (if stall then 0x8000 else 0), pk_data = d\<rparr>"

text \<open>The size an IN transfer asks for, cut to the interface's read buffer.\<close>

definition usbh_in_size :: "packet \<Rightarrow> nat" where
  "usbh_in_size p = min RDBUF (unat (of_le (take 2 (pk_data p)) :: u16))"

locale usb_device =
  fixes drst :: "'d \<Rightarrow> (unit \<times> 'd) option"
    and dxfr :: "u8 \<Rightarrow> u8 \<Rightarrow> u8 \<Rightarrow> byte list + u32 \<Rightarrow> u8 \<Rightarrow> 'd \<Rightarrow> ((int \<times> byte list) \<times> 'd) option"
    and ok :: "'d \<Rightarrow> bool"
    and fits :: "byte list \<Rightarrow> bool"
  assumes resets: "ok d \<Longrightarrow> \<exists>d'. drst d = Some ((), d') \<and> ok d'"
    and setups: "ok d \<Longrightarrow> fits bs \<Longrightarrow>
      \<exists>res out d'. dxfr dev ep USB_TKN_SETUP (Inl bs) e d = Some ((res, out), d') \<and> ok d'"
    and outputs: "ok d \<Longrightarrow> length bs < 65528 \<Longrightarrow>
      \<exists>res out d'. dxfr dev ep USB_TKN_OUT (Inl bs) e d = Some ((res, out), d') \<and> ok d' \<and> res \<le> int (length bs)"
    and inputs: "ok d \<Longrightarrow> unat n \<le> RDBUF \<Longrightarrow>
      \<exists>res bs d'. dxfr dev ep USB_TKN_IN (Inr n) e d = Some ((res, bs), d') \<and> ok d' \<and>
        res \<le> int (unat n) \<and> length bs \<le> unat n"
begin

abbreviation (input) advance :: "packet \<Rightarrow> (int, 'd) step" where
  "advance \<equiv> coremodel_advance_if_usbh (usbh_table drst dxfr)"

text \<open>An IN transfer for an endpoint that is not paused: pause, stall reply or data reply.\<close>

lemma in_reply:
  assumes p: "pk_pkt p = PKT_USBH_XFR" "usbh_tkn p = USB_TKN_IN" "wf_packet p" "2 \<le> length (pk_data p)"
    and c: "\<not> c_busy c" "\<not> usbh_paused c (usbh_ep p) USB_TKN_IN" "length (c_rdbuf c) = RDBUF"
    and h: "h_oom h = []" "ok (h_usr h)"
  shows "\<exists>res bs d' buf b. ok d' \<and> length bs \<le> usbh_in_size p \<and> buf = bs @ drop (length bs) (c_rdbuf c) \<and>
    res \<le> int (usbh_in_size p) \<and> usbh_bit (usbh_ep p) USB_TKN_IN = Some b \<and>
    dxfr (usbh_dev p) (usbh_ep p) USB_TKN_IN (Inr (of_nat (usbh_in_size p))) (usbh_end p) (h_usr h)
      = Some ((res, bs), d') \<and>
    advance p c h =
      (if res = USB_XFR_NAK
       then Some (- 1, c\<lparr>c_rdbuf := buf, c_ebusy := c_ebusy c OR b\<rparr>, h\<lparr>h_usr := d'\<rparr>)
       else Some (0, c\<lparr>c_rdbuf := buf\<rparr>,
         host_push (if res < 0 then usbh_reply c p True [] else usbh_reply c p False (take (nat res) buf))
           (h\<lparr>h_usr := d'\<rparr>)))"
proof -
  let ?n = "usbh_in_size p"
  have tok: "usbh_tkn_ok p" using p by (simp add: usbh_tkn_ok_def)
  obtain b where b: "usbh_bit (usbh_ep p) USB_TKN_IN = Some b" using usbh_bit_ok [OF tok] p by auto
  have e: "c_ebusy c AND b = 0" using usbh_paused_iff [OF b, of c] c by simp
  have n: "?n \<le> RDBUF" by (simp add: usbh_in_size_def)
  have un: "unat (of_nat ?n :: u32) = ?n" using n by (simp add: unat_of_nat_u32)
  let ?w = "of_le (take 2 (pk_data p)) :: u16"
  have sz: "ucast (if ?w > 512 then 512 else ?w) = (of_nat ?n :: u32)"
    by (rule word_eq_of_nat) (auto simp: usbh_in_size_def word_less_nat_alt)
  have "\<not> pk_len p < 10"
    using p by (simp add: word_less_nat_alt wf_packet_def)
  moreover have "payload_slice p 0 2 = Some (take 2 (pk_data p))" using p by (simp add: payload_slice_def)
  moreover obtain res bs d' where x: "dxfr (usbh_dev p) (usbh_ep p) USB_TKN_IN (Inr (of_nat ?n)) (usbh_end p)
      (h_usr h) = Some ((res, bs), d')" and k: "ok d'" and r: "res \<le> int ?n" "length bs \<le> ?n"
    using inputs [OF h(2), of "of_nat ?n"] n unfolding un by blast
  define buf where "buf = bs @ drop (length bs) (c_rdbuf c)"
  have w: "write_at 0 bs (c_rdbuf c) = Some buf"
    using r n c by (simp add: write_at_def buf_def)
  ultimately have call: "usbh_call (usbh_table drst dxfr) p c h = Some (Some res, c\<lparr>c_rdbuf := buf\<rparr>, h\<lparr>h_usr := d'\<rparr>)"
    using p x sz
    by (cases "512 < ?w") (simp_all add: usbh_call_def usbh_table_def pure_cb_def Let_def)
  have lb: "length buf = RDBUF" using w c by (simp add: length_write_at)
  have dn: "usbh_done p res (c\<lparr>c_rdbuf := buf\<rparr>) (h\<lparr>h_usr := d'\<rparr>) = Some (0, c\<lparr>c_rdbuf := buf\<rparr>,
      host_push (if res < 0 then usbh_reply c p True [] else usbh_reply c p False (take (nat res) buf)) (h\<lparr>h_usr := d'\<rparr>))"
  proof (cases "res < 0")
    case True
    then show ?thesis
      using p h unfolding usbh_done_def Let_def usbh_hflag
      by (simp add: push_ignoring_data [where n = 0] usbh_reply_def len16_def)
  next
    case False
    then obtain m where m: "res = int m" "m \<le> RDBUF" using r n by (intro that [of "nat res"]) simp_all
    have "8 + word_of_int res = len16 (8 + m)" by (simp add: len16_def m)
    then show ?thesis
      using p h m lb unfolding usbh_done_def Let_def usbh_hflag
      by (simp add: push_ignoring_data [where n = m] usbh_reply_def unat_len16)
  qed
  have "advance p c h =
      (if res = USB_XFR_NAK
       then Some (- 1, c\<lparr>c_rdbuf := buf, c_ebusy := c_ebusy c OR b\<rparr>, h\<lparr>h_usr := d'\<rparr>)
       else Some (0, c\<lparr>c_rdbuf := buf\<rparr>,
         host_push (if res < 0 then usbh_reply c p True [] else usbh_reply c p False (take (nat res) buf))
           (h\<lparr>h_usr := d'\<rparr>)))"
    unfolding coremodel_advance_if_usbh_def Let_def dn [symmetric] by (simp add: p c(1) b e call)
  with b x k r buf_def show ?thesis by blast
qed

text \<open>A SETUP transfer resumes its endpoint, reaches the device, and has no reply.\<close>

lemma setup_done:
  assumes p: "pk_pkt p = PKT_USBH_XFR" "usbh_tkn p = USB_TKN_SETUP" "wf_packet p" "fits (pk_data p)"
    and c: "\<not> c_busy c" and h: "ok (h_usr h)"
  shows "\<exists>res out d' b. ok d' \<and> usbh_bit (usbh_ep p) USB_TKN_SETUP = Some b \<and>
    dxfr (usbh_dev p) (usbh_ep p) USB_TKN_SETUP (Inl (pk_data p)) (usbh_end p) (h_usr h) = Some ((res, out), d') \<and>
    advance p c h = Some (0, c\<lparr>c_ebusy := c_ebusy c AND NOT b\<rparr>, h\<lparr>h_usr := d'\<rparr>)"
proof -
  obtain b where b: "usbh_bit (usbh_ep p) USB_TKN_SETUP = Some b"
    using usbh_bit_ok [of p] p by (auto simp: usbh_tkn_ok_def)
  obtain res out d' where x: "dxfr (usbh_dev p) (usbh_ep p) USB_TKN_SETUP (Inl (pk_data p)) (usbh_end p) (h_usr h)
      = Some ((res, out), d')" "ok d'"
    using setups [OF h p(4)] by blast
  have s: "payload_slice p 0 (unat (payload_len p)) = Some (pk_data p)"
    using payload_slice_rest [of 0 p] by (simp add: unat_payload_len [OF p(3)])
  have z: "(c_ebusy c AND NOT b) AND b = 0" by (rule bit_word_eqI) (simp add: bit_simps)
  have "advance p c h = Some (0, c\<lparr>c_ebusy := c_ebusy c AND NOT b\<rparr>, h\<lparr>h_usr := d'\<rparr>)"
    using p c x s b z
    by (simp add: coremodel_advance_if_usbh_def usbh_call_def usbh_table_def pure_cb_def Let_def)
  then show ?thesis using b x by blast
qed

text \<open>An OUT transfer for an endpoint that is not paused: pause, or a reply with the number of bytes taken.\<close>

lemma out_reply:
  assumes p: "pk_pkt p = PKT_USBH_XFR" "usbh_tkn p = USB_TKN_OUT" "wf_packet p"
    and c: "\<not> c_busy c" "\<not> usbh_paused c (usbh_ep p) USB_TKN_OUT"
    and h: "h_oom h = []" "ok (h_usr h)"
  shows "\<exists>res out d' b. ok d' \<and> res \<le> int (length (pk_data p)) \<and> usbh_bit (usbh_ep p) USB_TKN_OUT = Some b \<and>
    dxfr (usbh_dev p) (usbh_ep p) USB_TKN_OUT (Inl (pk_data p)) (usbh_end p) (h_usr h) = Some ((res, out), d') \<and>
    advance p c h =
      (if res = USB_XFR_NAK then Some (- 1, c\<lparr>c_ebusy := c_ebusy c OR b\<rparr>, h\<lparr>h_usr := d'\<rparr>)
       else Some (0, c, host_push (if res < 0 then usbh_reply c p True (le_bytes 2 (0 :: u16))
          else usbh_reply c p False (le_bytes 2 (word_of_int res :: u16))) (h\<lparr>h_usr := d'\<rparr>)))"
proof -
  obtain b where b: "usbh_bit (usbh_ep p) USB_TKN_OUT = Some b"
    using usbh_bit_ok [of p] p by (auto simp: usbh_tkn_ok_def)
  have e: "c_ebusy c AND b = 0" using usbh_paused_iff [OF b, of c] c by simp
  obtain res out d' where x: "dxfr (usbh_dev p) (usbh_ep p) USB_TKN_OUT (Inl (pk_data p)) (usbh_end p) (h_usr h)
      = Some ((res, out), d')" "ok d'" "res \<le> int (length (pk_data p))"
    using outputs [OF h(2) wf_packet_data_bound [OF p(3)]] by blast
  have s: "payload_slice p 0 (unat (payload_len p)) = Some (pk_data p)"
    using payload_slice_rest [of 0 p] by (simp add: unat_payload_len [OF p(3)])
  have call: "usbh_call (usbh_table drst dxfr) p c h = Some (Some res, c, h\<lparr>h_usr := d'\<rparr>)"
    using p x s by (simp add: usbh_call_def usbh_table_def pure_cb_def)
  have dn: "usbh_done p res c (h\<lparr>h_usr := d'\<rparr>) = Some (0, c,
      host_push (if res < 0 then usbh_reply c p True (le_bytes 2 (0 :: u16))
        else usbh_reply c p False (le_bytes 2 (word_of_int res :: u16))) (h\<lparr>h_usr := d'\<rparr>))"
    using p h unfolding usbh_done_def Let_def usbh_hflag
    by (simp add: push_ignoring_data [where n = 2] usbh_reply_def len16_def)
  have "advance p c h =
      (if res = USB_XFR_NAK then Some (- 1, c\<lparr>c_ebusy := c_ebusy c OR b\<rparr>, h\<lparr>h_usr := d'\<rparr>)
       else Some (0, c, host_push (if res < 0 then usbh_reply c p True (le_bytes 2 (0 :: u16))
          else usbh_reply c p False (le_bytes 2 (word_of_int res :: u16))) (h\<lparr>h_usr := d'\<rparr>)))"
    unfolding coremodel_advance_if_usbh_def Let_def dn [symmetric] by (simp add: p c(1) b e call)
  with b x show ?thesis by blast
qed

end

end
