(* ===== verification/Can.thy ===== *)
theory Can
  imports Iface
begin

text \<open>
  The CAN interface of \<open>coremodel.c\<close>: \<open>coremodel_advance_if_can\<close> (frames from the bus, and
  acknowledgements of frames sent) and \<open>coremodel_can_rx\<close>, which sends a frame and keeps
  the interface busy until the acknowledgement with its transaction index arrives.
\<close>

abbreviation (input) PKT_CAN_TX :: u8 where "PKT_CAN_TX \<equiv> 0x00"
abbreviation (input) PKT_CAN_TX_ACK :: u8 where "PKT_CAN_TX_ACK \<equiv> 0x01"
abbreviation (input) PKT_CAN_RX :: u8 where "PKT_CAN_RX \<equiv> 0x02"
abbreviation (input) PKT_CAN_RX_ACK :: u8 where "PKT_CAN_RX_ACK \<equiv> 0x03"
abbreviation (input) CAN_ACK :: int where "CAN_ACK \<equiv> 0"
abbreviation (input) CAN_NAK :: int where "CAN_NAK \<equiv> 1"
abbreviation (input) CAN_STALL :: int where "CAN_STALL \<equiv> - 1"
abbreviation (input) CAN_CTRL_DLC_MASK :: u64 where "CAN_CTRL_DLC_MASK \<equiv> 0x7FF"

section \<open>The code\<close>

definition coremodel_can_datalen :: "nat list" where
  "coremodel_can_datalen = [0, 1, 2, 3, 4, 5, 6, 7, 8, 12, 16, 20, 24, 32, 48, 64]"

definition can_dlc :: "u64 \<Rightarrow> nat" where
  "can_dlc ctrl = unat (ctrl AND CAN_CTRL_DLC_MASK)"

definition can_dlen :: "u64 \<Rightarrow> nat" where
  "can_dlen ctrl = (let dlc = can_dlc ctrl in if dlc < 16 then coremodel_can_datalen ! dlc else dlc + 1)"

definition coremodel_advance_if_can :: "'d can_func \<Rightarrow> packet \<Rightarrow> (int, 'd) step" where
  "coremodel_advance_if_can f p c h =
    (if pk_pkt p = PKT_CAN_TX then
       if c_busy c then Some (- 1, c, h)
       else if pk_len p < 16 then Some (0, c, h)
       else do {
         w \<leftarrow> payload_slice p 0 8;
         let dlen = can_dlen (of_le w);
         if unat (pk_len p) < 16 + dlen then Some (0, c, h)
         else do {
           (res, c, h) \<leftarrow> (case cf_tx f of
               Some tx \<Rightarrow> do {
                 w1 \<leftarrow> payload_slice p 8 8;
                 d \<leftarrow> payload_slice p 16 dlen;
                 tx (c_priv c) (of_le w, of_le w1) d c h }
             | None \<Rightarrow> Some (CAN_NAK, c, h));
           if res = CAN_STALL then Some (1, c\<lparr>c_busy := True\<rparr>, h)
           else do {
             h \<leftarrow> push_ignoring \<lparr>pk_len = 8, pk_conn = c_conn c, pk_pkt = PKT_CAN_TX_ACK,
                    pk_bflag = pk_bflag p, pk_hflag = (if res \<noteq> 0 then 1 else 0), pk_data = []\<rparr> None h;
             Some (0, c, h) } } }
     else if pk_pkt p = PKT_CAN_RX_ACK then
       if ucast (pk_bflag p) = c_trnidx c then
         let c = c\<lparr>c_ebusy := 0\<rparr> in
         (case cf_rxcomplete f of
            Some rxcomplete \<Rightarrow> do { (_, c, h) \<leftarrow> rxcomplete (c_priv c) (uint (pk_hflag p)) c h; Some (0, c, h) }
          | None \<Rightarrow> Some (0, c, h))
       else Some (0, c, h)
     else Some (0, c, h))"

definition coremodel_can_rx_busy :: "core \<Rightarrow> int" where
  "coremodel_can_rx_busy c = sint (ucast (c_ebusy c) :: u32)"

text \<open>The frame is built in a local buffer of 16 + 2048 bytes.\<close>

definition coremodel_can_rx ::
  "core option \<Rightarrow> u64 \<times> u64 \<Rightarrow> byte list option \<Rightarrow> 'd host \<Rightarrow> (int \<times> core option \<times> 'd host) option" where
  "coremodel_can_rx can ctrl data h =
    (case can of
       None \<Rightarrow> Some (1, None, h)
     | Some c \<Rightarrow>
         let dlen = can_dlen (fst ctrl) in
         if c_ebusy c \<noteq> 0 \<or> (dlen \<noteq> 0 \<and> data = None) then Some (1, Some c, h)
         else do {
           let c = c\<lparr>c_trnidx := (c_trnidx c + 1) AND 255\<rparr>;
           body \<leftarrow> (case data of
               Some d \<Rightarrow> if dlen \<le> length d \<and> dlen \<le> 2048 then Some (take dlen d) else None
             | None \<Rightarrow> Some []);
           h \<leftarrow> push_ignoring \<lparr>pk_len = of_nat (8 + 16 + dlen), pk_conn = c_conn c, pk_pkt = PKT_CAN_RX,
                  pk_bflag = ucast (c_trnidx c), pk_hflag = 0, pk_data = []\<rparr>
                  (Some (le_bytes 8 (fst ctrl) @ le_bytes 8 (snd ctrl) @ body)) h;
           Some (0, Some (c\<lparr>c_ebusy := 1\<rparr>), h) })"

section \<open>Frame lengths\<close>

lemma can_dlc_less: "can_dlc ctrl < 2048"
proof -
  have "ctrl AND 0x7FF \<le> 0x7FF" by (rule word_and_le1)
  then show ?thesis by (simp add: can_dlc_def word_le_nat_alt)
qed

lemma can_dlen_bound: "can_dlen ctrl \<le> 2048"
proof (cases "can_dlc ctrl < 16")
  case True
  then have "can_dlc ctrl \<in> set [0..<16]" by simp
  then show ?thesis
    using True unfolding can_dlen_def coremodel_can_datalen_def Let_def
    by (auto simp: upt_rec)
next
  case False
  then show ?thesis using can_dlc_less [of ctrl] by (simp add: can_dlen_def Let_def)
qed

section \<open>Frames from the bus\<close>

definition can_ack :: "core \<Rightarrow> packet \<Rightarrow> int \<Rightarrow> packet" where
  "can_ack c p res = \<lparr>pk_len = 8, pk_conn = c_conn c, pk_pkt = PKT_CAN_TX_ACK, pk_bflag = pk_bflag p,
     pk_hflag = (if res \<noteq> 0 then 1 else 0), pk_data = []\<rparr>"

lemma wf_can_ack [simp]: "wf_packet (can_ack c p res)"
  by (simp add: can_ack_def wf_packet_def)

text \<open>A frame that carries both control words and its data: acknowledged, refused or stalled.\<close>

lemma can_tx_frame:
  assumes p: "pk_pkt p = PKT_CAN_TX" "wf_packet p" "pk_data p = le_bytes 8 c0 @ le_bytes 8 c1 @ d"
      "can_dlen c0 \<le> length d"
    and c: "\<not> c_busy c"
    and tx: "cf_tx f = Some tx" "tx (c_priv c) (c0, c1) (take (can_dlen c0) d) c h = Some (res, c', h')"
      "h_oom h' = []"
  shows "coremodel_advance_if_can f p c h =
    (if res = CAN_STALL then Some (1, c'\<lparr>c_busy := True\<rparr>, h')
     else Some (0, c', host_push (can_ack c' p res) h'))"
proof -
  have l: "unat (pk_len p) = 24 + length d" using p(2,3) by (simp add: wf_packet_def)
  then have "\<not> pk_len p < 16" "\<not> unat (pk_len p) < 16 + can_dlen c0"
    using p(4) by (simp_all add: word_less_nat_alt)
  moreover have "payload_slice p 0 8 = Some (le_bytes 8 c0)" "payload_slice p 8 8 = Some (le_bytes 8 c1)"
    "payload_slice p 16 (can_dlen c0) = Some (take (can_dlen c0) d)"
    using p(3,4) by (simp_all add: payload_slice_def)
  moreover have "of_le (le_bytes 8 w) = w" for w :: u64 by (rule of_le_le_bytes_full) simp
  ultimately show ?thesis
    using p(1) c tx push_ignoring_self [OF wf_can_ack, of h' c' p res]
    unfolding coremodel_advance_if_can_def Let_def
    by (simp add: can_ack_def)
qed

text \<open>
  The guard compares the frame's length with the packet's, one control word too short: a
  packet that ends up to eight bytes before the end of the frame's data passes it, and the
  client is handed bytes outside the packet.
\<close>

lemma can_tx_overread:
  assumes p: "pk_pkt p = PKT_CAN_TX" "wf_packet p" "8 \<le> length (pk_data p)"
    and g: "8 + can_dlen (of_le (take 8 (pk_data p))) \<le> length (pk_data p)"
    and short: "length (pk_data p) < 16 + can_dlen (of_le (take 8 (pk_data p)))"
    and c: "\<not> c_busy c" and tx: "cf_tx f = Some tx"
  shows "coremodel_advance_if_can f p c h = None"
proof -
  have l: "unat (pk_len p) = 8 + length (pk_data p)" using p(2) by (simp add: wf_packet_def)
  have "\<not> pk_len p < 16" using l p(3) by (simp add: word_less_nat_alt)
  moreover have "payload_slice p 0 8 = Some (take 8 (pk_data p))" using p(3) by (simp add: payload_slice_def)
  moreover have "payload_slice p 8 8 = None \<or> payload_slice p 16 (can_dlen (of_le (take 8 (pk_data p)))) = None"
    using short by (simp add: payload_slice_def)
  ultimately show ?thesis
    using p(1) c tx l g unfolding coremodel_advance_if_can_def Let_def
    by (auto simp: payload_slice_def)
qed

section \<open>Frames to the bus\<close>

definition can_frame :: "core \<Rightarrow> u64 \<times> u64 \<Rightarrow> byte list \<Rightarrow> packet" where
  "can_frame c ctrl d = \<lparr>pk_len = len16 (24 + length d), pk_conn = c_conn c, pk_pkt = PKT_CAN_RX,
     pk_bflag = ucast (c_trnidx c), pk_hflag = 0,
     pk_data = le_bytes 8 (fst ctrl) @ le_bytes 8 (snd ctrl) @ d\<rparr>"

lemma can_rx_sends:
  assumes "c_ebusy c = 0" "can_dlen (fst ctrl) \<le> length d" "h_oom h = []"
  shows "coremodel_can_rx (Some c) ctrl (Some d) h =
    (let c' = c\<lparr>c_trnidx := (c_trnidx c + 1) AND 255\<rparr> in
     Some (0, Some (c'\<lparr>c_ebusy := 1\<rparr>), host_push (can_frame c' ctrl (take (can_dlen (fst ctrl)) d)) h))"
  using assms can_dlen_bound [of "fst ctrl"] unfolding coremodel_can_rx_def Let_def
  by (simp add: push_ignoring_data [where n = "16 + can_dlen (fst ctrl)"] can_frame_def len16_def
      unat_of_nat_u16 del: of_nat_add)

lemma can_rx_refuses:
  "c_ebusy c \<noteq> 0 \<Longrightarrow> coremodel_can_rx (Some c) ctrl data h = Some (1, Some c, h)"
  by (simp add: coremodel_can_rx_def Let_def)

text \<open>Only the acknowledgement of the last frame sent makes the interface free again.\<close>

lemma can_rx_ack:
  assumes "pk_pkt p = PKT_CAN_RX_ACK"
    and completes: "\<And>g n c1 h1. cf_rxcomplete f = Some g \<Longrightarrow> \<exists>h'. g (c_priv c) n c1 h1 = Some ((), c1, h')"
  shows "\<exists>h'. coremodel_advance_if_can f p c h =
    Some (0, if ucast (pk_bflag p) = c_trnidx c then c\<lparr>c_ebusy := 0\<rparr> else c, h')"
proof (cases "cf_rxcomplete f")
  case None
  then show ?thesis using assms(1) by (simp add: coremodel_advance_if_can_def Let_def)
next
  case (Some g)
  then obtain h' where "g (c_priv c) (uint (pk_hflag p)) (c\<lparr>c_ebusy := 0\<rparr>) h = Some ((), c\<lparr>c_ebusy := 0\<rparr>, h')"
    using completes by blast
  then show ?thesis using assms(1) Some by (simp add: coremodel_advance_if_can_def Let_def)
qed

lemma can_frame_acked:
  "ucast (pk_bflag (can_frame (c\<lparr>c_trnidx := (n + 1) AND 255\<rparr>) ctrl d)) = (n + 1) AND (255 :: u16)"
proof -
  have m: "(255 :: u16) = mask 8" by (simp add: mask_eq_exp_minus_1)
  show ?thesis unfolding can_frame_def m by (simp, rule bit_word_eqI) (auto simp: bit_simps)
qed

lemma ucast_u8_inj: "(ucast (a :: u8) :: u16) = ucast b \<longleftrightarrow> a = b"
proof -
  have "unat (ucast w :: u16) = unat w" for w :: u8
    using unat_u8_less [of w] by (simp add: unsigned_ucast_eq take_bit_eq_mod)
  then show ?thesis by (metis word_unat_eq_iff)
qed

lemma can_busy_simps [simp]: "coremodel_can_rx_busy (c\<lparr>c_ebusy := 0\<rparr>) = 0" "coremodel_can_rx_busy (c\<lparr>c_ebusy := 1\<rparr>) = 1"
  by (simp_all add: coremodel_can_rx_busy_def)

section \<open>Client contract: a node that handles every frame\<close>

locale can_node =
  fixes tx :: "nat \<Rightarrow> u64 \<times> u64 \<Rightarrow> byte list \<Rightarrow> (int, 'd) step"
    and fits :: "u64 \<times> u64 \<Rightarrow> bool"
  assumes handles: "fits ctrl \<Longrightarrow> length bs = can_dlen (fst ctrl) \<Longrightarrow> h_oom h = [] \<Longrightarrow>
      \<exists>res c' h'. tx p ctrl bs c h = Some (res, c', h') \<and> res \<noteq> CAN_STALL \<and> cb_frame c c' \<and> h_oom h' = []"
begin

text \<open>Every frame the node can hold is answered with one acknowledgement, after what the node sent.\<close>

lemma frame_acked:
  assumes "pk_pkt p = PKT_CAN_TX" "wf_packet p" "pk_data p = le_bytes 8 c0 @ le_bytes 8 c1 @ d"
    "can_dlen c0 \<le> length d" "fits (c0, c1)" "\<not> c_busy c" "h_oom h = []" and f: "cf_tx f = Some tx"
  shows "\<exists>res c' h'. tx (c_priv c) (c0, c1) (take (can_dlen c0) d) c h = Some (res, c', h') \<and> cb_frame c c' \<and>
    coremodel_advance_if_can f p c h = Some (0, c', host_push (can_ack c' p res) h')"
proof -
  have "length (take (can_dlen c0) d) = can_dlen (fst (c0, c1))" using assms by simp
  from handles [OF assms(5) this assms(7), of "c_priv c" c] obtain res c' h' where
    x: "tx (c_priv c) (c0, c1) (take (can_dlen c0) d) c h = Some (res, c', h')"
    "res \<noteq> CAN_STALL" "cb_frame c c'" "h_oom h' = []" by blast
  with can_tx_frame [OF assms(1-4,6) f x(1,4)] show ?thesis by auto
qed

end

end
