(* ===== verification/Eth.thy ===== *)
theory Eth
  imports Uart
begin

text \<open>
  The Ethernet interface of \<open>coremodel.c\<close>: \<open>coremodel_advance_if_eth\<close> (frames and credits
  from the virtual machine) and \<open>coremodel_eth_rx\<close> (a frame to it, for one credit).
\<close>

abbreviation (input) PKT_ETH_TX :: u8 where "PKT_ETH_TX \<equiv> 0x00"
abbreviation (input) PKT_ETH_RX :: u8 where "PKT_ETH_RX \<equiv> 0x01"
abbreviation (input) PKT_ETH_RX_ACK :: u8 where "PKT_ETH_RX_ACK \<equiv> 0x02"

section \<open>The code\<close>

definition coremodel_advance_if_eth :: "'d eth_func \<Rightarrow> packet \<Rightarrow> (int, 'd) step" where
  "coremodel_advance_if_eth f p c h =
    (if pk_pkt p = PKT_ETH_TX then
       if c_busy c then Some (1, c, h)
       else do {
         let left = payload_len p - c_offs c;
         d \<leftarrow> payload_slice p (unat (c_offs c)) (unat left);
         (res, c, h) \<leftarrow> (case ef_tx f of
              Some tx \<Rightarrow> tx (c_priv c) d c h
            | None \<Rightarrow> Some (sint left, c, h));
         if res = 0 then Some (0, c\<lparr>c_busy := True\<rparr>, h)
         else let c = c\<lparr>c_offs := c_offs c + word_of_int res\<rparr> in
           if c_offs c < payload_len p then Some (1, c, h)
           else Some (0, c\<lparr>c_offs := 0\<rparr>, h) }
     else if pk_pkt p = PKT_ETH_RX_ACK then
       if c_cred c = 0 then
         let c = c\<lparr>c_cred := c_cred c + ucast (pk_hflag p)\<rparr> in
         (case ef_rxrdy f of
            Some rxrdy \<Rightarrow> do { (_, c, h) \<leftarrow> rxrdy (c_priv c) c h; Some (0, c, h) }
          | None \<Rightarrow> Some (0, c, h))
       else Some (0, c\<lparr>c_cred := c_cred c + ucast (pk_hflag p)\<rparr>, h)
     else Some (0, c, h))"

text \<open>
  The C code reads \<open>cif->conn\<close> before it tests the handle, so a NULL handle is a memory
  error. The length goes into a 16-bit field.
\<close>

definition coremodel_eth_rx ::
  "core option \<Rightarrow> u32 \<Rightarrow> byte list \<Rightarrow> 'd host \<Rightarrow> (int \<times> core option \<times> 'd host) option" where
  "coremodel_eth_rx eth len data h =
    (case eth of
       None \<Rightarrow> None
     | Some c \<Rightarrow>
         let p = \<lparr>pk_len = ucast (8 + len), pk_conn = c_conn c, pk_pkt = PKT_ETH_RX, pk_bflag = 0,
                  pk_hflag = 0, pk_data = []\<rparr> in
         if c_cred c = 0 then Some (0, Some c, h)
         else do {
           (err, h) \<leftarrow> coremodel_push_packet p (Some data) h;
           if err then Some (1, Some c, h)
           else Some (0, Some (c\<lparr>c_cred := c_cred c - 1\<rparr>), h) })"

section \<open>Frames from the virtual machine\<close>

text \<open>On a frame the handler is the UART handler on a data packet, with the same callback.\<close>

lemma eth_tx_is_uart_tx:
  assumes "pk_pkt p = PKT_ETH_TX" "uf_tx g = ef_tx f"
  shows "coremodel_advance_if_eth f p c h = coremodel_advance_if_uart g p c h"
  using assms by (simp add: coremodel_advance_if_eth_def coremodel_advance_if_uart_def)

context tx_client
begin

lemma eth_takes_prefix:
  assumes p: "pk_pkt p = PKT_ETH_TX" "wf_packet p" and f: "ef_tx f = Some tx"
    and c: "\<not> c_busy c" "unat (c_offs c) < length (pk_data p)"
  shows "\<exists>r res c' h'. coremodel_advance_if_eth f p c h = Some (res, c', h') \<and> 0 < r \<and>
    seen h' = seen h @ take r (drop (unat (c_offs c)) (pk_data p)) \<and> \<not> c_busy c' \<and>
    (if unat (c_offs c) + r < length (pk_data p) then res = 1 \<and> unat (c_offs c') = unat (c_offs c) + r
     else res = 0 \<and> c_offs c' = 0 \<and> unat (c_offs c) + r = length (pk_data p))"
  using takes_prefix [of p "\<lparr>uf_tx = ef_tx f, uf_brk = None, uf_rxrdy = None\<rparr>" c h] assms
    eth_tx_is_uart_tx [of p "\<lparr>uf_tx = ef_tx f, uf_brk = None, uf_rxrdy = None\<rparr>" f c h]
  by simp

end

section \<open>Frames to the virtual machine\<close>

definition eth_rx_packet :: "core \<Rightarrow> byte list \<Rightarrow> packet" where
  "eth_rx_packet c d = \<lparr>pk_len = len16 (8 + length d), pk_conn = c_conn c, pk_pkt = PKT_ETH_RX,
     pk_bflag = 0, pk_hflag = 0, pk_data = d\<rparr>"

lemma eth_rx_sends:
  assumes "c_cred c \<noteq> 0" "unat len \<le> 65527" "unat len \<le> length data" "calloc h = (True, h')"
  shows "coremodel_eth_rx (Some c) len data h =
     Some (0, Some (c\<lparr>c_cred := c_cred c - 1\<rparr>), host_push (eth_rx_packet c (take (unat len) data)) h')"
proof -
  let ?p = "\<lparr>pk_len = len16 (8 + unat len), pk_conn = c_conn c, pk_pkt = PKT_ETH_RX, pk_bflag = 0,
               pk_hflag = 0, pk_data = []\<rparr>"
  have l: "unat (pk_len ?p) = 8 + unat len" using assms by (simp add: unat_len16)
  then have b: "push_body ?p (Some data) = Some (header_bytes ?p @ take (unat len) data)"
    using assms by (simp add: push_body_def Let_def)
  have "pushed_packet ?p (Some data) = eth_rx_packet c (take (unat len) data)"
    using l assms by (simp add: pushed_packet_def eth_rx_packet_def min_def)
  then show ?thesis
    using assms push_packet_ok [OF b _ assms(4)] l
    by (simp add: coremodel_eth_rx_def ucast_add_len16 Let_def)
qed

text \<open>Without credit nothing is sent, and the result is the one that means success.\<close>

lemma eth_rx_no_credit: "c_cred c = 0 \<Longrightarrow> coremodel_eth_rx (Some c) len data h = Some (0, Some c, h)"
  by (simp add: coremodel_eth_rx_def Let_def)

end
