(* ===== verification/Event.thy ===== *)
theory Event
  imports Iface
begin

text \<open>
  The event interface of \<open>coremodel.c\<close>: \<open>coremodel_advance_if_event\<close> (updates and responses
  to atomic operations) and the three ways to signal an event.
\<close>

abbreviation (input) PKT_EVENT_UPDATE :: u8 where "PKT_EVENT_UPDATE \<equiv> 0x00"
abbreviation (input) PKT_EVENT_SIGNAL :: u8 where "PKT_EVENT_SIGNAL \<equiv> 0x01"
abbreviation (input) PKT_EVENT_WIRE :: u8 where "PKT_EVENT_WIRE \<equiv> 0x02"
abbreviation (input) EVENT_UPDATE_NORMAL :: u8 where "EVENT_UPDATE_NORMAL \<equiv> 0x00"
abbreviation (input) EVENT_UPDATE_INITIAL :: u8 where "EVENT_UPDATE_INITIAL \<equiv> 0x01"
abbreviation (input) EVENT_UPDATE_ATOMIC :: u8 where "EVENT_UPDATE_ATOMIC \<equiv> 0x02"
abbreviation (input) EVENT_SIGNAL_ATOMIC :: u32 where "EVENT_SIGNAL_ATOMIC \<equiv> 0x80"
abbreviation (input) EVENT_SIGNAL_CHANGE :: u8 where "EVENT_SIGNAL_CHANGE \<equiv> 0x01"

section \<open>The code\<close>

text \<open>The two data words \<open>data[0]\<close> and \<open>data[1]\<close> after the packet's header.\<close>

definition event_data :: "packet \<Rightarrow> (u64 \<times> u64) option" where
  "event_data p = do {
     d0 \<leftarrow> payload_slice p 0 8;
     d1 \<leftarrow> payload_slice p 8 8;
     Some (of_le d0, of_le d1) }"

definition coremodel_advance_if_event :: "'d event_func \<Rightarrow> packet \<Rightarrow> (int, 'd) step" where
  "coremodel_advance_if_event f p c h =
    (if pk_pkt p = PKT_EVENT_UPDATE then
       if pk_bflag p = EVENT_UPDATE_NORMAL \<or> pk_bflag p = EVENT_UPDATE_INITIAL then
         (case vf_update f of
            Some update \<Rightarrow>
              if pk_len p \<ge> 16 then do {
                (d0, d1) \<leftarrow> event_data p;
                (_, c, h) \<leftarrow> update (c_priv c) d0 d1 (pk_bflag p = EVENT_UPDATE_INITIAL) c h;
                Some (0, c, h) }
              else Some (0, c, h)
          | None \<Rightarrow> Some (0, c, h))
       else if pk_bflag p = EVENT_UPDATE_ATOMIC then
         (case vf_atresp f of
            Some atresp \<Rightarrow>
              if pk_len p \<ge> 16 then do {
                (d0, d1) \<leftarrow> event_data p;
                (_, c, h) \<leftarrow> atresp (c_priv c) d0 d1 c h;
                Some (0, c, h) }
              else Some (0, c, h)
          | None \<Rightarrow> Some (0, c, h))
       else Some (0, c, h)
     else Some (0, c, h))"

definition coremodel_event_signal :: "core option \<Rightarrow> u64 \<Rightarrow> u64 \<Rightarrow> u32 \<Rightarrow> 'd host \<Rightarrow> 'd host option" where
  "coremodel_event_signal evt data0 data1 chgonly h =
    (case evt of
       None \<Rightarrow> Some h
     | Some c \<Rightarrow> push_ignoring \<lparr>pk_len = 24, pk_conn = c_conn c, pk_pkt = PKT_EVENT_SIGNAL,
         pk_bflag = (if chgonly \<noteq> 0 then EVENT_SIGNAL_CHANGE else 0), pk_hflag = 0, pk_data = []\<rparr>
         (Some (le_bytes 8 data0 @ le_bytes 8 data1)) h)"

definition coremodel_event_atomic :: "core option \<Rightarrow> u64 \<Rightarrow> u64 \<Rightarrow> u32 \<Rightarrow> 'd host \<Rightarrow> 'd host option" where
  "coremodel_event_atomic evt data0 data1 op h =
    (case evt of
       None \<Rightarrow> Some h
     | Some c \<Rightarrow> push_ignoring \<lparr>pk_len = 24, pk_conn = c_conn c, pk_pkt = PKT_EVENT_SIGNAL,
         pk_bflag = ucast (op OR EVENT_SIGNAL_ATOMIC), pk_hflag = 0, pk_data = []\<rparr>
         (Some (le_bytes 8 data0 @ le_bytes 8 data1)) h)"

definition event_signal_wire :: "core option \<Rightarrow> u32 \<Rightarrow> 'd host \<Rightarrow> 'd host option" where
  "event_signal_wire evt val h =
    (case evt of
       None \<Rightarrow> Some h
     | Some c \<Rightarrow> push_ignoring \<lparr>pk_len = 8, pk_conn = c_conn c, pk_pkt = PKT_EVENT_SIGNAL,
         pk_bflag = 0, pk_hflag = ucast val, pk_data = []\<rparr> None h)"

section \<open>Updates\<close>

lemma event_data_le:
  "pk_data p = le_bytes 8 d0 @ le_bytes 8 d1 @ rest \<Longrightarrow> event_data p = Some (d0, d1)"
  by (simp add: event_data_def payload_slice_def of_le_le_bytes_full)

lemma event_update:
  assumes p: "pk_pkt p = PKT_EVENT_UPDATE" "wf_packet p" "pk_data p = le_bytes 8 d0 @ le_bytes 8 d1 @ rest"
    "pk_bflag p \<in> {EVENT_UPDATE_NORMAL, EVENT_UPDATE_INITIAL}"
    and f: "vf_update f = Some update"
      "update (c_priv c) d0 d1 (pk_bflag p = EVENT_UPDATE_INITIAL) c h = Some ((), c', h')"
  shows "coremodel_advance_if_event f p c h = Some (0, c', h')"
proof -
  have "pk_len p \<ge> 16" using p(2,3) by (simp add: wf_packet_def word_le_nat_alt)
  then show ?thesis
    using p f event_data_le [OF p(3)] by (auto simp: coremodel_advance_if_event_def)
qed

text \<open>The guard admits a packet with one data word; the second is then read outside the packet.\<close>

lemma event_update_overread:
  assumes p: "pk_pkt p = PKT_EVENT_UPDATE" "wf_packet p" "8 \<le> length (pk_data p)" "length (pk_data p) < 16"
    "pk_bflag p \<in> {EVENT_UPDATE_NORMAL, EVENT_UPDATE_INITIAL}" and f: "vf_update f = Some update"
  shows "coremodel_advance_if_event f p c h = None"
proof -
  have "pk_len p \<ge> 16" using p(2,3) by (simp add: wf_packet_def word_le_nat_alt)
  moreover have "event_data p = None"
    using p(3,4) by (simp add: event_data_def payload_slice_def)
  ultimately show ?thesis using p f by (auto simp: coremodel_advance_if_event_def)
qed

section \<open>Signals\<close>

definition event_packet :: "core \<Rightarrow> u8 \<Rightarrow> u64 \<Rightarrow> u64 \<Rightarrow> packet" where
  "event_packet c b d0 d1 = \<lparr>pk_len = 24, pk_conn = c_conn c, pk_pkt = PKT_EVENT_SIGNAL, pk_bflag = b,
     pk_hflag = 0, pk_data = le_bytes 8 d0 @ le_bytes 8 d1\<rparr>"

lemma event_signal_sends:
  "h_oom h = [] \<Longrightarrow> coremodel_event_signal (Some c) d0 d1 chgonly h =
     Some (host_push (event_packet c (if chgonly \<noteq> 0 then EVENT_SIGNAL_CHANGE else 0) d0 d1) h)"
  by (simp add: coremodel_event_signal_def push_ignoring_data [where n = 16] event_packet_def)

lemma event_atomic_sends:
  "h_oom h = [] \<Longrightarrow> coremodel_event_atomic (Some c) d0 d1 op h =
     Some (host_push (event_packet c (ucast (op OR EVENT_SIGNAL_ATOMIC)) d0 d1) h)"
  by (simp add: coremodel_event_atomic_def push_ignoring_data [where n = 16] event_packet_def)

text \<open>The wire signal has the packet type of a data signal, not of \<open>PKT_EVENT_WIRE\<close>, and no data.\<close>

lemma event_wire_sends:
  "h_oom h = [] \<Longrightarrow> event_signal_wire (Some c) val h =
     Some (host_push \<lparr>pk_len = 8, pk_conn = c_conn c, pk_pkt = PKT_EVENT_SIGNAL, pk_bflag = 0,
       pk_hflag = ucast val, pk_data = []\<rparr> h)"
  by (simp add: event_signal_wire_def push_ignoring_self wf_packet_def)

end
