(* ===== verification/Advance.thy ===== *)
theory Advance
  imports Uart I2c Spi Gpio Usbh Can Eth Event "HOL-Library.Sublist" "HOL-Library.Multiset"
begin

text \<open>
  \<open>coremodel_advance_if\<close>: going through an interface's queue of packets, and the functions
  by which a client makes a stalled interface ready again. The C loop walks the linked list
  \<open>rxbufs\<close>; here \<open>advance_loop\<close> has the packets it has passed over (\<open>kept\<close>) and those
  still ahead, and \<open>rxbufs\<close> is their concatenation. A callback steps on the scalar fields and the host only:
  one that calls a ready function, detaches the interface or runs the main loop while the loop is in
  its queue, which the recursive lock of the C code permits, is not modelled (no callback of the examples does).
\<close>

section \<open>The code\<close>

text \<open>The dispatch on \<open>cif->type\<close>; a table of another type in the union is a memory error.\<close>

definition advance_pkt :: "'d func \<Rightarrow> packet \<Rightarrow> (int, 'd) step" where
  "advance_pkt fn p c h =
    (if c_type c = COREMODEL_UART then (case fn of UartF f \<Rightarrow> coremodel_advance_if_uart f p c h | _ \<Rightarrow> None)
     else if c_type c = COREMODEL_I2C then (case fn of I2cF f \<Rightarrow> coremodel_advance_if_i2c f p c h | _ \<Rightarrow> None)
     else if c_type c = COREMODEL_SPI then (case fn of SpiF f \<Rightarrow> coremodel_advance_if_spi f p c h | _ \<Rightarrow> None)
     else if c_type c = COREMODEL_GPIO then (case fn of GpioF f \<Rightarrow> coremodel_advance_if_gpio f p c h | _ \<Rightarrow> None)
     else if c_type c = COREMODEL_USBH then (case fn of UsbhF f \<Rightarrow> coremodel_advance_if_usbh f p c h | _ \<Rightarrow> None)
     else if c_type c = COREMODEL_CAN then (case fn of CanF f \<Rightarrow> coremodel_advance_if_can f p c h | _ \<Rightarrow> None)
     else if c_type c = COREMODEL_ETH then (case fn of EthF f \<Rightarrow> coremodel_advance_if_eth f p c h | _ \<Rightarrow> None)
     else if c_type c = COREMODEL_EVENT then (case fn of EventF f \<Rightarrow> coremodel_advance_if_event f p c h | _ \<Rightarrow> None)
     else Some (0, c, h))"

function advance_loop ::
  "'d func \<Rightarrow> packet list \<Rightarrow> packet list \<Rightarrow> core \<Rightarrow> 'd host \<Rightarrow> (packet list \<times> core \<times> 'd host) option" where
  "advance_loop fn kept [] c h = Some (kept, c, h)"
| "advance_loop fn kept (p # ps) c h =
     (case advance_pkt fn p c h of
        None \<Rightarrow> None
      | Some (res, c', h') \<Rightarrow>
          if res > 0 then Some (kept @ p # ps, c', h')
          else if res = 0 then advance_loop fn [] (kept @ ps) c' h'
          else if res = - 2 then advance_loop fn [] (kept @ p # ps) c' h'
          else advance_loop fn (kept @ [p]) ps c' h')"
  by pat_completeness auto

section \<open>The results of the handlers\<close>

text \<open>
  A handler that asks for a fresh start (-2) has just set \<open>busy\<close>, and one that skips its
  packet (-1) does not clear it: this is why the loop ends.
\<close>

definition advance_result :: "int \<Rightarrow> core \<Rightarrow> core \<Rightarrow> bool" where
  "advance_result res c c' \<longleftrightarrow> res = 0 \<or> res = 1 \<or> (res = - 2 \<and> \<not> c_busy c \<and> c_busy c') \<or>
     (res = - 1 \<and> (c_busy c \<longrightarrow> c_busy c'))"

lemma advance_uart_result: "coremodel_advance_if_uart f p c h = Some (res, c', h') \<Longrightarrow> res \<in> {0, 1}"
  by (auto simp: coremodel_advance_if_uart_def Let_def split: Option.bind_splits option.splits if_splits)

lemma advance_eth_result: "coremodel_advance_if_eth f p c h = Some (res, c', h') \<Longrightarrow> res \<in> {0, 1}"
  by (auto simp: coremodel_advance_if_eth_def Let_def split: Option.bind_splits option.splits if_splits)

lemma advance_i2c_result: "coremodel_advance_if_i2c f p c h = Some (res, c', h') \<Longrightarrow> res \<in> {0, 1}"
  unfolding coremodel_advance_if_i2c_def i2c_start_step_def i2c_write_step_def i2c_read_step_def
  by (auto simp: Let_def split: Option.bind_splits option.splits if_splits)

lemma advance_spi_result: "coremodel_advance_if_spi f p c h = Some (res, c', h') \<Longrightarrow> res \<in> {0, 1}"
  unfolding coremodel_advance_if_spi_def Let_def
  by (auto split: Option.bind_splits option.splits if_splits)

lemma advance_gpio_result: "coremodel_advance_if_gpio f p c h = Some (res, c', h') \<Longrightarrow> res = 0"
  by (auto simp: coremodel_advance_if_gpio_def split: Option.bind_splits option.splits if_splits)

lemma advance_event_result: "coremodel_advance_if_event f p c h = Some (res, c', h') \<Longrightarrow> res = 0"
  by (auto simp: coremodel_advance_if_event_def split: Option.bind_splits option.splits if_splits)

lemma advance_can_result:
  "coremodel_advance_if_can f p c h = Some (res, c', h') \<Longrightarrow> res \<in> {0, 1} \<or> (res = - 1 \<and> c' = c)"
  unfolding coremodel_advance_if_can_def Let_def
  by (auto split: Option.bind_splits option.splits if_splits)

lemma usbh_done_result: "usbh_done p res c h = Some (r, c', h') \<Longrightarrow> r = 0"
  by (auto simp: usbh_done_def Let_def split: Option.bind_splits)

lemma advance_usbh_result:
  "coremodel_advance_if_usbh f p c h = Some (res, c', h') \<Longrightarrow>
     res = 0 \<or> (res = - 2 \<and> c' = c\<lparr>c_busy := True\<rparr> \<and> \<not> c_busy c) \<or> (res = - 1 \<and> \<not> c_busy c)"
  unfolding coremodel_advance_if_usbh_def Let_def
  by (auto split: Option.bind_splits option.splits if_splits dest: usbh_done_result)

lemma advance_pkt_result:
  assumes "advance_pkt fn p c h = Some (res, c', h')"
  shows "advance_result res c c'"
  using assms unfolding advance_pkt_def advance_result_def
  by (auto split: func.splits if_splits dest!: advance_uart_result advance_eth_result advance_i2c_result
      advance_spi_result advance_gpio_result advance_event_result advance_can_result advance_usbh_result)

termination advance_loop
  by (relation "(\<lambda>(fn, kept, ps, c, h). length kept + length ps) <*mlex*>
        (\<lambda>(fn, kept, ps, c, h). if c_busy c then 0 else 1) <*mlex*> measure (\<lambda>(fn, kept, ps, c, h). length ps)")
    (auto simp: mlex_prod_def wf_mlex dest!: advance_pkt_result simp: advance_result_def split: if_splits)

declare advance_loop.simps(2) [simp del]

text \<open>The interface object: nothing is handled while \<open>defer_pkt\<close> is set.\<close>

definition coremodel_advance_if :: "'d coremodel_if \<Rightarrow> 'd host \<Rightarrow> ('d coremodel_if \<times> 'd host) option" where
  "coremodel_advance_if cif h =
    (if if_defer_pkt cif then Some (cif, h)
     else do {
       (ps, c, h) \<leftarrow> advance_loop (if_func cif) [] (if_rxbufs cif) (if_core cif) h;
       Some (cif\<lparr>if_rxbufs := ps, if_core := c\<rparr>, h) })"

definition coremodel_ready_int ::
  "'d coremodel_if option \<Rightarrow> 'd host \<Rightarrow> ('d coremodel_if option \<times> 'd host) option" where
  "coremodel_ready_int handle h =
    (case handle of
       None \<Rightarrow> Some (None, h)
     | Some cif \<Rightarrow> do {
         (cif, h) \<leftarrow> coremodel_advance_if (cif\<lparr>if_core := (if_core cif)\<lparr>c_busy := False\<rparr>\<rparr>) h;
         Some (Some cif, h) })"

text \<open>The public functions read \<open>cif->cm\<close> first, all but the Ethernet one.\<close>

definition coremodel_uart_txrdy ::
  "'d coremodel_if option \<Rightarrow> 'd host \<Rightarrow> ('d coremodel_if option \<times> 'd host) option" where
  "coremodel_uart_txrdy uart h = (if uart = None then None else coremodel_ready_int uart h)"

definition coremodel_i2c_ready ::
  "'d coremodel_if option \<Rightarrow> 'd host \<Rightarrow> ('d coremodel_if option \<times> 'd host) option" where
  "coremodel_i2c_ready i2c h = (if i2c = None then None else coremodel_ready_int i2c h)"

definition coremodel_spi_ready ::
  "'d coremodel_if option \<Rightarrow> 'd host \<Rightarrow> ('d coremodel_if option \<times> 'd host) option" where
  "coremodel_spi_ready spi h = (if spi = None then None else coremodel_ready_int spi h)"

definition coremodel_can_ready ::
  "'d coremodel_if option \<Rightarrow> 'd host \<Rightarrow> ('d coremodel_if option \<times> 'd host) option" where
  "coremodel_can_ready can h = (if can = None then None else coremodel_ready_int can h)"

definition coremodel_eth_ready ::
  "'d coremodel_if option \<Rightarrow> 'd host \<Rightarrow> ('d coremodel_if option \<times> 'd host) option" where
  "coremodel_eth_ready eth h = coremodel_ready_int eth h"

definition coremodel_usbh_ready ::
  "'d coremodel_if option \<Rightarrow> u8 \<Rightarrow> u8 \<Rightarrow> 'd host \<Rightarrow> ('d coremodel_if option \<times> 'd host) option" where
  "coremodel_usbh_ready usb ep tkn h =
    (case usb of
       None \<Rightarrow> None
     | Some cif \<Rightarrow> do {
         b \<leftarrow> usbh_bit ep tkn;
         (cif, h) \<leftarrow> coremodel_advance_if
           (cif\<lparr>if_core := (if_core cif)\<lparr>c_ebusy := c_ebusy (if_core cif) AND NOT b\<rparr>\<rparr>) h;
         Some (Some cif, h) })"

section \<open>Packets keep their order\<close>

text \<open>
  The calls the loop makes of the handler, each with its packet and its result: \<open>handler_calls\<close>
  makes them one after the other, and is \<open>None\<close> when a call fails or has another result.
\<close>

fun handler_calls :: "'d func \<Rightarrow> (packet \<times> int) list \<Rightarrow> core \<times> 'd host \<Rightarrow> (core \<times> 'd host) option" where
  "handler_calls fn [] s = Some s"
| "handler_calls fn (x # tr) s =
     (case advance_pkt fn (fst x) (fst s) (snd s) of
        None \<Rightarrow> None
      | Some (res, c, h) \<Rightarrow> if res = snd x then handler_calls fn tr (c, h) else None)"

text \<open>The packets the handler was done with.\<close>

definition handled :: "(packet \<times> int) list \<Rightarrow> packet list" where
  "handled tr = map fst (filter (\<lambda>x. snd x = 0) tr)"

lemma handled_simps [simp]:
  "handled [] = []" "handled ((p, res) # tr) = (if res = 0 then p # handled tr else handled tr)"
  by (simp_all add: handled_def)

text \<open>
  What is left of a queue is a subsequence of it, the handler was done with exactly the rest, and
  the loop stops only at a packet with which the handler is not done. When no call skips its packet
  the packets are handled first come first served.
\<close>

lemma advance_loop_calls:
  "advance_loop fn kept ps c h = Some (qs, c', h') \<Longrightarrow>
     \<exists>tr. handler_calls fn tr (c, h) = Some (c', h') \<and> mset (kept @ ps) = mset (handled tr) + mset qs \<and>
       subseq qs (kept @ ps) \<and> (kept = [] \<and> (\<forall>x \<in> set tr. 0 \<le> snd x) \<longrightarrow> ps = handled tr @ qs) \<and>
       (ps \<noteq> [] \<longrightarrow> tr \<noteq> []) \<and> (tr \<noteq> [] \<and> qs \<noteq> [] \<longrightarrow> snd (last tr) \<noteq> 0 \<and> fst (last tr) \<in> set qs)"
proof (induction fn kept ps c h rule: advance_loop.induct)
  case (1 fn kept c h)
  then show ?case by (intro exI [of _ "[]"]) simp
next
  case (2 fn kept p ps c h)
  obtain res c1 h1 where a: "advance_pkt fn p c h = Some (res, c1, h1)"
    using 2(4) by (auto simp: advance_loop.simps(2) split: option.splits)
  note IH = 2(1-3) [OF a refl refl]
  consider "res > 0" | "res = 0" | "res = - 2" | "res < 0" "res \<noteq> - 2" by linarith
  then show ?case
  proof cases
    case 1
    then show ?thesis using 2(4) a by (intro exI [of _ "[(p, res)]"]) (auto simp: advance_loop.simps(2))
  next
    case 2
    then obtain tr where tr: "handler_calls fn tr (c1, h1) = Some (c', h')" "mset (kept @ ps) = mset (handled tr) + mset qs"
      "subseq qs (kept @ ps)" "(\<forall>x \<in> set tr. 0 \<le> snd x) \<longrightarrow> kept @ ps = handled tr @ qs"
      "kept @ ps \<noteq> [] \<longrightarrow> tr \<noteq> []" "tr \<noteq> [] \<and> qs \<noteq> [] \<longrightarrow> snd (last tr) \<noteq> 0 \<and> fst (last tr) \<in> set qs"
      using IH(1) \<open>advance_loop fn kept (p # ps) c h = _\<close> a by (auto simp: advance_loop.simps(2))
    have "subseq (kept @ ps) (kept @ p # ps)" by (intro list_emb_append_mono) auto
    then have "subseq qs (kept @ p # ps)" using tr(3) by (rule subseq_order.trans [rotated])
    moreover have "qs \<noteq> [] \<longrightarrow> tr \<noteq> []" using tr(3,5) by auto
    ultimately show ?thesis
      using 2 a tr by (intro exI [of _ "(p, res) # tr"]) auto
  next
    case 3
    then obtain tr where tr: "handler_calls fn tr (c1, h1) = Some (c', h')" "mset (kept @ p # ps) = mset (handled tr) + mset qs"
      "subseq qs (kept @ p # ps)" "tr \<noteq> []" "tr \<noteq> [] \<and> qs \<noteq> [] \<longrightarrow> snd (last tr) \<noteq> 0 \<and> fst (last tr) \<in> set qs"
      using IH(2) 2(4) a by (auto simp: advance_loop.simps(2))
    then show ?thesis using 3 a by (intro exI [of _ "(p, res) # tr"]) auto
  next
    case 4
    then have st: "advance_loop fn (kept @ [p]) ps c1 h1 = Some (qs, c', h')"
      using 2(4) a by (simp add: advance_loop.simps(2))
    obtain tr where tr: "handler_calls fn tr (c1, h1) = Some (c', h')" "mset (kept @ p # ps) = mset (handled tr) + mset qs"
      "subseq qs (kept @ p # ps)" "ps \<noteq> [] \<longrightarrow> tr \<noteq> []"
      "tr \<noteq> [] \<and> qs \<noteq> [] \<longrightarrow> snd (last tr) \<noteq> 0 \<and> fst (last tr) \<in> set qs"
      using IH(3) [OF _ _ _ st] 4 by auto
    moreover have "tr = [] \<longrightarrow> p \<in> set qs" using st tr(4) by (cases ps) auto
    ultimately show ?thesis using 4 a by (intro exI [of _ "(p, res) # tr"]) auto
  qed
qed

text \<open>A handler that never skips: what is left is a tail of the queue, first come first served.\<close>

lemma advance_loop_suffix:
  assumes "\<And>p c h res c' h'. P c \<Longrightarrow> advance_pkt fn p c h = Some (res, c', h') \<Longrightarrow> res \<in> {0, 1} \<and> P c'"
  shows "P c \<Longrightarrow> advance_loop fn [] ps c h = Some (qs, c', h') \<Longrightarrow> suffix qs ps"
proof (induction ps arbitrary: c h)
  case Nil
  then show ?case by simp
next
  case (Cons p ps)
  obtain res c1 h1 where a: "advance_pkt fn p c h = Some (res, c1, h1)"
    using Cons.prems by (auto simp: advance_loop.simps(2) split: option.splits)
  from assms [OF Cons.prems(1) a] have r: "res \<in> {0, 1}" "P c1" by auto
  show ?case
  proof (cases "res = 0")
    case True
    then have "advance_loop fn [] ps c1 h1 = Some (qs, c', h')"
      using Cons.prems(2) a by (simp add: advance_loop.simps(2))
    then show ?thesis using Cons.IH r by (auto intro: suffix_ConsI)
  next
    case False
    then show ?thesis using Cons.prems(2) a r by (simp add: advance_loop.simps(2))
  qed
qed

section \<open>The reset of a USB interface\<close>

lemma advance_loop_discards:
  assumes t: "c_type c = COREMODEL_USBH" and b: "c_busy c"
    and xs: "\<forall>p \<in> set xs. pk_pkt p \<noteq> PKT_USBH_RESET"
  shows "advance_loop (UsbhF f) [] (xs @ ys) c h = advance_loop (UsbhF f) [] ys c h"
  using xs by (induction xs) (simp_all add: advance_loop.simps(2) advance_pkt_def t usbh_discard b)

text \<open>Going past transfers of paused endpoints.\<close>

lemma advance_loop_paused:
  assumes "c_type c = COREMODEL_USBH" "\<not> c_busy c"
    and "\<forall>p \<in> set xs. pk_pkt p = PKT_USBH_XFR \<and> usbh_tkn_ok p \<and> usbh_tkn p \<noteq> USB_TKN_SETUP \<and>
           usbh_paused c (usbh_ep p) (usbh_tkn p)"
  shows "advance_loop (UsbhF f) kept (xs @ ys) c h = advance_loop (UsbhF f) (kept @ xs) ys c h"
  using assms(3) by (induction xs arbitrary: kept)
    (simp_all add: advance_loop.simps(2) advance_pkt_def assms(1,2) usbh_xfr_paused)

text \<open>
  A reset behind transfers that wait for paused endpoints: they are all discarded, every
  endpoint is released, the client's \<open>rst\<close> runs once, and the packets after it are next.
\<close>

lemma usbh_reset_drains:
  assumes t: "c_type c = COREMODEL_USBH" and nb: "\<not> c_busy c"
    and xs: "\<forall>p \<in> set xs. pk_pkt p = PKT_USBH_XFR \<and> usbh_tkn_ok p \<and> usbh_tkn p \<noteq> USB_TKN_SETUP \<and>
           usbh_paused c (usbh_ep p) (usbh_tkn p)"
    and r: "pk_pkt r = PKT_USBH_RESET"
    and f: "ub_rst f = Some rst" "rst (c_priv c) (c\<lparr>c_busy := False, c_ebusy := 0\<rparr>) h = Some ((), c', h')"
  shows "advance_loop (UsbhF f) [] (xs @ r # ys) c h = advance_loop (UsbhF f) [] ys c' h'"
proof -
  let ?b = "c\<lparr>c_busy := True\<rparr>"
  have "advance_loop (UsbhF f) [] (xs @ r # ys) c h = advance_loop (UsbhF f) [] (xs @ r # ys) ?b h"
    using advance_loop_paused [OF t nb xs, of f "[]" "r # ys" h]
    by (simp add: advance_loop.simps(2) [of _ _ r] advance_pkt_def t usbh_reset_first [OF r nb])
  also have "\<dots> = advance_loop (UsbhF f) [] (r # ys) ?b h"
    using xs by (intro advance_loop_discards) (auto simp: t)
  also have "\<dots> = advance_loop (UsbhF f) [] ys c' h'"
    using r f t by (simp add: advance_loop.simps(2) advance_pkt_def coremodel_advance_if_usbh_def)
  finally show ?thesis .
qed

section \<open>Queues with well-behaved clients\<close>

lemma advance_loop_done:
  "advance_pkt fn p c h = Some (0, c', h') \<Longrightarrow>
     advance_loop fn [] (p # ps) c h = advance_loop fn [] ps c' h'"
  by (simp add: advance_loop.simps(2))

lemma advance_loop_stop:
  "advance_pkt fn p c h = Some (1, c', h') \<Longrightarrow> advance_loop fn kept (p # ps) c h = Some (kept @ p # ps, c', h')"
  by (simp add: advance_loop.simps(2))

context tx_sink
begin

text \<open>Every byte of a queue of data packets reaches the client, in order, and the queue is empty.\<close>

lemma queue_sent:
  assumes "uf_tx f = Some tx"
  shows "c_type c = COREMODEL_UART \<Longrightarrow> \<not> c_busy c \<Longrightarrow> c_offs c = 0 \<Longrightarrow>
    \<forall>p \<in> set ps. pk_pkt p = PKT_UART_TX \<and> wf_packet p \<and> pk_data p \<noteq> [] \<Longrightarrow>
    \<exists>c' h'. advance_loop (UartF f) [] ps c h = Some ([], c', h') \<and> cb_frame c c' \<and>
      seen h' = seen h @ concat (map pk_data ps)"
proof (induction ps arbitrary: c h)
  case Nil
  then show ?case by (auto intro!: exI [of _ c] exI [of _ h])
next
  case (Cons p ps)
  then obtain c1 h1 where a: "coremodel_advance_if_uart f p c h = Some (0, c1, h1)"
    "cb_frame c c1" "seen h1 = seen h @ pk_data p"
    using packet_taken [OF _ _ assms, of p c h] by auto
  then have "advance_pkt (UartF f) p c h = Some (0, c1, h1)" using Cons.prems by (simp add: advance_pkt_def)
  note st = advance_loop_done [OF this, of ps]
  obtain c2 h2 where "advance_loop (UartF f) [] ps c1 h1 = Some ([], c2, h2)" "cb_frame c1 c2"
    "seen h2 = seen h1 @ concat (map pk_data ps)"
    using Cons.IH [of c1 h1] Cons.prems a(2) by (auto simp: cb_frame_def)
  then show ?case using st a cb_frame_trans by fastforce
qed

end

context i2c_device
begin

text \<open>A queue of requests is served as the abstract bus serves it, and the interface is idle again.\<close>

lemma requests_done:
  "c_type c = COREMODEL_I2C \<Longrightarrow> idle c h \<Longrightarrow> \<forall>p \<in> set ps. i2c_request p \<Longrightarrow>
    \<exists>rs d' c'. i2c_serves dstart dwrite dread dstop c ps (h_usr h) = Some (rs, d') \<and>
      advance_loop (I2cF (i2c_table dstart dwrite dread dstop)) [] ps c h =
        Some ([], c', host_pushes rs (h\<lparr>h_usr := d'\<rparr>)) \<and>
      idle c' (host_pushes rs (h\<lparr>h_usr := d'\<rparr>))"
proof (induction ps arbitrary: c h)
  case Nil
  then show ?case by (auto intro!: exI [of _ "[]"] exI [of _ "h_usr h"] exI [of _ c])
next
  case (Cons p ps)
  let ?f = "i2c_table dstart dwrite dread dstop"
  obtain rs d1 buf where s: "i2c_serve dstart dwrite dread dstop c p (h_usr h) = Some (rs, d1)"
    and a: "coremodel_advance_if_i2c ?f p c h =
      Some (0, c\<lparr>c_trnidx := pk_hflag p, c_rdbuf := buf\<rparr>, host_pushes rs (h\<lparr>h_usr := d1\<rparr>))"
    and i: "idle (c\<lparr>c_trnidx := pk_hflag p, c_rdbuf := buf\<rparr>) (host_pushes rs (h\<lparr>h_usr := d1\<rparr>))"
    using request_done [OF Cons.prems(2), of p] Cons.prems(3) by auto
  let ?c = "c\<lparr>c_trnidx := pk_hflag p, c_rdbuf := buf\<rparr>"
  have "advance_pkt (I2cF ?f) p c h = Some (0, ?c, host_pushes rs (h\<lparr>h_usr := d1\<rparr>))"
    using a Cons.prems(1) by (simp add: advance_pkt_def)
  note st = advance_loop_done [OF this, of ps]
  have "c_type ?c = COREMODEL_I2C" and all: "\<forall>p \<in> set ps. i2c_request p" using Cons.prems by simp_all
  from Cons.IH [OF this(1) i all] obtain rss d2 c2 where
    r: "i2c_serves dstart dwrite dread dstop ?c ps d1 = Some (rss, d2)"
      "advance_loop (I2cF ?f) [] ps ?c (host_pushes rs (h\<lparr>h_usr := d1\<rparr>)) =
        Some ([], c2, host_pushes rss ((host_pushes rs (h\<lparr>h_usr := d1\<rparr>))\<lparr>h_usr := d2\<rparr>))"
      "idle c2 (host_pushes rss ((host_pushes rs (h\<lparr>h_usr := d1\<rparr>))\<lparr>h_usr := d2\<rparr>))"
    by auto
  have u: "(host_pushes rs (h\<lparr>h_usr := d1\<rparr>))\<lparr>h_usr := d2\<rparr> = host_pushes rs (h\<lparr>h_usr := d2\<rparr>)"
    by (simp add: host_pushes_usr)
  have "i2c_serves dstart dwrite dread dstop c (p # ps) (h_usr h) = Some (rs @ rss, d2)"
    using s r(1) i2c_serves_conn [of ?c c dstart dwrite dread dstop ps d1] by simp
  then show ?case using st r(2,3) u by (intro exI [of _ "rs @ rss"] exI [of _ d2] exI [of _ c2]) simp
qed

end

section \<open>A UART that stalls\<close>

text \<open>
  The client refuses the rest of a packet for now: the packet leaves the queue all the same,
  and \<open>offs\<close> still says how much of it was taken.
\<close>

lemma uart_stall_drops:
  assumes t: "c_type c = COREMODEL_UART" and p: "pk_pkt p = PKT_UART_TX" "wf_packet p" and c: "\<not> c_busy c"
    and o: "unat (c_offs c) < length (pk_data p)"
    and f: "uf_tx f = Some tx" "tx (c_priv c) (drop (unat (c_offs c)) (pk_data p)) c h = Some (0, c, h)"
  shows "advance_loop (UartF f) [] [p] c h = Some ([], c\<lparr>c_busy := True\<rparr>, h)"
proof -
  have "advance_pkt (UartF f) p c h = Some (0, c\<lparr>c_busy := True\<rparr>, h)"
    using uart_tx_stall [OF p c less_imp_le [OF o] f] t by (simp add: advance_pkt_def)
  from advance_loop_done [OF this, of "[]"] show ?thesis by simp
qed

text \<open>A later, shorter packet is then read outside its bounds.\<close>

lemma uart_stale_offs:
  assumes "c_type c = COREMODEL_UART" "pk_pkt p = PKT_UART_TX" "\<not> c_busy c"
    "length (pk_data p) < unat (c_offs c)"
  shows "advance_loop (UartF f) kept (p # ps) c h = None"
  using assms by (simp add: advance_loop.simps(2) advance_pkt_def coremodel_advance_if_uart_def payload_slice_past)

end
