(* ===== verification/Session.thy ===== *)
theory Session
  imports Advance
begin

text \<open>
  The connection object \<open>struct coremodel\<close> without its receive ring (which \<open>Splitter\<close>
  models), and what happens with one packet: \<open>coremodel_process_packet\<close>, the answers to
  list and connection queries, and the deferral of packets for an interface that is still
  being attached.

  Interface objects live in the heap \<open>cm_heap\<close>; the list \<open>ifs\<close> and the pointer \<open>conn_if\<close>
  hold their addresses, and \<open>cm_next\<close> is the address the next allocation gets. Following a
  pointer to a freed object is a memory error (\<open>None\<close>).
  \<open>cm_out\<close> is the socket's side of the connection: every byte written to it so far.
\<close>

section \<open>State\<close>

abbreviation (input) PKT_QUERY_REQ_LIST :: u8 where "PKT_QUERY_REQ_LIST \<equiv> 0x00"
abbreviation (input) PKT_QUERY_RSP_LIST :: u8 where "PKT_QUERY_RSP_LIST \<equiv> 0x01"
abbreviation (input) PKT_QUERY_REQ_CONN :: u8 where "PKT_QUERY_REQ_CONN \<equiv> 0x02"
abbreviation (input) PKT_QUERY_RSP_CONN :: u8 where "PKT_QUERY_RSP_CONN \<equiv> 0x03"
abbreviation (input) PKT_QUERY_REQ_DISC :: u8 where "PKT_QUERY_REQ_DISC \<equiv> 0x04"
abbreviation (input) COREMODEL_INVALID :: int where "COREMODEL_INVALID \<equiv> - 1"

text \<open>An entry of a device list; \<open>dl_name\<close> is the bytes before the terminating zero.\<close>

record device_list_t =
  dl_type :: int
  dl_name :: "byte list option"
  dl_num :: u32

text \<open>The array \<open>device_list\<close>: an element that was never written is \<open>None\<close>.\<close>

type_synonym device_array = "device_list_t option list"

record 'd cm =
  cm_fd :: int
  cm_wake_fd :: int
  cm_host :: "'d host"
  cm_list :: "device_array option"
  cm_list_size :: nat
  cm_list_pkt :: "packet option"
  cm_query :: bool
  cm_defer :: bool
  cm_ifs :: "nat list"
  cm_conn_if :: "nat option"
  cm_heap :: "nat \<Rightarrow> 'd coremodel_if option"
  cm_next :: nat
  cm_out :: "byte list"

section \<open>Device lists\<close>

fun free_entries :: "device_array \<Rightarrow> unit option" where
  "free_entries [] = None"
| "free_entries (None # es) = None"
| "free_entries (Some e # es) = (if dl_type e = COREMODEL_INVALID then Some () else free_entries es)"

definition coremodel_free_list :: "device_array option \<Rightarrow> unit option" where
  "coremodel_free_list list = (case list of None \<Rightarrow> Some () | Some es \<Rightarrow> free_entries es)"

text \<open>\<open>(11 + n) & ~3\<close>, the size of an entry whose name has \<open>n\<close> bytes.\<close>

definition list_step :: "u16 \<Rightarrow> nat" where
  "list_step n = unat (((11 + ucast n) :: u32) AND NOT 3)"

lemma list_step_eq: "list_step n = (unat n + 11) div 4 * 4"
proof -
  have "unat (11 + ucast n :: u32) = unat n + 11"
    using unat_u16_less [of n] by (simp add: unat_word_ariths)
  moreover have "(unat n + 11) div 4 * 4 < 4294967296"
    using unat_u16_less [of n] by auto
  ultimately show ?thesis
    unfolding list_step_def and_not_3 by (simp only: unat_of_nat_u32)
qed

lemma list_step_ge: "8 \<le> list_step n"
  unfolding list_step_eq by presburger

lemma list_step_less: "offs < len \<Longrightarrow> len - (offs + list_step n) < len - offs"
  using list_step_ge [of n] by simp

text \<open>The first pass: how many entries the response has.\<close>

function list_count :: "byte list \<Rightarrow> nat \<Rightarrow> nat \<Rightarrow> nat option" where
  "list_count data len offs =
     (if offs < len then
        (case rd 2 data (offs + 2) of
           None \<Rightarrow> None
         | Some n \<Rightarrow> map_option Suc (list_count data len (offs + list_step n)))
      else Some 0)"
  by pat_completeness auto
termination by (relation "measure (\<lambda>(data, len, offs). len - offs)") (auto simp: list_step_less)

declare list_count.simps [simp del]

text \<open>
  The second pass fills the array. The flag is true when a name could not be allocated; the
  array and the index are those the code has at that point.
\<close>

function list_fill ::
  "byte list \<Rightarrow> nat \<Rightarrow> nat \<Rightarrow> nat \<Rightarrow> device_array \<Rightarrow> 'd host \<Rightarrow> (bool \<times> nat \<times> device_array \<times> 'd host) option" where
  "list_fill data len offs num arr h =
     (if offs < len then
        (case rd 2 data (offs + 2) of
           None \<Rightarrow> None
         | Some n \<Rightarrow> do {
             ty \<leftarrow> rd 2 data offs;
             _ \<leftarrow> (if num < length arr then Some () else None);
             let e = \<lparr>dl_type = uint (ty :: u16), dl_name = None,
                      dl_num = (case arr ! num of Some e \<Rightarrow> dl_num e | None \<Rightarrow> 0)\<rparr>;
             let (ok, h) = calloc h;
             if \<not> ok then Some (True, num, arr[num := Some e], h)
             else do {
               nm \<leftarrow> (if offs + 8 + unat n \<le> length data then Some (take (unat n) (drop (offs + 8) data)) else None);
               k \<leftarrow> rd 4 data (offs + 4);
               list_fill data len (offs + list_step n) (Suc num)
                 (arr[num := Some (e\<lparr>dl_name := Some nm, dl_num := k\<rparr>)]) h } })
      else Some (False, num, arr, h))"
  by pat_completeness auto
termination
  by (relation "measure (\<lambda>(data, len, offs, num, arr, h). len - offs)") (auto simp: list_step_less)

declare list_fill.simps [simp del]

definition list_request :: "u16 \<Rightarrow> packet" where
  "list_request hflag = \<lparr>pk_len = 8, pk_conn = CONN_QUERY, pk_pkt = PKT_QUERY_REQ_LIST, pk_bflag = 0,
     pk_hflag = hflag, pk_data = []\<rparr>"

text \<open>The end of the list so far, and the request for what follows.\<close>

definition list_finish :: "nat \<Rightarrow> device_array \<Rightarrow> 'd cm \<Rightarrow> (bool \<times> 'd cm) option" where
  "list_finish num arr cm = do {
     _ \<leftarrow> (if num < length arr then Some () else None);
     let e = (case arr ! num of Some e \<Rightarrow> e\<lparr>dl_type := COREMODEL_INVALID\<rparr>
              | None \<Rightarrow> \<lparr>dl_type = COREMODEL_INVALID, dl_name = None, dl_num = 0\<rparr>);
     let cm = cm\<lparr>cm_list := Some (arr[num := Some e])\<rparr>;
     (case cm_list_pkt cm of
        Some lp \<Rightarrow> do {
          let lp = lp\<lparr>pk_hflag := of_nat num OR 0x8000\<rparr>;
          (err, h) \<leftarrow> coremodel_push_packet lp None (cm_host cm);
          Some (err, cm\<lparr>cm_list_pkt := Some lp, cm_host := h\<rparr>) }
      | None \<Rightarrow> do {
          (err, h) \<leftarrow> coremodel_push_packet (list_request (of_nat num)) None (cm_host cm);
          Some (err, cm\<lparr>cm_host := h\<rparr>) }) }"

text \<open>\<open>realloc\<close> to \<open>n\<close> elements keeps the old ones as far as they go; the rest is uninitialised.\<close>

definition list_grow :: "nat \<Rightarrow> 'd cm \<Rightarrow> device_array" where
  "list_grow n cm =
    (let prev = (case cm_list cm of None \<Rightarrow> [] | Some es \<Rightarrow> es);
         arr = take n prev @ replicate (n - length prev) None in
     if cm_list_size cm < n
     then take (cm_list_size cm) arr @
          replicate (n - cm_list_size cm) (Some \<lparr>dl_type = 0, dl_name = None, dl_num = 0\<rparr>)
     else arr)"

definition coremodel_process_list_response :: "packet \<Rightarrow> 'd cm \<Rightarrow> (bool \<times> 'd cm) option" where
  "coremodel_process_list_response p cm =
    (if pk_len p = 8 then Some (False, cm\<lparr>cm_query := False\<rparr>)
     else do {
       let len = unat (payload_len p);
       let base = unat (pk_hflag p AND 0x7FFF);
       count \<leftarrow> list_count (pk_data p) len 0;
       let n = base + count + 1;
       let (ok, h) = calloc (cm_host cm);
       if \<not> ok then Some (False, cm\<lparr>cm_host := h, cm_list := None, cm_query := False\<rparr>)
       else do {
         (failed, num, arr, h) \<leftarrow> list_fill (pk_data p) len 0 base (list_grow n cm) h;
         let cm = cm\<lparr>cm_list_size := n, cm_host := h\<rparr>;
         if failed then do {
           _ \<leftarrow> coremodel_free_list (Some arr);
           Some (False, cm\<lparr>cm_list := None, cm_query := False\<rparr>) }
         else list_finish num arr cm } })"

section \<open>Connections\<close>

definition coremodel_process_conn_response :: "packet \<Rightarrow> 'd cm \<Rightarrow> (bool \<times> 'd cm) option" where
  "coremodel_process_conn_response p cm =
    (case cm_conn_if cm of
       None \<Rightarrow> Some (False, cm)
     | Some i \<Rightarrow> do {
         cif \<leftarrow> cm_heap cm i;
         let c = (if_core cif)\<lparr>c_conn := pk_hflag p\<rparr>;
         c \<leftarrow> (if pk_len p \<ge> 12 then do { cred \<leftarrow> rd 4 (pk_data p) 0; Some (c\<lparr>c_cred := cred\<rparr>) } else Some c);
         let cm = cm\<lparr>cm_heap := (cm_heap cm)(i \<mapsto> cif\<lparr>if_core := c\<rparr>)\<rparr>;
         let cm = (if pk_hflag p \<noteq> CONN_QUERY then cm\<lparr>cm_ifs := i # cm_ifs cm\<rparr> else cm);
         Some (False, cm\<lparr>cm_query := False\<rparr>) })"

text \<open>The search through \<open>ifs\<close> for a connection index.\<close>

fun find_if :: "('d coremodel_if) option list \<Rightarrow> u16 \<Rightarrow> nat option option" where
  "find_if [] conn = Some None"
| "find_if (None # cs) conn = None"
| "find_if (Some cif # cs) conn =
     (if c_conn (if_core cif) = conn then Some (Some 0) else map_option (map_option Suc) (find_if cs conn))"

definition lookup_conn :: "'d cm \<Rightarrow> u16 \<Rightarrow> nat option option" where
  "lookup_conn cm conn = map_option (map_option ((!) (cm_ifs cm))) (find_if (map (cm_heap cm) (cm_ifs cm)) conn)"

text \<open>\<open>memcpy(&rxb->pkt, pkt, pkt->len)\<close> into zeroed memory: a packet below the header size is cut.\<close>

definition rxbuf_copy :: "packet \<Rightarrow> packet option" where
  "rxbuf_copy p = decode_packet (take (unat (pk_len p)) (encode_packet p) @ replicate (8 - unat (pk_len p)) 0)"

text \<open>Running an interface of the connection.\<close>

definition advance_at :: "nat \<Rightarrow> 'd cm \<Rightarrow> 'd cm option" where
  "advance_at i cm = do {
     cif \<leftarrow> cm_heap cm i;
     (cif, h) \<leftarrow> coremodel_advance_if cif (cm_host cm);
     Some (cm\<lparr>cm_heap := (cm_heap cm)(i \<mapsto> cif), cm_host := h\<rparr>) }"

definition coremodel_process_packet :: "packet \<Rightarrow> 'd cm \<Rightarrow> (bool \<times> 'd cm) option" where
  "coremodel_process_packet p cm =
    (if pk_conn p = CONN_QUERY then
       if cm_query cm then
         if pk_pkt p = PKT_QUERY_RSP_LIST then coremodel_process_list_response p cm
         else if pk_pkt p = PKT_QUERY_RSP_CONN then coremodel_process_conn_response p cm
         else Some (False, cm)
       else Some (False, cm)
     else do {
       found \<leftarrow> lookup_conn cm (pk_conn p);
       (case found of
          None \<Rightarrow> Some (False, cm)
        | Some i \<Rightarrow> do {
            let (ok, h) = calloc (cm_host cm);
            let cm = cm\<lparr>cm_host := h\<rparr>;
            if \<not> ok then Some (True, cm)
            else do {
              q \<leftarrow> rxbuf_copy p;
              cif \<leftarrow> cm_heap cm i;
              let d = (cm_conn_if cm = Some i);
              let cif = cif\<lparr>if_rxbufs := if_rxbufs cif @ [q], if_defer_pkt := d\<rparr>;
              cm \<leftarrow> advance_at i (cm\<lparr>cm_heap := (cm_heap cm)(i \<mapsto> cif), cm_defer := (cm_defer cm \<or> d)\<rparr>);
              Some (False, cm) } }) })"

text \<open>Flushing the interfaces that had packets deferred, in list order.\<close>

fun defer_flush :: "nat list \<Rightarrow> 'd cm \<Rightarrow> 'd cm option" where
  "defer_flush [] cm = Some cm"
| "defer_flush (i # is) cm = do {
     cif \<leftarrow> cm_heap cm i;
     cm \<leftarrow> (if if_defer_pkt cif
            then advance_at i (cm\<lparr>cm_heap := (cm_heap cm)(i \<mapsto> cif\<lparr>if_defer_pkt := False\<rparr>)\<rparr>)
            else Some cm);
     defer_flush is cm }"

definition coremodel_defer_pkt_flush :: "'d cm \<Rightarrow> 'd cm option" where
  "coremodel_defer_pkt_flush cm = defer_flush (cm_ifs cm) cm"

section \<open>No dangling interface\<close>

text \<open>
  Every interface of the list is live and occurs once; so is the one being attached, which
  is not in the list while its query runs.
\<close>

definition cm_ok :: "'d cm \<Rightarrow> bool" where
  "cm_ok cm \<longleftrightarrow> distinct (cm_ifs cm) \<and> (\<forall>i \<in> set (cm_ifs cm). cm_heap cm i \<noteq> None) \<and>
     (\<forall>i. cm_conn_if cm = Some i \<longrightarrow> cm_heap cm i \<noteq> None \<and> (cm_query cm \<longrightarrow> i \<notin> set (cm_ifs cm))) \<and>
     (\<forall>i. cm_heap cm i \<noteq> None \<longrightarrow> i < cm_next cm)"

definition conn_of :: "'d cm \<Rightarrow> nat \<Rightarrow> u16" where
  "conn_of cm i = (case cm_heap cm i of Some cif \<Rightarrow> c_conn (if_core cif) | None \<Rightarrow> 0)"

lemma find_if_find:
  "\<forall>i \<in> set is. hp i \<noteq> None \<Longrightarrow>
     map_option (map_option ((!) is)) (find_if (map hp is) conn) =
       Some (List.find (\<lambda>i. (case hp i of Some cif \<Rightarrow> c_conn (if_core cif) | None \<Rightarrow> 0) = conn) is)"
proof (induction "is")
  case Nil
  then show ?case by simp
next
  case (Cons i "is")
  then obtain cif where "hp i = Some cif" by auto
  with Cons show ?case
    by (cases "find_if (map hp is) conn") (auto simp: option.map_comp comp_def)
qed

lemma lookup_conn_find:
  "cm_ok cm \<Longrightarrow> lookup_conn cm conn = Some (List.find (\<lambda>i. conn_of cm i = conn) (cm_ifs cm))"
  unfolding lookup_conn_def conn_of_def by (rule find_if_find) (auto simp: cm_ok_def)

lemma rxbuf_copy_wf: "wf_packet p \<Longrightarrow> rxbuf_copy p = Some p"
  using decode_encode [of p "[]"] by (simp add: rxbuf_copy_def wf_packet_def encode_packet_def)

lemma advance_at_frame:
  assumes "advance_at i cm = Some cm'"
  shows "cm_ifs cm' = cm_ifs cm" "cm_conn_if cm' = cm_conn_if cm" "cm_query cm' = cm_query cm"
    "cm_next cm' = cm_next cm" "j \<noteq> i \<Longrightarrow> cm_heap cm' j = cm_heap cm j" "cm_heap cm' i \<noteq> None" "cm_heap cm i \<noteq> None"
  using assms by (auto simp: advance_at_def split: Option.bind_splits)

lemma advance_at_ok: "cm_ok cm \<Longrightarrow> advance_at i cm = Some cm' \<Longrightarrow> cm_ok cm'"
  using advance_at_frame [of i cm cm'] unfolding cm_ok_def by metis

lemma list_finish_frame:
  assumes "list_finish num arr cm = Some (e, cm')"
  shows "cm_ifs cm' = cm_ifs cm \<and> cm_conn_if cm' = cm_conn_if cm \<and> cm_heap cm' = cm_heap cm \<and>
    cm_query cm' = cm_query cm \<and> cm_next cm' = cm_next cm"
  using assms unfolding list_finish_def Let_def
  by (auto simp: bind_eq_Some_conv split: if_splits option.splits)

lemma list_response_frame:
  assumes "coremodel_process_list_response p cm = Some (e, cm')"
  shows "cm_ifs cm' = cm_ifs cm" "cm_conn_if cm' = cm_conn_if cm" "cm_heap cm' = cm_heap cm"
    "cm_query cm' \<longrightarrow> cm_query cm" "cm_next cm' = cm_next cm"
proof -
  obtain b h where c: "calloc (cm_host cm) = (b, h)" by (cases "calloc (cm_host cm)")
  have "cm_ifs cm' = cm_ifs cm \<and> cm_conn_if cm' = cm_conn_if cm \<and> cm_heap cm' = cm_heap cm \<and>
      (cm_query cm' \<longrightarrow> cm_query cm) \<and> cm_next cm' = cm_next cm"
    using assms unfolding coremodel_process_list_response_def Let_def c
    by (auto split: if_split_asm Option.bind_split_asm dest!: list_finish_frame)
  then show "cm_ifs cm' = cm_ifs cm" "cm_conn_if cm' = cm_conn_if cm" "cm_heap cm' = cm_heap cm"
    "cm_query cm' \<longrightarrow> cm_query cm" "cm_next cm' = cm_next cm" by simp_all
qed

lemma conn_response_ok:
  assumes "cm_ok cm" "cm_query cm" "coremodel_process_conn_response p cm = Some (e, cm')"
  shows "cm_ok cm'"
  using assms unfolding coremodel_process_conn_response_def Let_def cm_ok_def
  by (auto split: Option.bind_splits if_splits option.splits)

text \<open>Handling a packet never leaves a dangling pointer behind.\<close>

lemma process_packet_ok:
  assumes ok: "cm_ok cm" and st: "coremodel_process_packet p cm = Some (e, cm')"
  shows "cm_ok cm'"
proof (cases "pk_conn p = CONN_QUERY")
  case True
  have "cm_ok cm'" if "coremodel_process_list_response p cm = Some (e, cm')"
    using ok list_response_frame [OF that] unfolding cm_ok_def by metis
  then show ?thesis
    using True st ok conn_response_ok [OF ok, of p e cm']
    by (auto simp: coremodel_process_packet_def split: if_splits)
next
  case False
  then obtain found where f: "lookup_conn cm (pk_conn p) = Some found"
    using lookup_conn_find [OF ok] by blast
  show ?thesis
  proof (cases found)
    case None
    then show ?thesis using False f st ok by (simp add: coremodel_process_packet_def)
  next
    case (Some i)
    obtain b h where cl: "calloc (cm_host cm) = (b, h)" by (cases "calloc (cm_host cm)")
    show ?thesis
    proof (cases b)
      case False
      then show ?thesis
        using \<open>pk_conn p \<noteq> CONN_QUERY\<close> Some f st ok cl by (auto simp: coremodel_process_packet_def cm_ok_def)
    next
      case True
      with \<open>pk_conn p \<noteq> CONN_QUERY\<close> Some f st cl obtain q cif where c: "cm_heap cm i = Some cif" and
        a: "advance_at i (cm\<lparr>cm_host := h, cm_heap := (cm_heap cm)(i \<mapsto>
              cif\<lparr>if_rxbufs := if_rxbufs cif @ [q], if_defer_pkt := (cm_conn_if cm = Some i)\<rparr>),
              cm_defer := cm_defer cm \<or> cm_conn_if cm = Some i\<rparr>) = Some cm'"
        by (auto simp: coremodel_process_packet_def Let_def split: Option.bind_splits)
      show ?thesis by (rule advance_at_ok [OF _ a]) (use ok c in \<open>auto simp: cm_ok_def\<close>)
    qed
  qed
qed

text \<open>
  While a connection query runs, what it sees of the interface it attaches: once that is
  linked into \<open>ifs\<close> it has a connection index.
\<close>

definition attach_ok :: "'d cm \<Rightarrow> bool" where
  "attach_ok cm \<longleftrightarrow> cm_ok cm \<and>
     (\<forall>i cif. cm_conn_if cm = Some i \<longrightarrow> i \<in> set (cm_ifs cm) \<longrightarrow> cm_heap cm i = Some cif \<longrightarrow>
        c_conn (if_core cif) \<noteq> CONN_QUERY)"

lemma cm_ok_updates [simp]:
  "cm_ok (cm\<lparr>cm_host := h\<rparr>) = cm_ok cm" "cm_ok (cm\<lparr>cm_defer := d\<rparr>) = cm_ok cm"
  "cm_ok (cm\<lparr>cm_out := out\<rparr>) = cm_ok cm" "cm_ok (cm\<lparr>cm_fd := fd\<rparr>) = cm_ok cm"
  "cm_ok (cm\<lparr>cm_list := l\<rparr>) = cm_ok cm" "cm_ok (cm\<lparr>cm_list_size := n\<rparr>) = cm_ok cm"
  "cm_ok (cm\<lparr>cm_list_pkt := p\<rparr>) = cm_ok cm"
  by (simp_all add: cm_ok_def)

lemma attach_ok_updates [simp]:
  "attach_ok (cm\<lparr>cm_host := h\<rparr>) = attach_ok cm" "attach_ok (cm\<lparr>cm_defer := d\<rparr>) = attach_ok cm"
  "attach_ok (cm\<lparr>cm_out := out\<rparr>) = attach_ok cm" "attach_ok (cm\<lparr>cm_fd := fd\<rparr>) = attach_ok cm"
  by (simp_all add: attach_ok_def)

lemma conn_response_attach_ok:
  assumes "attach_ok cm" "cm_query cm" "coremodel_process_conn_response p cm = Some (e, cm')"
  shows "attach_ok cm' \<and> cm_conn_if cm' = cm_conn_if cm"
proof -
  have "cm_ok cm'" using conn_response_ok [OF _ assms(2,3)] assms(1) by (simp add: attach_ok_def)
  with assms show ?thesis
    unfolding coremodel_process_conn_response_def Let_def attach_ok_def cm_ok_def
    by (auto split: Option.bind_split_asm if_split_asm option.split_asm)
qed

lemma process_packet_attach_ok:
  assumes ok: "attach_ok cm" and st: "coremodel_process_packet p cm = Some (e, cm')"
  shows "attach_ok cm' \<and> cm_conn_if cm' = cm_conn_if cm"
proof -
  have cok: "cm_ok cm" using ok by (simp add: attach_ok_def)
  have cok': "cm_ok cm'" by (rule process_packet_ok [OF cok st])
  show ?thesis
  proof (cases "pk_conn p = CONN_QUERY")
    case True
    have "attach_ok cm' \<and> cm_conn_if cm' = cm_conn_if cm" if "coremodel_process_list_response p cm = Some (e, cm')"
      using ok cok' list_response_frame [OF that] by (simp add: attach_ok_def)
    then show ?thesis
      using True st ok conn_response_attach_ok [OF ok, of p e cm']
      by (auto simp: coremodel_process_packet_def split: if_splits)
  next
    case False
    then obtain found where f: "lookup_conn cm (pk_conn p) = Some found"
      using lookup_conn_find [OF cok] by blast
    obtain b h where cl: "calloc (cm_host cm) = (b, h)" by (cases "calloc (cm_host cm)")
    show ?thesis
    proof (cases "found = None \<or> \<not> b")
      case True
      then show ?thesis
        using \<open>pk_conn p \<noteq> CONN_QUERY\<close> f st ok cok' cl
        by (cases found) (auto simp: coremodel_process_packet_def attach_ok_def)
    next
      case False
      then obtain i where i: "found = Some i" and b by auto
      with \<open>pk_conn p \<noteq> CONN_QUERY\<close> f st cl obtain q cif where c: "cm_heap cm i = Some cif" and
        a: "advance_at i (cm\<lparr>cm_host := h, cm_heap := (cm_heap cm)(i \<mapsto>
              cif\<lparr>if_rxbufs := if_rxbufs cif @ [q], if_defer_pkt := (cm_conn_if cm = Some i)\<rparr>),
              cm_defer := cm_defer cm \<or> cm_conn_if cm = Some i\<rparr>) = Some cm'"
        by (auto simp: coremodel_process_packet_def Let_def split: Option.bind_splits)
      show ?thesis
      proof (cases "cm_conn_if cm = Some i")
        case True
        then show ?thesis
          using a c ok cok' by (auto simp: advance_at_def coremodel_advance_if_def attach_ok_def)
      next
        case False
        then show ?thesis
          using advance_at_frame [OF a] ok cok' by (auto simp: attach_ok_def)
      qed
    qed
  qed
qed

section \<open>Delivery to the interface a packet names\<close>

text \<open>A packet for a connection nobody has is ignored.\<close>

lemma process_packet_unknown:
  assumes "cm_ok cm" "pk_conn p \<noteq> CONN_QUERY" "\<forall>i \<in> set (cm_ifs cm). conn_of cm i \<noteq> pk_conn p"
  shows "coremodel_process_packet p cm = Some (False, cm)"
proof -
  have "List.find (\<lambda>i. conn_of cm i = pk_conn p) (cm_ifs cm) = None"
    using assms(3) by (auto simp: find_None_iff)
  then show ?thesis
    using assms(2) by (simp add: coremodel_process_packet_def lookup_conn_find [OF assms(1)])
qed

text \<open>Delivery: the packet goes to the tail of its interface's queue, which then runs.\<close>

lemma process_packet_delivers:
  assumes ok: "cm_ok cm" and p: "pk_conn p \<noteq> CONN_QUERY" "wf_packet p"
    and i: "i \<in> set (cm_ifs cm)" "conn_of cm i = pk_conn p"
      "\<forall>j \<in> set (cm_ifs cm). conn_of cm j = pk_conn p \<longrightarrow> j = i"
    and mem: "h_oom (cm_host cm) = []" and c: "cm_heap cm i = Some cif"
  shows "coremodel_process_packet p cm = do {
      cm \<leftarrow> advance_at i (cm\<lparr>cm_heap := (cm_heap cm)(i \<mapsto> cif\<lparr>if_rxbufs := if_rxbufs cif @ [p],
               if_defer_pkt := (cm_conn_if cm = Some i)\<rparr>), cm_defer := (cm_defer cm \<or> cm_conn_if cm = Some i)\<rparr>);
      Some (False, cm) }"
proof -
  have "List.find (\<lambda>i. conn_of cm i = pk_conn p) (cm_ifs cm) = Some i"
    using i by (rule find_unique)
  then have "lookup_conn cm (pk_conn p) = Some (Some i)" by (simp add: lookup_conn_find [OF ok])
  then show ?thesis
    using p c mem by (simp add: coremodel_process_packet_def rxbuf_copy_wf Let_def)
qed

text \<open>While the interface is being attached its packets are queued, and nothing runs.\<close>

lemma process_packet_defers:
  assumes "cm_ok cm" "pk_conn p \<noteq> CONN_QUERY" "wf_packet p"
    "i \<in> set (cm_ifs cm)" "conn_of cm i = pk_conn p"
    "\<forall>j \<in> set (cm_ifs cm). conn_of cm j = pk_conn p \<longrightarrow> j = i"
    "h_oom (cm_host cm) = []" "cm_heap cm i = Some cif" and d: "cm_conn_if cm = Some i"
  shows "coremodel_process_packet p cm = Some (False, cm\<lparr>cm_heap := (cm_heap cm)(i \<mapsto>
      cif\<lparr>if_rxbufs := if_rxbufs cif @ [p], if_defer_pkt := True\<rparr>), cm_defer := True\<rparr>)"
  unfolding process_packet_delivers [OF assms(1-8)]
  by (simp add: d advance_at_def coremodel_advance_if_def)

lemma deliver_defers:
  assumes "cm_ok cm" "i \<in> set (cm_ifs cm)" "\<forall>j \<in> set (cm_ifs cm). conn_of cm j = conn_of cm i \<longrightarrow> j = i"
    "conn_of cm i \<noteq> CONN_QUERY" "h_oom (cm_host cm) = []" "cm_conn_if cm = Some i"
    "cm_heap cm i = Some cif" "if_defer_pkt cif"
    "\<forall>p \<in> set ps. pk_conn p = conn_of cm i \<and> wf_packet p \<and> wire_size p \<le> MAX_PKT"
  shows "deliver coremodel_process_packet ps cm = Some ([], cm\<lparr>cm_heap := (cm_heap cm)(i \<mapsto>
      cif\<lparr>if_rxbufs := if_rxbufs cif @ ps\<rparr>), cm_defer := (cm_defer cm \<or> ps \<noteq> [])\<rparr>)"
  using assms
proof (induction ps arbitrary: cm cif)
  case Nil
  then show ?case by (simp add: fun_upd_idem)
next
  case (Cons p ps)
  let ?cif = "cif\<lparr>if_rxbufs := if_rxbufs cif @ [p]\<rparr>"
  let ?cm = "cm\<lparr>cm_heap := (cm_heap cm)(i \<mapsto> ?cif), cm_defer := True\<rparr>"
  have p: "pk_conn p = conn_of cm i" "wf_packet p" "wire_size p \<le> MAX_PKT" using Cons.prems(9) by simp_all
  have "cif\<lparr>if_rxbufs := if_rxbufs cif @ [p], if_defer_pkt := True\<rparr> = ?cif" using Cons.prems(8) by simp
  then have st: "coremodel_process_packet p cm = Some (False, ?cm)"
    using process_packet_defers [OF Cons.prems(1) _ p(2) Cons.prems(2) p(1) [symmetric] _ Cons.prems(5,7,6)]
      Cons.prems(3,4) p(1) by simp
  have co: "conn_of ?cm j = conn_of cm j" for j using Cons.prems(7) by (simp add: conn_of_def)
  have "cm_ok ?cm" by (rule process_packet_ok [OF Cons.prems(1) st])
  then have "deliver coremodel_process_packet ps ?cm = Some ([], ?cm\<lparr>cm_heap := (cm_heap ?cm)(i \<mapsto>
      ?cif\<lparr>if_rxbufs := if_rxbufs ?cif @ ps\<rparr>), cm_defer := (cm_defer ?cm \<or> ps \<noteq> [])\<rparr>)"
    using Cons.prems co by (intro Cons.IH) simp_all
  then show ?case using st p(3) by (simp add: fun_upd_def cong: if_cong)
qed

end
