(* ===== verification/Fds.thy ===== *)
theory Fds
  imports Session
begin

text \<open>
  The socket side of a connection: \<open>coremodel_preparefds\<close>, \<open>coremodel_processfds\<close> and the
  main loop. The operating system is a script: what each \<open>read\<close> and \<open>write\<close> of the socket
  returns, and for each round of the main loop which descriptors \<open>select\<close> reports and what
  the clock says. A \<open>read\<close> takes from the segment at the head of its script no more than
  it has room for; a script that is exhausted answers \<open>EAGAIN\<close>.
\<close>

section \<open>The operating system\<close>

datatype rd_event = RData "byte list" | RIntr | RAgain | RErr int
datatype wr_event = WData nat | WIntr | WAgain | WErr int

abbreviation (input) ENOTCONN :: int where "ENOTCONN \<equiv> 107"
abbreviation (input) ECONNRESET :: int where "ECONNRESET \<equiv> 104"

text \<open>
  What \<open>select\<close> may report: readable wake-up pipe, readable socket, writable socket.
\<close>

record fds =
  fd_wake :: bool
  fd_read :: bool
  fd_write :: bool

record round =
  r_fds :: fds
  r_reads :: "rd_event list"
  r_writes :: "wr_event list"
  r_now :: int

section \<open>The code\<close>

definition coremodel_preparefds :: "int \<Rightarrow> ring \<times> 'd cm \<Rightarrow> (int \<times> fds \<times> ring \<times> 'd cm) option" where
  "coremodel_preparefds nfds s =
    (case s of (r, cm) \<Rightarrow>
       if cm_fd cm < 0 then Some (nfds, \<lparr>fd_wake = False, fd_read = False, fd_write = False\<rparr>, r, cm)
       else do {
         let nfds = max nfds (cm_wake_fd cm + 1);
         let cm = cm\<lparr>cm_host := (cm_host cm)\<lparr>h_need_wake := True\<rparr>\<rparr>;
         let rd = (unat (ring_used r) < RX_BUF);
         let nfds = (if rd then max nfds (cm_fd cm + 1) else nfds);
         let wr = (h_txbufs (cm_host cm) \<noteq> []);
         let nfds = (if wr then max nfds (cm_fd cm + 1) else nfds);
         let cm = cm\<lparr>cm_host := (cm_host cm)\<lparr>h_txflag := False\<rparr>\<rparr>;
         cm \<leftarrow> (if cm_defer cm then do {
                  cm \<leftarrow> coremodel_defer_pkt_flush cm;
                  Some (cm\<lparr>cm_defer := False\<rparr>) }
                else Some cm);
         Some (nfds, \<lparr>fd_wake = True, fd_read = rd, fd_write = wr\<rparr>, r, cm) })"

text \<open>The read loop: the error for which the socket is closed, if any, and the ring.\<close>

function read_loop :: "rd_event list \<Rightarrow> ring \<Rightarrow> (int option \<times> ring) option" where
  "read_loop evs r =
    (if ring_step r = 0 then Some (None, r)
     else case evs of
       [] \<Rightarrow> Some (None, r)
     | RData bs # evs' \<Rightarrow>
         if bs = [] then Some (Some ECONNRESET, r)
         else (case ring_store (take (ring_step r) bs) r of
                 None \<Rightarrow> None
               | Some r' \<Rightarrow>
                   read_loop (if length bs \<le> ring_step r then evs' else RData (drop (ring_step r) bs) # evs') r')
     | RIntr # evs' \<Rightarrow> read_loop evs' r
     | RAgain # evs' \<Rightarrow> Some (None, r)
     | RErr e # evs' \<Rightarrow> Some (Some e, r))"
  by pat_completeness auto

fun rd_weight :: "rd_event \<Rightarrow> nat" where
  "rd_weight (RData bs) = Suc (length bs)"
| "rd_weight RIntr = 1" | "rd_weight RAgain = 1" | "rd_weight (RErr e) = 1"

termination read_loop
  by (relation "measure (\<lambda>(evs, r). sum_list (map rd_weight evs))") auto

declare read_loop.simps [simp del]

text \<open>The write loop: what was written, what is left, and the error that closed the socket.\<close>

fun write_loop :: "wr_event list \<Rightarrow> txbuf list \<Rightarrow> (int option \<times> byte list \<times> txbuf list)" where
  "write_loop evs [] = (None, [], [])"
| "write_loop [] (t # ts) = (None, [], t # ts)"
| "write_loop (WIntr # evs) (t # ts) = write_loop evs (t # ts)"
| "write_loop (WAgain # evs) (t # ts) = (None, [], t # ts)"
| "write_loop (WErr e # evs) (t # ts) = (Some e, [], t # ts)"
| "write_loop (WData n # evs) (t # ts) =
     (let step = tb_size t - tb_rptr t; offs = unat (tb_rptr t); res = min n (unat step) in
      if res = 0 then (Some ECONNRESET, [], t # ts)
      else let t' = t\<lparr>tb_rptr := tb_rptr t + of_nat res\<rparr>;
               (e, out, ts') = write_loop evs (if tb_rptr t' \<ge> tb_size t' then ts else t' # ts) in
           (e, take res (drop offs (tb_buf t)) @ out, ts'))"

definition close_fd :: "'d cm \<Rightarrow> 'd cm" where
  "close_fd cm = cm\<lparr>cm_fd := - 1\<rparr>"

definition coremodel_processfds ::
  "fds \<Rightarrow> rd_event list \<Rightarrow> wr_event list \<Rightarrow> ring \<times> 'd cm \<Rightarrow> (int \<times> ring \<times> 'd cm) option" where
  "coremodel_processfds f reads writes s =
    (case s of (r, cm) \<Rightarrow>
       let cm = cm\<lparr>cm_host := (cm_host cm)\<lparr>h_need_wake := False\<rparr>\<rparr> in
       if cm_fd cm < 0 then Some (- ENOTCONN, r, cm)
       else let cm = (if fd_wake f then cm\<lparr>cm_host := (cm_host cm)\<lparr>h_wake := 0\<rparr>\<rparr> else cm) in do {
         (e, r) \<leftarrow> (if fd_read f then read_loop reads r else Some (None, r));
         (case e of
            Some e \<Rightarrow> Some (- e, r, close_fd cm)
          | None \<Rightarrow> do {
              (r, cm) \<leftarrow> coremodel_process_rxq coremodel_process_packet (r, cm);
              let h = cm_host cm;
              if fd_write f \<or> (h_txbufs h \<noteq> [] \<and> \<not> h_txflag h) then
                let (e, out, ts) = write_loop writes (h_txbufs h);
                    cm = cm\<lparr>cm_host := h\<lparr>h_txbufs := ts\<rparr>, cm_out := cm_out cm @ out\<rparr> in
                (case e of
                   Some e \<Rightarrow> Some (- e, r, close_fd cm)
                 | None \<Rightarrow> Some (0, r, cm))
              else Some (0, r, cm) }) })"

text \<open>
  The main loop over a script of rounds; \<open>Inl s\<close> is a loop that still waits in \<open>select\<close>
  when the script ends, \<open>Inr (res, s)\<close> one that returned.
\<close>

fun coremodel_mainloop_int ::
  "int \<Rightarrow> int \<Rightarrow> int \<Rightarrow> bool \<Rightarrow> round list \<Rightarrow> ring \<times> 'd cm \<Rightarrow> ((ring \<times> 'd cm) + int \<times> ring \<times> 'd cm) option" where
  "coremodel_mainloop_int now end_us usec query rs (r, cm) =
    (if (usec < 0 \<or> now \<le> end_us) \<and> (\<not> query \<or> cm_query cm) then do {
       (nfds, f, s) \<leftarrow> coremodel_preparefds 0 (r, cm);
       (case rs of
          [] \<Rightarrow> Some (Inl s)
        | x # rs' \<Rightarrow> do {
            (res, s) \<leftarrow> coremodel_processfds
              \<lparr>fd_wake = fd_wake f \<and> fd_wake (r_fds x), fd_read = fd_read f \<and> fd_read (r_fds x),
               fd_write = fd_write f \<and> fd_write (r_fds x)\<rparr> (r_reads x) (r_writes x) s;
            if res \<noteq> 0 then Some (Inr (res, s))
            else coremodel_mainloop_int (r_now x) end_us usec query rs' s }) }
     else Some (Inr (0, r, cm)))"

definition coremodel_mainloop ::
  "int \<Rightarrow> int \<Rightarrow> round list \<Rightarrow> ring \<times> 'd cm \<Rightarrow> ((ring \<times> 'd cm) + int \<times> ring \<times> 'd cm) option" where
  "coremodel_mainloop now usec rs s = coremodel_mainloop_int now (now + usec) usec False rs s"

section \<open>Reading\<close>

text \<open>The bytes a script of reads has before it blocks, fails or ends.\<close>

fun rd_bytes :: "rd_event list \<Rightarrow> byte list" where
  "rd_bytes [] = []"
| "rd_bytes (RData bs # evs) = (if bs = [] then [] else bs @ rd_bytes evs)"
| "rd_bytes (RIntr # evs) = rd_bytes evs"
| "rd_bytes (RAgain # evs) = []"
| "rd_bytes (RErr e # evs) = []"

lemma ring_free: "ring_ok r \<Longrightarrow> length (ring_bytes r) \<le> RX_BUF"
  by (simp add: ring_ok_def)

text \<open>The read loop takes what fits the ring, in order, and nothing else changes.\<close>

lemma read_loop_takes:
  "ring_ok r \<Longrightarrow> \<exists>e r'. read_loop evs r = Some (e, r') \<and> ring_ok r' \<and>
     ring_bytes r' = ring_bytes r @ take (RX_BUF - length (ring_bytes r)) (rd_bytes evs)"
proof (induction evs r rule: read_loop.induct)
  case (1 evs r)
  show ?case
  proof (cases "ring_step r = 0")
    case True
    then have "length (ring_bytes r) = RX_BUF" using rq.room_full 1(3) by blast
    with True 1(3) show ?thesis by (subst read_loop.simps) simp
  next
    case ns: False
    show ?thesis
    proof (cases "rd_bytes evs = [] \<and> \<not> (\<exists>evs'. evs = RIntr # evs')")
      case True
      with ns 1(3) show ?thesis
        by (cases evs rule: rd_bytes.cases) (auto simp: read_loop.simps split: if_splits)
    next
      case nil: False
      show ?thesis
      proof (cases evs rule: rd_bytes.cases)
        case (3 evs')
        then show ?thesis using 1(2) [OF ns] 1(3) ns by (subst read_loop.simps) simp
      next
        case (2 bs evs')
        with nil have bs: "bs \<noteq> []" by (auto split: if_splits)
        define n where "n = ring_step r"
        obtain r1 where r1: "ring_store (take n bs) r = Some r1" "ring_ok r1" "ring_bytes r1 = ring_bytes r @ take n bs"
          using rq.store [OF 1(3), of "take n bs"] by (auto simp: n_def)
        let ?evs = "if length bs \<le> n then evs' else RData (drop n bs) # evs'"
        have left: "take n bs @ rd_bytes ?evs = rd_bytes evs" using bs 2 by simp
        have "read_loop evs r = read_loop ?evs r1"
          using ns bs 2 r1(1) by (subst read_loop.simps) (simp add: n_def)
        moreover obtain e r2 where l: "read_loop ?evs r1 = Some (e, r2)" "ring_ok r2"
          "ring_bytes r2 = ring_bytes r1 @ take (RX_BUF - length (ring_bytes r1)) (rd_bytes ?evs)"
          using 1(1) [OF ns 2 refl bs] r1 unfolding n_def by blast
        have "length (take n bs) \<le> RX_BUF - length (ring_bytes r)"
          using ring_free [OF r1(2)] r1(3) by simp
        then have t: "take (RX_BUF - length (ring_bytes r)) (take n bs @ rd_bytes ?evs) =
            take n bs @ take (RX_BUF - length (ring_bytes r1)) (rd_bytes ?evs)"
          unfolding r1(3) length_append diff_diff_left [symmetric] by (subst take_append) (simp only: take_all)
        have "ring_bytes r2 = ring_bytes r @ take (RX_BUF - length (ring_bytes r)) (rd_bytes evs)"
          unfolding l(3) left [symmetric] t by (simp only: r1(3) append_assoc)
        ultimately show ?thesis using l(1,2) by (simp only:) blast
      qed (use nil in auto)
    qed
  qed
qed

lemma read_loop_data:
  "\<forall>ev \<in> set evs. \<exists>bs. ev = RData bs \<and> bs \<noteq> [] \<Longrightarrow> read_loop evs r = Some (e, r') \<Longrightarrow> e = None"
proof (induction evs r rule: read_loop.induct)
  case (1 evs r)
  show ?case
  proof (cases "ring_step r = 0 \<or> evs = []")
    case True
    then show ?thesis using 1(4) unfolding read_loop.simps [of evs r] by (auto split: if_split_asm)
  next
    case False
    then obtain bs evs' where evs: "evs = RData bs # evs'" and bs: "bs \<noteq> []"
      using 1(3) by (cases evs) auto
    let ?evs = "if length bs \<le> ring_step r then evs' else RData (drop (ring_step r) bs) # evs'"
    obtain r1 where r1: "ring_store (take (ring_step r) bs) r = Some r1" "read_loop ?evs r1 = Some (e, r')"
      using 1(4) False evs bs unfolding read_loop.simps [of evs r] by (auto split: option.split_asm)
    have ns: "ring_step r \<noteq> 0" using False by simp
    have d: "\<forall>ev \<in> set ?evs. \<exists>bs. ev = RData bs \<and> bs \<noteq> []" using 1(3) evs by simp
    show ?thesis by (rule 1(1) [OF ns evs refl bs r1(1) d r1(2)])
  qed
qed

text \<open>A segment that fits the ring is read whole.\<close>

lemma read_loop_chunk:
  assumes "ring_ok r" "c \<noteq> []" "length c \<le> RX_BUF - length (ring_bytes r)"
  shows "\<exists>r1. read_loop [RData c] r = Some (None, r1) \<and> ring_ok r1 \<and> ring_bytes r1 = ring_bytes r @ c"
proof -
  obtain e r1 where r1: "read_loop [RData c] r = Some (e, r1)" "ring_ok r1"
    "ring_bytes r1 = ring_bytes r @ take (RX_BUF - length (ring_bytes r)) (rd_bytes [RData c])"
    using read_loop_takes [OF assms(1)] by blast
  moreover have "e = None" by (rule read_loop_data [OF _ r1(1)]) (use assms in simp)
  ultimately show ?thesis using assms by simp
qed

section \<open>Writing\<close>

text \<open>No byte is lost, repeated or moved between the queue and the socket.\<close>

lemma write_loop_conserves:
  "\<forall>t \<in> set ts. wf_txbuf t \<Longrightarrow> write_loop evs ts = (e, out, ts') \<Longrightarrow>
     out @ tx_pending ts' = tx_pending ts \<and> (\<forall>t \<in> set ts'. wf_txbuf t)"
proof (induction evs ts arbitrary: e out ts' rule: write_loop.induct)
  case (6 n evs t ts)
  define res where "res = min n (unat (tb_size t - tb_rptr t))"
  have wf: "unat (tb_size t) = length (tb_buf t)" "unat (tb_rptr t) < length (tb_buf t)"
    using 6(2) by (auto simp: wf_txbuf_def word_less_nat_alt)
  then have "unat (tb_size t - tb_rptr t) = length (tb_buf t) - unat (tb_rptr t)"
    by (subst unat_sub_nat) (simp_all add: word_le_nat_alt)
  then have rle: "unat (tb_rptr t) + res \<le> length (tb_buf t)" using wf by (simp add: res_def)
  show ?case
  proof (cases "res = 0")
    case True
    then show ?thesis using 6(2,3) by (auto simp: res_def [symmetric])
  next
    case False
    let ?t = "t\<lparr>tb_rptr := tb_rptr t + of_nat res\<rparr>"
    let ?ts = "if tb_rptr ?t \<ge> tb_size ?t then ts else ?t # ts"
    have lt: "length (tb_buf t) < 4294967296" using wf(1) unat_u32_less [of "tb_size t"] by simp
    have u: "unat (tb_rptr ?t) = unat (tb_rptr t) + res"
      using rle lt by (simp add: unat_word_ariths unat_of_nat)
    obtain e1 out1 ts1 where w: "write_loop evs ?ts = (e1, out1, ts1)" by (cases "write_loop evs ?ts")
    have r: "e = e1" "ts' = ts1" "out = take res (drop (unat (tb_rptr t)) (tb_buf t)) @ out1"
      using 6(3) False w by (simp_all add: res_def [symmetric] Let_def)
    have wfs: "\<forall>t \<in> set ?ts. wf_txbuf t" using 6(2) wf by (auto simp: wf_txbuf_def not_le)
    have IH: "out1 @ tx_pending ts1 = tx_pending ?ts \<and> (\<forall>t \<in> set ts1. wf_txbuf t)"
      by (rule 6(1) [OF refl refl refl False [unfolded res_def] refl wfs [unfolded res_def]
            w [unfolded res_def], folded res_def])
    have "take res (drop (unat (tb_rptr t)) (tb_buf t)) @ tx_pending ?ts = tx_pending (t # ts)"
    proof (cases "tb_rptr ?t \<ge> tb_size ?t")
      case True
      then have "unat (tb_rptr t) + res = length (tb_buf t)"
        using u wf rle by (simp add: word_le_nat_alt)
      then have "take res (drop (unat (tb_rptr t)) (tb_buf t)) = drop (unat (tb_rptr t)) (tb_buf t)" by simp
      then show ?thesis using True by (simp add: tx_pending_def)
    next
      case False
      have "take res (drop (unat (tb_rptr t)) (tb_buf t)) @ drop (unat (tb_rptr t) + res) (tb_buf t)
          = drop (unat (tb_rptr t)) (tb_buf t)"
        by (metis add.commute append_take_drop_id drop_drop)
      then show ?thesis using False u by (simp add: tx_pending_def)
    qed
    then show ?thesis using IH r by simp
  qed
qed auto

section \<open>A stream in segments\<close>

text \<open>
  What the library does with the segments the network cuts the stream into: each is read
  into the ring, and the splitter runs.
\<close>

fun receive ::
  "(packet \<Rightarrow> 's \<Rightarrow> (bool \<times> 's) option) \<Rightarrow> byte list list \<Rightarrow> ring \<times> 's \<Rightarrow> (ring \<times> 's) option" where
  "receive h [] x = Some x"
| "receive h (c # cs) (r, s) = do {
     (_, r) \<leftarrow> read_loop [RData c] r;
     x \<leftarrow> coremodel_process_rxq h (r, s);
     receive h cs x }"

text \<open>
  However the stream of packets is cut, the handler sees the packets, each once and in
  order, and the ring is empty at the end.
\<close>

lemma receive_delivers:
  assumes "ring_ok r" "incomplete (ring_bytes r)" "ring_bytes r @ concat cs = stream ps"
    "\<forall>p \<in> set ps. wf_packet p \<and> wire_size p \<le> MAX_PKT" "\<forall>c \<in> set cs. c \<noteq> [] \<and> length c \<le> MAX_PKT"
    "deliver h ps s = Some ([], s')"
  shows "\<exists>r'. receive h cs (r, s) = Some (r', s') \<and> ring_ok r' \<and> ring_bytes r' = []"
  using assms
proof (induction cs arbitrary: r ps s)
  case Nil
  then have b: "ring_bytes r = stream ps @ []" by simp
  have "ps = []"
  proof (rule ccontr)
    assume "ps \<noteq> []"
    then obtain p qs where "ps = p # qs" by (cases ps) auto
    then have "ring_bytes r = wire_image p @ stream qs" and wf: "wf_packet p" using Nil.prems b by simp_all
    then show False
      using Nil.prems(2) wire_image_ge_8 [OF wf] by (simp add: incomplete_def wire_size_def)
  qed
  with Nil.prems show ?case by simp
next
  case (Cons c cs)
  have wf: "\<forall>p \<in> set ps. wf_packet p" using Cons.prems(4) by simp
  obtain ps1 ps2 t where ps: "ps = ps1 @ ps2" and bs: "ring_bytes r @ c = stream ps1 @ t"
    and t: "incomplete t" "t @ concat cs = stream ps2"
    using stream_prefix [of "ring_bytes r @ c" "concat cs" ps] Cons.prems(3) wf by auto
  have room: "length (ring_bytes r) < MAX_PKT"
    by (rule incomplete_wire_bound [OF Cons.prems(3,4,2)])
  have c: "c \<noteq> []" "length c \<le> MAX_PKT" using Cons.prems(5) by simp_all
  obtain e r1 where r1: "read_loop [RData c] r = Some (e, r1)" "ring_ok r1" "ring_bytes r1 = stream ps1 @ t"
  proof -
    obtain e r1 where "read_loop [RData c] r = Some (e, r1)" "ring_ok r1"
      "ring_bytes r1 = ring_bytes r @ take (RX_BUF - length (ring_bytes r)) (rd_bytes [RData c])"
      using read_loop_takes [OF Cons.prems(1)] by blast
    moreover have "take (RX_BUF - length (ring_bytes r)) (rd_bytes [RData c]) = c" using room c by simp
    ultimately show thesis using that bs by simp
  qed
  have wf1: "\<forall>p \<in> set ps1. wf_packet p" using wf ps by simp
  obtain s1 where s1: "deliver h ps1 s = Some ([], s1)" "deliver h ps2 s1 = Some ([], s')"
    using Cons.prems(6) unfolding ps by (rule deliver_all_append)
  obtain r2 where r2: "coremodel_process_rxq h (r1, s) = Some (r2, s1)" "ring_ok r2" "ring_bytes r2 = t"
    using process_rxq_refines [OF r1(2,3) wf1 t(1), of h s] s1(1) by auto
  have wf2: "\<forall>p \<in> set ps2. wf_packet p \<and> wire_size p \<le> MAX_PKT" using Cons.prems(4) ps by simp
  have "\<exists>r'. receive h cs (r2, s1) = Some (r', s') \<and> ring_ok r' \<and> ring_bytes r' = []"
    using Cons.IH [OF r2(2) _ _ wf2 _ s1(2)] r2(3) t Cons.prems(5) by simp
  then show ?case using r1(1) r2(1) by simp
qed

section \<open>Rounds\<close>

lemma processfds_closed:
  "cm_fd cm < 0 \<Longrightarrow> coremodel_processfds f rds wrs (r, cm) =
     Some (- ENOTCONN, r, cm\<lparr>cm_host := (cm_host cm)\<lparr>h_need_wake := False\<rparr>\<rparr>)"
  by (simp add: coremodel_processfds_def Let_def)

text \<open>The peer's end of the stream closes the socket, and later rounds report it.\<close>

lemma processfds_eof:
  assumes "0 \<le> cm_fd cm" "ring_ok r" "ring_step r \<noteq> 0"
  shows "\<exists>cm'. coremodel_processfds \<lparr>fd_wake = False, fd_read = True, fd_write = w\<rparr> (RData [] # rds) wrs (r, cm) =
      Some (- ECONNRESET, r, cm') \<and> cm_fd cm' = - 1"
  using assms by (simp add: coremodel_processfds_def read_loop.simps Let_def close_fd_def)

text \<open>A round in which the splitter does its work and nothing can be written.\<close>

lemma processfds_write:
  assumes "0 \<le> cm_fd cm"
    and rd: "read_loop rds r = Some (None, r1)"
    and sp: "coremodel_process_rxq coremodel_process_packet
        (r1, cm\<lparr>cm_host := (cm_host cm)\<lparr>h_need_wake := False\<rparr>\<rparr>) = Some (r2, cm2)"
    and wr: "write_loop wrs (h_txbufs (cm_host cm2)) = (None, out, ts)"
  shows "coremodel_processfds \<lparr>fd_wake = False, fd_read = True, fd_write = True\<rparr> rds wrs (r, cm) =
    Some (0, r2, cm2\<lparr>cm_host := (cm_host cm2)\<lparr>h_txbufs := ts\<rparr>, cm_out := cm_out cm2 @ out\<rparr>)"
  using assms by (simp add: coremodel_processfds_def Let_def)

text \<open>In query mode with no time limit, the loop returns 0 only when the query is answered.\<close>

declare coremodel_mainloop_int.simps [simp del]

lemma mainloop_query:
  "usec < 0 \<Longrightarrow> coremodel_mainloop_int now end_us usec True rs s = Some (Inr (0, s')) \<Longrightarrow> \<not> cm_query (snd s')"
proof (induction rs arbitrary: now s)
  case Nil
  obtain r cm where s: "s = (r, cm)" by (cases s)
  show ?case
    using Nil unfolding s coremodel_mainloop_int.simps [of _ _ _ _ _ r cm]
    by (auto split: Option.bind_split_asm if_split_asm)
next
  case (Cons x rs)
  obtain r cm where s: "s = (r, cm)" by (cases s)
  show ?case
    using Cons unfolding s coremodel_mainloop_int.simps [of _ _ _ _ _ r cm]
    by (auto split: Option.bind_split_asm if_split_asm)
qed

end
