(* ===== verification/DeviceList.thy ===== *)
theory DeviceList
  imports Session
begin

text \<open>
  The device list protocol: what \<open>coremodel_process_list_response\<close> makes of the responses of
  a virtual machine. \<open>dev_bytes\<close> is a machine's encoding of an entry, \<open>list_is\<close> the
  abstraction from the array \<open>device_list\<close> to the entries received so far.
\<close>

type_synonym device = "u16 \<times> byte list \<times> u32"

definition dev_entry :: "device \<Rightarrow> device_list_t" where
  "dev_entry d = (case d of (ty, nm, num) \<Rightarrow> \<lparr>dl_type = uint ty, dl_name = Some nm, dl_num = num\<rparr>)"

definition dev_bytes :: "device \<Rightarrow> byte list" where
  "dev_bytes d = (case d of (ty, nm, num) \<Rightarrow>
     le_bytes 2 ty @ le_bytes 2 (len16 (length nm)) @ le_bytes 4 num @ nm @
     replicate (list_step (len16 (length nm)) - (8 + length nm)) 0)"

definition dev_ok :: "device \<Rightarrow> bool" where
  "dev_ok d \<longleftrightarrow> length (fst (snd d)) < 65536"

definition list_is :: "'d cm \<Rightarrow> device list \<Rightarrow> bool" where
  "list_is cm ds \<longleftrightarrow> (ds = [] \<and> cm_list cm = None \<and> cm_list_size cm = 0) \<or>
     (\<exists>t. cm_list cm = Some (map (\<lambda>d. Some (dev_entry d)) ds @ [Some t]) \<and>
          dl_type t = COREMODEL_INVALID \<and> cm_list_size cm = length ds + 1)"

lemma list_step_name: "n < 65536 \<Longrightarrow> 8 + n \<le> list_step (len16 n)"
  unfolding list_step_eq by (subst unat_len16) simp_all

lemma length_dev_bytes: "dev_ok d \<Longrightarrow> length (dev_bytes d) = list_step (len16 (length (fst (snd d))))"
  using list_step_name list_step_ge [of "len16 (length (fst (snd d)))"]
  by (cases d) (simp add: dev_ok_def dev_bytes_def)

lemma dev_bytes_nonempty: "dev_ok d \<Longrightarrow> 0 < length (dev_bytes d)"
  using list_step_ge [of "len16 (length (fst (snd d)))"] by (simp add: length_dev_bytes)

text \<open>Reading the fields of an entry behind \<open>pre\<close>.\<close>

lemma rd_dev:
  assumes "dev_ok (ty, nm, num)"
  shows "rd 2 (pre @ dev_bytes (ty, nm, num) @ post) (length pre) = Some ty"
    "rd 2 (pre @ dev_bytes (ty, nm, num) @ post) (length pre + 2) = Some (len16 (length nm))"
    "rd 4 (pre @ dev_bytes (ty, nm, num) @ post) (length pre + 4) = Some num"
    "take (length nm) (drop (length pre + 8) (pre @ dev_bytes (ty, nm, num) @ post)) = nm"
  by (simp_all add: dev_bytes_def rd_append_right)

lemma list_count_devs:
  "\<forall>d \<in> set ds. dev_ok d \<Longrightarrow> data = pre @ concat (map dev_bytes ds) \<Longrightarrow>
     list_count data (length data) (length pre) = Some (length ds)"
proof (induction ds arbitrary: pre)
  case Nil
  then show ?case by (simp add: list_count.simps)
next
  case (Cons d ds)
  obtain ty nm num where d: "d = (ty, nm, num)" by (cases d)
  have ok: "dev_ok (ty, nm, num)" using Cons.prems d by simp
  have e: "data = pre @ dev_bytes (ty, nm, num) @ concat (map dev_bytes ds)" using Cons.prems d by simp
  have "length pre < length data" using dev_bytes_nonempty [OF ok] unfolding e by simp
  moreover have "list_count data (length data) (length pre + list_step (len16 (length nm))) = Some (length ds)"
    using Cons.IH [of "pre @ dev_bytes (ty, nm, num)"] Cons.prems e length_dev_bytes [OF ok] by simp
  moreover have "rd 2 data (length pre + 2) = Some (len16 (length nm))" unfolding e by (rule rd_dev [OF ok])
  ultimately show ?case by (subst list_count.simps) simp
qed

lemma list_fill_devs:
  "\<forall>d \<in> set ds. dev_ok d \<Longrightarrow> data = pre @ concat (map dev_bytes ds) \<Longrightarrow> h_oom h = [] \<Longrightarrow>
     length ds \<le> length ys \<Longrightarrow>
     list_fill data (length data) (length pre) (length xs) (xs @ ys) h =
       Some (False, length xs + length ds, xs @ map (\<lambda>d. Some (dev_entry d)) ds @ drop (length ds) ys, h)"
proof (induction ds arbitrary: pre xs ys)
  case Nil
  then show ?case by (simp add: list_fill.simps)
next
  case (Cons d ds)
  obtain ty nm num where d: "d = (ty, nm, num)" by (cases d)
  have ok: "dev_ok (ty, nm, num)" using Cons.prems d by simp
  have e: "data = pre @ dev_bytes (ty, nm, num) @ concat (map dev_bytes ds)" using Cons.prems d by simp
  obtain y ys' where y: "ys = y # ys'" using Cons.prems by (cases ys) auto
  have n: "unat (len16 (length nm)) = length nm" using ok by (simp add: dev_ok_def unat_len16)
  have l: "length pre < length data" using dev_bytes_nonempty [OF ok] unfolding e by simp
  have fit: "length pre + 8 + length nm \<le> length data"
    using length_dev_bytes [OF ok] list_step_name [of "length nm"] ok unfolding e by (simp add: dev_ok_def)
  note r = rd_dev [OF ok, of pre "concat (map dev_bytes ds)", folded e]
  have "list_fill data (length data) (length pre + list_step (len16 (length nm)))
      (Suc (length xs)) (xs @ Some (dev_entry d) # ys') h =
      Some (False, length xs + length (d # ds),
        xs @ map (\<lambda>d. Some (dev_entry d)) (d # ds) @ drop (length (d # ds)) ys, h)"
    using Cons.IH [of "pre @ dev_bytes (ty, nm, num)" ys' "xs @ [Some (dev_entry d)]"]
      Cons.prems e y length_dev_bytes [OF ok] by simp
  then show ?case
    using l fit r n Cons.prems(3) y by (subst list_fill.simps) (simp add: dev_entry_def d)
qed

lemma length_list_is_free: "list_is cm ds \<Longrightarrow> coremodel_free_list (cm_list cm) = Some ()"
proof -
  have "free_entries (map (\<lambda>d. Some (dev_entry d)) ds @ [Some t]) = Some ()" if "dl_type t = COREMODEL_INVALID" for t
    using that by (induction ds) (auto simp: dev_entry_def split: prod.splits)
  then show "list_is cm ds \<Longrightarrow> coremodel_free_list (cm_list cm) = Some ()"
    by (auto simp: list_is_def coremodel_free_list_def)
qed

lemma list_grow_is:
  assumes "list_is cm ds0" "0 < k"
  shows "\<exists>ys. list_grow (length ds0 + k + 1) cm = map (\<lambda>d. Some (dev_entry d)) ds0 @ ys \<and>
    length ys = k + 1 \<and> (\<exists>e. ys ! k = Some e)"
proof (cases "cm_list cm")
  case None
  then have "ds0 = []" "cm_list_size cm = 0" using assms(1) by (auto simp: list_is_def)
  with None show ?thesis
    by (intro exI [of _ "replicate (k + 1) (Some \<lparr>dl_type = 0, dl_name = None, dl_num = 0\<rparr>)"])
      (simp add: list_grow_def Let_def nth_Cons' del: replicate_Suc)
next
  case (Some es)
  then obtain t where t: "es = map (\<lambda>d. Some (dev_entry d)) ds0 @ [Some t]" "cm_list_size cm = length ds0 + 1"
    using assms(1) by (auto simp: list_is_def)
  with Some assms(2) show ?thesis
    by (intro exI [of _ "Some t # replicate k (Some \<lparr>dl_type = 0, dl_name = None, dl_num = 0\<rparr>)"])
      (simp add: list_grow_def Let_def nth_Cons')
qed

lemma hflag_index: "n < 32768 \<Longrightarrow> unat (len16 n AND 0x7FFF) = n"
proof -
  assume n: "n < 32768"
  have m: "len16 n AND 0x7FFF = take_bit 15 (len16 n)"
    by (simp add: take_bit_eq_mask mask_eq_exp_minus_1)
  have "unat (take_bit 15 (len16 n)) = take_bit 15 (unat (len16 n))" by (rule unsigned_take_bit_eq)
  with n show ?thesis unfolding m by (simp add: unat_len16 take_bit_nat_eq_self)
qed

text \<open>
  A response with the entries from the index the last request named: they are appended, the
  array stays terminated, and the entries after them are asked for.
\<close>

lemma list_response_appends:
  assumes l: "list_is cm ds0" and ds: "\<forall>d \<in> set ds. dev_ok d" "ds \<noteq> []" "length ds0 + length ds < 32768"
    and p: "pk_data p = concat (map dev_bytes ds)" "wf_packet p" "pk_hflag p = len16 (length ds0)"
    and cm: "h_oom (cm_host cm) = []" "cm_list_pkt cm = None"
  shows "\<exists>arr. coremodel_process_list_response p cm =
      Some (False, cm\<lparr>cm_list := Some arr, cm_list_size := length ds0 + length ds + 1,
        cm_host := host_push (list_request (len16 (length ds0 + length ds))) (cm_host cm)\<rparr>) \<and>
    list_is (cm\<lparr>cm_list := Some arr, cm_list_size := length ds0 + length ds + 1,
        cm_host := host_push (list_request (len16 (length ds0 + length ds))) (cm_host cm)\<rparr>) (ds0 @ ds)"
proof -
  obtain d ds' where d: "ds = d # ds'" using ds(2) by (cases ds) auto
  then have "0 < length (pk_data p)" using dev_bytes_nonempty [of d] ds(1) p(1) by simp
  then have n8: "pk_len p \<noteq> 8" using p(2) by (auto simp: wf_packet_def)
  have len: "unat (payload_len p) = length (pk_data p)" using p(2) by (rule unat_payload_len)
  have base: "unat (pk_hflag p AND 0x7FFF) = length ds0" using ds(3) by (simp add: p(3) hflag_index)
  have cnt: "list_count (pk_data p) (length (pk_data p)) 0 = Some (length ds)"
    using list_count_devs [OF ds(1), of "pk_data p" "[]"] p(1) by simp
  obtain ys e where ys: "list_grow (length ds0 + length ds + 1) cm = map (\<lambda>d. Some (dev_entry d)) ds0 @ ys"
    "length ys = length ds + 1" "ys ! length ds = Some e"
    using list_grow_is [OF l, of "length ds"] ds(2) by auto
  let ?arr = "map (\<lambda>d. Some (dev_entry d)) ds0 @ map (\<lambda>d. Some (dev_entry d)) ds @ drop (length ds) ys"
  have dr: "drop (length ds) ys = [Some e]"
    using ys(2,3) by (metis Cons_nth_drop_Suc add.commute drop_all less_add_one order_refl plus_1_eq_Suc)
  have fill: "list_fill (pk_data p) (length (pk_data p)) 0 (length ds0)
      (list_grow (length ds0 + length ds + 1) cm) (cm_host cm) =
      Some (False, length ds0 + length ds, ?arr, cm_host cm)"
    using list_fill_devs [OF ds(1), of "pk_data p" "[]" "cm_host cm" ys "map (\<lambda>d. Some (dev_entry d)) ds0"]
      p(1) cm(1) ys(1,2) by simp
  let ?t = "e\<lparr>dl_type := COREMODEL_INVALID\<rparr>"
  let ?res = "map (\<lambda>d. Some (dev_entry d)) (ds0 @ ds) @ [Some ?t]"
  have push: "coremodel_push_packet (list_request (len16 (length ds0 + length ds))) None (cm_host cm) =
      Some (False, host_push (list_request (len16 (length ds0 + length ds))) (cm_host cm))"
    using cm(1) by (intro push_packet_self) (simp_all add: list_request_def wf_packet_def)
  have nth: "?arr ! (length ds0 + length ds) = Some e" "length ds0 + length ds < length ?arr"
    "?arr[length ds0 + length ds := Some ?t] = ?res"
    by (simp_all add: dr nth_append list_update_append)
  have "coremodel_process_list_response p cm =
      Some (False, cm\<lparr>cm_list := Some ?res, cm_list_size := length ds0 + length ds + 1,
        cm_host := host_push (list_request (len16 (length ds0 + length ds))) (cm_host cm)\<rparr>)"
    using n8 cnt fill cm push nth
    unfolding coremodel_process_list_response_def list_finish_def Let_def len base
    by (simp add: len16_def)
  then show ?thesis by (intro exI [of _ ?res]) (simp add: list_is_def)
qed

section \<open>A name that cannot be allocated\<close>

lemma free_entries_unterminated:
  "\<forall>e \<in> set arr. \<exists>d. e = Some d \<and> dl_type d \<noteq> COREMODEL_INVALID \<Longrightarrow> free_entries arr = None"
  by (induction arr rule: free_entries.induct) auto

text \<open>
  The first response, when memory runs out at its first name: the cleanup walks an array
  whose end mark is not yet written, past its end.
\<close>

lemma list_response_no_memory:
  assumes l: "cm_list cm = None" "cm_list_size cm = 0" and d: "dev_ok d" "\<forall>d \<in> set ds. dev_ok d"
    and p: "pk_data p = concat (map dev_bytes (d # ds))" "wf_packet p" "pk_hflag p = 0"
    and mem: "h_oom (cm_host cm) = [False, True]"
  shows "coremodel_process_list_response p cm = None"
proof -
  have ok: "\<forall>e \<in> set (d # ds). dev_ok e" using d by simp
  obtain ty nm num where e: "d = (ty, nm, num)" by (cases d)
  have ok1: "dev_ok (ty, nm, num)" using d e by simp
  have pos: "0 < length (pk_data p)" using dev_bytes_nonempty [OF d(1)] p(1) by simp
  then have n8: "pk_len p \<noteq> 8" using p(2) by (auto simp: wf_packet_def)
  have len: "unat (payload_len p) = length (pk_data p)" using p(2) by (rule unat_payload_len)
  have cnt: "list_count (pk_data p) (length (pk_data p)) 0 = Some (Suc (length ds))"
    using list_count_devs [OF ok, of "pk_data p" "[]"] p(1) by simp
  define z :: "device_list_t option" where "z = Some \<lparr>dl_type = 0, dl_name = None, dl_num = 0\<rparr>"
  have g: "list_grow (Suc (Suc (length ds))) cm = z # replicate (Suc (length ds)) z"
    using l by (simp add: list_grow_def z_def Let_def)
  define h where "h = (cm_host cm)\<lparr>h_oom := [True]\<rparr>"
  have c1: "calloc (cm_host cm) = (True, h)" and c2: "calloc h = (False, h\<lparr>h_oom := []\<rparr>)"
    using mem by (simp_all add: calloc_def h_def)
  have "rd 2 (pk_data p) 0 = Some ty" "rd 2 (pk_data p) 2 = Some (len16 (length nm))"
    using rd_dev(1,2) [OF ok1, of "[]" "concat (map dev_bytes ds)"] p(1) e
    by (simp_all add: numeral_2_eq_2)
  then have fill: "list_fill (pk_data p) (length (pk_data p)) 0 0 (z # replicate (Suc (length ds)) z) h =
      Some (True, 0, Some \<lparr>dl_type = uint ty, dl_name = None, dl_num = 0\<rparr> # replicate (Suc (length ds)) z,
        h\<lparr>h_oom := []\<rparr>)"
    using pos c2 by (subst list_fill.simps) (simp add: z_def del: replicate_Suc add_2_eq_Suc add_2_eq_Suc')
  have neg: "uint ty \<noteq> - 1" using uint_ge_0 [of ty] by linarith
  have "free_entries (Some \<lparr>dl_type = uint ty, dl_name = None, dl_num = 0\<rparr> # replicate (Suc (length ds)) z) = None"
    using neg by (intro free_entries_unterminated) (auto simp: z_def)
  then show ?thesis
    using n8 cnt g fill c1 p(3)
    unfolding coremodel_process_list_response_def len Let_def by (simp add: coremodel_free_list_def)
qed

end
