(* ===== verification/Attach.thy ===== *)
theory Attach
  imports Fds DeviceList
begin

text \<open>
  Opening and closing interfaces: \<open>coremodel_attach_int\<close> and its wrappers, the device list
  queries, \<open>coremodel_detach\<close> and \<open>coremodel_disconnect\<close>. A query sends its request and
  runs the main loop in query mode; \<open>Inl s\<close> is a call that still waits when the script of
  rounds ends.
\<close>

section \<open>Connection requests\<close>

text \<open>The names are the bytes of C strings, without their terminating zeros.\<close>

definition attach_request :: "u32 \<Rightarrow> byte list \<Rightarrow> u32 \<Rightarrow> byte list option \<Rightarrow> u16 \<Rightarrow> packet" where
  "attach_request ty name addr subname flags =
    (case subname of
       Some sub \<Rightarrow>
         \<lparr>pk_len = len16 (17 + length name + length sub), pk_conn = CONN_QUERY, pk_pkt = PKT_QUERY_REQ_CONN,
          pk_bflag = 0, pk_hflag = flags OR 0x8000,
          pk_data = le_bytes 2 (ucast ty :: u16) @ le_bytes 2 (len16 (1 + length name + length sub)) @
            le_bytes 4 addr @ name @ [0] @ sub\<rparr>
     | None \<Rightarrow>
         \<lparr>pk_len = len16 (16 + length name), pk_conn = CONN_QUERY, pk_pkt = PKT_QUERY_REQ_CONN,
          pk_bflag = 0, pk_hflag = flags,
          pk_data = le_bytes 2 (ucast ty :: u16) @ le_bytes 2 (len16 (length name)) @ le_bytes 4 addr @ name\<rparr>)"

definition new_if :: "u32 \<Rightarrow> 'd func \<Rightarrow> nat \<Rightarrow> 'd coremodel_if" where
  "new_if ty fn ifpriv =
    \<lparr>if_core = \<lparr>c_conn = CONN_QUERY, c_trnidx = 0, c_type = ty, c_cred = 0, c_busy = False, c_offs = 0,
                c_ebusy = 0, c_priv = ifpriv, c_rdbuf = replicate RDBUF 0\<rparr>,
     if_func = fn, if_rxbufs = [], if_defer_pkt = True\<rparr>"

text \<open>\<open>free\<close> of an interface object; of a NULL pointer it does nothing.\<close>

definition free_if :: "nat option \<Rightarrow> 'd cm \<Rightarrow> 'd cm option" where
  "free_if ptr cm =
    (case ptr of
       None \<Rightarrow> Some cm
     | Some i \<Rightarrow> (case cm_heap cm i of None \<Rightarrow> None | Some _ \<Rightarrow> Some (cm\<lparr>cm_heap := (cm_heap cm)(i := None)\<rparr>)))"

text \<open>The end of an attach, after the main loop returned \<open>res\<close>; the flag tells success.\<close>

definition attach_finish :: "nat \<Rightarrow> int \<Rightarrow> 'd cm \<Rightarrow> (bool \<times> 'd cm) option" where
  "attach_finish i res cm = do {
     cif \<leftarrow> cm_heap cm i;
     let cif = (if res \<noteq> 0 then cif\<lparr>if_core := (if_core cif)\<lparr>c_conn := CONN_QUERY\<rparr>\<rparr> else cif);
     let cm = (if res \<noteq> 0
               then cm\<lparr>cm_query := False, cm_conn_if := None, cm_heap := (cm_heap cm)(i \<mapsto> cif)\<rparr>
               else cm);
     if c_conn (if_core cif) = CONN_QUERY then do {
       cm \<leftarrow> free_if (cm_conn_if cm) cm;
       Some (False, cm\<lparr>cm_conn_if := None\<rparr>) }
     else Some (True, cm\<lparr>cm_conn_if := None\<rparr>) }"

definition coremodel_attach_int ::
  "u32 \<Rightarrow> byte list \<Rightarrow> u32 \<Rightarrow> byte list option \<Rightarrow> 'd func \<Rightarrow> nat \<Rightarrow> u16 \<Rightarrow> int \<Rightarrow> round list \<Rightarrow> ring \<times> 'd cm \<Rightarrow>
     ((ring \<times> 'd cm) + nat option \<times> ring \<times> 'd cm) option" where
  "coremodel_attach_int ty name addr subname fn ifpriv flags now rs s =
    (case s of (r, cm) \<Rightarrow>
       if cm_query cm then Some (Inr (None, r, cm))
       else let (ok, h) = calloc (cm_host cm) in
         if \<not> ok then Some (Inr (None, r, cm\<lparr>cm_host := h\<rparr>))
         else do {
           (err, h) \<leftarrow> coremodel_push_packet (attach_request ty name addr subname flags) None h;
           if err then Some (Inr (None, r, cm\<lparr>cm_host := h\<rparr>))
           else do {
             let i = cm_next cm;
             out \<leftarrow> coremodel_mainloop_int now (now - 1) (- 1) True rs
               (r, cm\<lparr>cm_host := h, cm_heap := (cm_heap cm)(i \<mapsto> new_if ty fn ifpriv), cm_next := Suc i,
                      cm_conn_if := Some i, cm_query := True\<rparr>);
             (case out of
                Inl s \<Rightarrow> Some (Inl s)
              | Inr (res, r, cm) \<Rightarrow> do {
                  (ok, cm) \<leftarrow> attach_finish i res cm;
                  Some (Inr (if ok then Some i else None, r, cm)) }) } })"

definition coremodel_attach_uart where
  "coremodel_attach_uart name f ifpriv = coremodel_attach_int COREMODEL_UART name 0 None (UartF f) ifpriv 0"

definition coremodel_attach_i2c where
  "coremodel_attach_i2c name addr f ifpriv flags =
     coremodel_attach_int COREMODEL_I2C name (ucast (addr :: u8)) None (I2cF f) ifpriv flags"

definition coremodel_attach_spi where
  "coremodel_attach_spi name csel f ifpriv flags =
     coremodel_attach_int COREMODEL_SPI name csel None (SpiF f) ifpriv flags"

definition coremodel_attach_spi_name where
  "coremodel_attach_spi_name name cselname f ifpriv flags =
     coremodel_attach_int COREMODEL_SPI name 0 (Some cselname) (SpiF f) ifpriv flags"

definition coremodel_attach_gpio where
  "coremodel_attach_gpio name pin f ifpriv = coremodel_attach_int COREMODEL_GPIO name pin None (GpioF f) ifpriv 0"

definition coremodel_attach_gpio_name where
  "coremodel_attach_gpio_name name pinname f ifpriv =
     coremodel_attach_int COREMODEL_GPIO name 0 (Some pinname) (GpioF f) ifpriv 0"

definition coremodel_attach_usbh where
  "coremodel_attach_usbh name port f ifpriv (speed :: u32) =
     coremodel_attach_int COREMODEL_USBH name port None (UsbhF f) ifpriv (ucast speed)"

definition coremodel_attach_can where
  "coremodel_attach_can name f ifpriv = coremodel_attach_int COREMODEL_CAN name 0 None (CanF f) ifpriv 0"

definition coremodel_attach_eth where
  "coremodel_attach_eth name f ifpriv = coremodel_attach_int COREMODEL_ETH name 0 None (EthF f) ifpriv 0"

text \<open>The controller's name is the literal \<open>event\<close>.\<close>

definition coremodel_attach_event_name where
  "coremodel_attach_event_name evtname f ifpriv =
     coremodel_attach_int COREMODEL_EVENT [0x65, 0x76, 0x65, 0x6E, 0x74] 0 (Some evtname) (EventF f) ifpriv 0"

section \<open>Device lists\<close>

text \<open>The end of both queries, after the main loop returned \<open>res\<close>.\<close>

definition list_result :: "int \<Rightarrow> 'd cm \<Rightarrow> (device_array option \<times> 'd cm) option" where
  "list_result res cm = do {
     cm \<leftarrow> (if res \<noteq> 0 then do {
              _ \<leftarrow> coremodel_free_list (cm_list cm);
              Some (cm\<lparr>cm_list := None, cm_query := False\<rparr>) }
            else Some cm);
     Some (cm_list cm, cm\<lparr>cm_list := None, cm_list_size := 0\<rparr>) }"

definition coremodel_list ::
  "int \<Rightarrow> round list \<Rightarrow> ring \<times> 'd cm \<Rightarrow> ((ring \<times> 'd cm) + device_array option \<times> ring \<times> 'd cm) option" where
  "coremodel_list now rs s =
    (case s of (r, cm) \<Rightarrow>
       if cm_query cm then Some (Inr (None, r, cm))
       else do {
         (err, h) \<leftarrow> coremodel_push_packet (list_request 0) None (cm_host cm);
         let cm = cm\<lparr>cm_host := h\<rparr>;
         if err then Some (Inr (None, r, cm))
         else do {
           out \<leftarrow> coremodel_mainloop_int now (now - 1) (- 1) True rs (r, cm\<lparr>cm_query := True\<rparr>);
           (case out of
              Inl s \<Rightarrow> Some (Inl s)
            | Inr (res, r, cm) \<Rightarrow> do {
                (l, cm) \<leftarrow> list_result res cm;
                Some (Inr (l, r, cm)) }) } })"

definition subdevice_request :: "u32 \<Rightarrow> byte list \<Rightarrow> packet" where
  "subdevice_request ty name =
    \<lparr>pk_len = len16 (12 + length name), pk_conn = CONN_QUERY, pk_pkt = PKT_QUERY_REQ_LIST, pk_bflag = 0,
     pk_hflag = 0x8000,
     pk_data = le_bytes 2 (ucast ty :: u16) @ le_bytes 2 (len16 (length name)) @ name\<rparr>"

definition coremodel_list_subdevices ::
  "u32 \<Rightarrow> byte list \<Rightarrow> int \<Rightarrow> round list \<Rightarrow> ring \<times> 'd cm \<Rightarrow>
     ((ring \<times> 'd cm) + device_array option \<times> ring \<times> 'd cm) option" where
  "coremodel_list_subdevices ty name now rs s =
    (case s of (r, cm) \<Rightarrow>
       let pkt = subdevice_request ty name in
       if cm_query cm then Some (Inr (None, r, cm))
       else do {
         (err, h) \<leftarrow> coremodel_push_packet pkt None (cm_host cm);
         let cm = cm\<lparr>cm_host := h\<rparr>;
         if err then Some (Inr (None, r, cm))
         else do {
           out \<leftarrow> coremodel_mainloop_int now (now - 1) (- 1) True rs
                    (r, cm\<lparr>cm_query := True, cm_list_pkt := Some pkt\<rparr>);
           (case out of
              Inl s \<Rightarrow> Some (Inl s)
            | Inr (res, r, cm) \<Rightarrow> do {
                (l, cm) \<leftarrow> list_result res cm;
                Some (Inr (l, r, cm\<lparr>cm_list_pkt := None\<rparr>)) }) } })"

section \<open>Closing\<close>

definition disc_request :: "u16 \<Rightarrow> packet" where
  "disc_request conn = \<lparr>pk_len = 8, pk_conn = CONN_QUERY, pk_pkt = PKT_QUERY_REQ_DISC, pk_bflag = 0,
     pk_hflag = conn, pk_data = []\<rparr>"

text \<open>Walking \<open>ifs\<close> to unlink an interface follows the \<open>next\<close> of every live object.\<close>

definition unlink_if :: "nat \<Rightarrow> 'd cm \<Rightarrow> 'd cm option" where
  "unlink_if i cm =
    (if \<forall>j \<in> set (cm_ifs cm). cm_heap cm j \<noteq> None
     then Some (cm\<lparr>cm_ifs := removeAll i (cm_ifs cm)\<rparr>) else None)"

definition coremodel_detach :: "nat option \<Rightarrow> 'd cm \<Rightarrow> 'd cm option" where
  "coremodel_detach handle cm =
    (case handle of
       None \<Rightarrow> Some cm
     | Some i \<Rightarrow> do {
         cif \<leftarrow> cm_heap cm i;
         cm \<leftarrow> unlink_if i cm;
         h \<leftarrow> push_ignoring (disc_request (c_conn (if_core cif))) None (cm_host cm);
         free_if (Some i) (cm\<lparr>cm_host := h\<rparr>) })"

function detach_all :: "'d cm \<Rightarrow> 'd cm option" where
  "detach_all cm =
    (case cm_ifs cm of
       [] \<Rightarrow> Some cm
     | i # is \<Rightarrow> (case coremodel_detach (Some i) cm of None \<Rightarrow> None | Some cm' \<Rightarrow> detach_all cm'))"
  by pat_completeness auto

lemma detach_ifs:
  assumes "coremodel_detach (Some i) cm = Some cm'"
  shows "cm_ifs cm' = removeAll i (cm_ifs cm)"
  using assms by (auto simp: coremodel_detach_def unlink_if_def free_if_def
      split: Option.bind_split_asm if_split_asm option.split_asm)

termination detach_all
  by (relation "measure (\<lambda>cm. length (cm_ifs cm))") (auto simp: detach_ifs less_Suc_eq_le)

declare detach_all.simps [simp del]

text \<open>
  Everything up to \<open>coremodel_fini\<close>, which frees the object; what follows it works on freed
  memory, so it is written over an object that may be gone.
\<close>

definition disconnect_release :: "ring \<times> 'd cm \<Rightarrow> (ring \<times> 'd cm) option" where
  "disconnect_release s = (case s of (r, cm) \<Rightarrow> do {
     cm \<leftarrow> detach_all cm;
     let cm = cm\<lparr>cm_fd := - 1, cm_wake_fd := - 1, cm_host := (cm_host cm)\<lparr>h_txbufs := []\<rparr>\<rparr>;
     _ \<leftarrow> coremodel_free_list (cm_list cm);
     let cm = cm\<lparr>cm_list := None, cm_list_size := 0\<rparr>;
     cm \<leftarrow> free_if (cm_conn_if cm) cm;
     Some (r\<lparr>rxqwp := 0, rxqrp := 0\<rparr>, cm\<lparr>cm_conn_if := None, cm_query := False\<rparr>) })"

definition coremodel_fini :: "ring \<times> 'd cm \<Rightarrow> (ring \<times> 'd cm) option option" where
  "coremodel_fini s = Some None"

definition disconnect_tail :: "(ring \<times> 'd cm) option \<Rightarrow> (ring \<times> 'd cm) option" where
  "disconnect_tail obj = do {
     (r, cm) \<leftarrow> obj;
     Some (r, cm\<lparr>cm_host := (cm_host cm)\<lparr>h_need_wake := False\<rparr>, cm_query := False\<rparr>) }"

definition coremodel_disconnect :: "ring \<times> 'd cm \<Rightarrow> (ring \<times> 'd cm) option" where
  "coremodel_disconnect s = do {
     s \<leftarrow> disconnect_release s;
     obj \<leftarrow> coremodel_fini s;
     disconnect_tail obj }"

section \<open>The query loop keeps the interface it attaches\<close>

lemma defer_flush_frame:
  "defer_flush is cm = Some cm' \<Longrightarrow> cm_ifs cm' = cm_ifs cm \<and> cm_conn_if cm' = cm_conn_if cm \<and>
     cm_query cm' = cm_query cm \<and> (cm_ok cm \<longrightarrow> cm_ok cm') \<and> (\<forall>j. j \<notin> set is \<longrightarrow> cm_heap cm' j = cm_heap cm j)"
proof (induction "is" arbitrary: cm)
  case Nil
  then show ?case by simp
next
  case (Cons i "is")
  obtain cif where c: "cm_heap cm i = Some cif" using Cons.prems by (auto split: Option.bind_split_asm)
  show ?case
  proof (cases "if_defer_pkt cif")
    case True
    let ?cm = "cm\<lparr>cm_heap := (cm_heap cm)(i \<mapsto> cif\<lparr>if_defer_pkt := False\<rparr>)\<rparr>"
    obtain cm1 where a: "advance_at i ?cm = Some cm1" and d: "defer_flush is cm1 = Some cm'"
      using Cons.prems c True by (auto split: Option.bind_split_asm)
    have "cm_ok ?cm" if "cm_ok cm" using that c by (auto simp: cm_ok_def)
    then show ?thesis
      using Cons.IH [OF d] advance_at_frame [OF a] advance_at_ok [OF _ a] by auto
  next
    case False
    then show ?thesis using Cons c by simp
  qed
qed

text \<open>
  A state in which the splitter may not return: a length field of zero at the head of the ring, or
  an iteration that accesses memory it must not.
\<close>

definition rxq_stuck :: "ring \<Rightarrow> 'd cm \<Rightarrow> bool" where
  "rxq_stuck r cm \<longleftrightarrow> 8 \<le> unat (ring_used r) \<and>
     (head_len r = 0 \<or> rxq_step coremodel_process_packet (r, cm) = None)"

text \<open>
  One round of the main loop, whatever the socket delivers: what the handling of packets keeps and
  does not depend on the buffers and the descriptor holds at its end, or held where the splitter
  got stuck.
\<close>

lemma processfds_keeps:
  assumes cm: "P cm" and r: "ring_ok r"
    and packet: "\<And>p c e c'. P c \<Longrightarrow> coremodel_process_packet p c = Some (e, c') \<Longrightarrow> P c'"
    and frame: "\<And>c x. P (c\<lparr>cm_host := x\<rparr>) = P c" "\<And>c x. P (c\<lparr>cm_out := x\<rparr>) = P c" "\<And>c x. P (c\<lparr>cm_fd := x\<rparr>) = P c"
  shows "case coremodel_processfds f rds wrs (r, cm) of
      Some (res, r', cm') \<Rightarrow> P cm' \<and> ring_ok r'
    | None \<Rightarrow> \<exists>r1 c1. P c1 \<and> ring_ok r1 \<and> rxq_stuck r1 c1"
proof (cases "cm_fd cm < 0")
  case True
  then show ?thesis using assms by (simp add: coremodel_processfds_def Let_def)
next
  case False
  define c where "c = (let cm = cm\<lparr>cm_host := (cm_host cm)\<lparr>h_need_wake := False\<rparr>\<rparr> in
     if fd_wake f then cm\<lparr>cm_host := (cm_host cm)\<lparr>h_wake := 0\<rparr>\<rparr> else cm)"
  have c: "P c" using cm by (simp add: c_def Let_def frame)
  have st: "coremodel_processfds f rds wrs (r, cm) = do {
      (e, r) \<leftarrow> (if fd_read f then read_loop rds r else Some (None, r));
      (case e of
         Some e \<Rightarrow> Some (- e, r, close_fd c)
       | None \<Rightarrow> do {
           (r, cm) \<leftarrow> coremodel_process_rxq coremodel_process_packet (r, c);
           if fd_write f \<or> (h_txbufs (cm_host cm) \<noteq> [] \<and> \<not> h_txflag (cm_host cm)) then
             let (e, out, ts) = write_loop wrs (h_txbufs (cm_host cm));
                 cm = cm\<lparr>cm_host := (cm_host cm)\<lparr>h_txbufs := ts\<rparr>, cm_out := cm_out cm @ out\<rparr> in
             (case e of Some e \<Rightarrow> Some (- e, r, close_fd cm) | None \<Rightarrow> Some (0, r, cm))
           else Some (0, r, cm) }) }"
    using False unfolding coremodel_processfds_def c_def by (simp add: Let_def cong: if_cong option.case_cong)
  obtain e r1 where rd: "(if fd_read f then read_loop rds r else Some (None, r)) = Some (e, r1)" and r1: "ring_ok r1"
    using read_loop_takes [OF r, of rds] r by (cases "fd_read f") auto
  show ?thesis
  proof (cases "e = None \<and> coremodel_process_rxq coremodel_process_packet (r1, c) = None")
    case True
    then have "\<exists>r2 c2. P c2 \<and> ring_ok r2 \<and> rxq_stuck r2 c2"
      unfolding rxq_stuck_def by (intro process_rxq_None [of P coremodel_process_packet, OF packet c r1]) simp_all
    moreover have "coremodel_processfds f rds wrs (r, cm) = None" using True unfolding st rd by simp
    ultimately show ?thesis by simp
  next
    case False
    show ?thesis
    proof (cases e)
      case (Some e')
      then show ?thesis using c r1 unfolding st rd by (simp add: close_fd_def frame)
    next
      case None
      then obtain r2 c2 where p: "coremodel_process_rxq coremodel_process_packet (r1, c) = Some (r2, c2)"
        using False by auto
      have "P (snd (r2, c2)) \<and> ring_ok (fst (r2, c2))"
        by (rule process_rxq_Some [OF p]) (use c r1 in \<open>simp_all add: packet\<close>)
      then have c2: "P c2" "ring_ok r2" by simp_all
      show ?thesis
        using c2 unfolding st rd None
        by (auto simp: p close_fd_def Let_def frame split: option.split prod.split)
    qed
  qed
qed

lemma processfds_attach_ok:
  fixes cm :: "'d cm"
  assumes "attach_ok cm" "ring_ok r"
  shows "case coremodel_processfds f rds wrs (r, cm) of
      Some (res, r', cm') \<Rightarrow> attach_ok cm' \<and> cm_conn_if cm' = cm_conn_if cm \<and> ring_ok r'
    | None \<Rightarrow> \<exists>r1 (c1 :: 'd cm). attach_ok c1 \<and> cm_conn_if c1 = cm_conn_if cm \<and> ring_ok r1 \<and> rxq_stuck r1 c1"
proof -
  let ?P = "\<lambda>c :: 'd cm. attach_ok c \<and> cm_conn_if c = cm_conn_if cm"
  have p: "?P c'" if "?P c" "coremodel_process_packet p c = Some (e, c')" for p c e c'
    using that by (auto dest: process_packet_attach_ok)
  have "case coremodel_processfds f rds wrs (r, cm) of
      Some (res, r', cm') \<Rightarrow> ?P cm' \<and> ring_ok r'
    | None \<Rightarrow> \<exists>r1 c1. ?P c1 \<and> ring_ok r1 \<and> rxq_stuck r1 c1"
  proof (rule processfds_keeps [where P = ?P and cm = cm])
    show "?P c'" if "?P c" "coremodel_process_packet p c = Some (e, c')" for p c e c' using that by (rule p)
  qed (use assms in simp_all)
  then show ?thesis by (simp only: conj_assoc)
qed

text \<open>
  What holds while an interface is attached: it is not in the list and has no index, or it is at
  the head of the list and has one.
\<close>

definition attaching :: "nat list \<Rightarrow> nat \<Rightarrow> 'd cm \<Rightarrow> bool" where
  "attaching L i cm \<longleftrightarrow> attach_ok cm \<and> cm_conn_if cm = Some i \<and>
     (cm_ifs cm = L \<and> i \<notin> set L \<and> conn_of cm i = CONN_QUERY \<or> cm_ifs cm = i # L)"

lemma attaching_updates [simp]:
  "attaching L i (cm\<lparr>cm_host := h\<rparr>) = attaching L i cm" "attaching L i (cm\<lparr>cm_defer := d\<rparr>) = attaching L i cm"
  "attaching L i (cm\<lparr>cm_out := out\<rparr>) = attaching L i cm" "attaching L i (cm\<lparr>cm_fd := fd\<rparr>) = attaching L i cm"
  by (simp_all add: attaching_def conn_of_def)

lemma conn_of_frame: "cm_heap cm' i = cm_heap cm i \<Longrightarrow> conn_of cm' i = conn_of cm i"
  by (simp add: conn_of_def)

lemma packet_attaching:
  assumes at: "attaching L i cm" and st: "coremodel_process_packet p cm = Some (e, cm')"
  shows "attaching L i cm'"
proof -
  have ok: "attach_ok cm" "cm_ok cm" and ci: "cm_conn_if cm = Some i"
    using at by (simp_all add: attaching_def attach_ok_def)
  have ok': "attach_ok cm'" "cm_conn_if cm' = Some i" using process_packet_attach_ok [OF ok(1) st] ci by simp_all
  have same: "attaching L i cm'" if "cm_ifs cm' = cm_ifs cm" "i \<in> set L \<or> cm_ifs cm = i # L \<or> cm_heap cm' i = cm_heap cm i"
    using that at ok' conn_of_frame [of cm' i cm] by (auto simp: attaching_def)
  show ?thesis
  proof (cases "pk_conn p = CONN_QUERY")
    case True
    have "attaching L i cm'" if c: "coremodel_process_conn_response p cm = Some (e, cm')" "cm_query cm"
    proof -
      have "cm_ifs cm = L" "i \<notin> set L" using at ok(2) ci c(2) by (auto simp: attaching_def cm_ok_def)
      then show ?thesis
        using c ok' ci unfolding coremodel_process_conn_response_def attaching_def
        by (auto simp: Let_def conn_of_def split: Option.bind_split_asm if_split_asm)
    qed
    moreover have "attaching L i cm'" if "coremodel_process_list_response p cm = Some (e, cm')"
      using list_response_frame [OF that] by (intro same) simp_all
    ultimately show ?thesis
      using True st at by (auto simp: coremodel_process_packet_def split: if_splits)
  next
    case False
    then obtain found where f: "lookup_conn cm (pk_conn p) = Some found" "found = List.find (\<lambda>i. conn_of cm i = pk_conn p) (cm_ifs cm)"
      using lookup_conn_find [OF ok(2)] by blast
    obtain b h where cl: "calloc (cm_host cm) = (b, h)" by (cases "calloc (cm_host cm)")
    show ?thesis
    proof (cases "found = None \<or> \<not> b")
      case True
      then show ?thesis using False f(1) st at cl by (cases found) (auto simp: coremodel_process_packet_def)
    next
      case nf: False
      then obtain j where j: "found = Some j" and b by auto
      then have "j \<in> set (cm_ifs cm)" using f(2) by (auto simp: find_Some_iff)
      with False f(1) st cl j \<open>b\<close> obtain q cif where
        a: "advance_at j (cm\<lparr>cm_host := h, cm_heap := (cm_heap cm)(j \<mapsto>
              cif\<lparr>if_rxbufs := if_rxbufs cif @ [q], if_defer_pkt := (cm_conn_if cm = Some j)\<rparr>),
              cm_defer := cm_defer cm \<or> cm_conn_if cm = Some j\<rparr>) = Some cm'"
        by (auto simp: coremodel_process_packet_def Let_def split: Option.bind_splits)
      show ?thesis
      proof (rule same)
        show "cm_ifs cm' = cm_ifs cm" using advance_at_frame(1) [OF a] by simp
        show "i \<in> set L \<or> cm_ifs cm = i # L \<or> cm_heap cm' i = cm_heap cm i"
          using advance_at_frame(5) [OF a, of i] \<open>j \<in> set (cm_ifs cm)\<close> at by (auto simp: attaching_def)
      qed
    qed
  qed
qed

lemma flush_attaching:
  assumes "coremodel_defer_pkt_flush cm = Some cm'" "attaching L i cm" "cm_query cm"
  shows "attaching L i cm'"
proof -
  note fr = defer_flush_frame [OF assms(1) [unfolded coremodel_defer_pkt_flush_def]]
  have "cm_ifs cm = L" "i \<notin> set L" "cm_ok cm"
    using assms(2,3) by (auto simp: attaching_def attach_ok_def cm_ok_def)
  then show ?thesis
    using fr assms(2,3) conn_of_frame [of cm' i cm] by (auto simp: attaching_def attach_ok_def)
qed

lemma preparefds_attaching:
  fixes cm :: "'d cm"
  assumes "attaching L i cm" "cm_query cm"
  shows "case coremodel_preparefds n (r, cm) of
      Some (k, f, r', cm') \<Rightarrow> attaching L i cm' \<and> r' = r
    | None \<Rightarrow> \<exists>c :: 'd cm. attaching L i c \<and> coremodel_defer_pkt_flush c = None"
proof (cases "cm_fd cm < 0 \<or> \<not> cm_defer cm")
  case True
  then show ?thesis using assms unfolding coremodel_preparefds_def Let_def by auto
next
  case False
  let ?cm = "cm\<lparr>cm_host := (cm_host cm)\<lparr>h_need_wake := True, h_txflag := False\<rparr>\<rparr>"
  have a: "attaching L i ?cm" using assms(1) by simp
  show ?thesis
  proof (cases "coremodel_defer_pkt_flush ?cm")
    case None
    then have "coremodel_preparefds n (r, cm) = None" using False unfolding coremodel_preparefds_def Let_def by simp
    moreover have "\<exists>c :: 'd cm. attaching L i c \<and> coremodel_defer_pkt_flush c = None" using a None by blast
    ultimately show ?thesis by simp
  next
    case (Some c)
    then show ?thesis
      using flush_attaching [OF Some a] assms(2) False unfolding coremodel_preparefds_def Let_def by simp
  qed
qed

lemma mainloop_attaching:
  fixes cm :: "'d cm"
  shows "attaching L i cm \<Longrightarrow> ring_ok r \<Longrightarrow>
    (case coremodel_mainloop_int now end_us usec True rs (r, cm) of
       Some (Inl (r', cm')) \<Rightarrow> attaching L i cm' \<and> ring_ok r'
     | Some (Inr (res, r', cm')) \<Rightarrow> attaching L i cm' \<and> ring_ok r'
     | None \<Rightarrow> \<exists>r1 (c1 :: 'd cm). attaching L i c1 \<and> ring_ok r1 \<and> (rxq_stuck r1 c1 \<or> coremodel_defer_pkt_flush c1 = None))"
proof (induction rs arbitrary: now r cm)
  case Nil
  have "\<exists>r1 (c1 :: 'd cm). attaching L i c1 \<and> ring_ok r1 \<and> (rxq_stuck r1 c1 \<or> coremodel_defer_pkt_flush c1 = None)"
    if "coremodel_preparefds 0 (r, cm) = None" "cm_query cm"
    using preparefds_attaching [of L i cm r 0] Nil that by auto
  then show ?case
    using Nil preparefds_attaching [of L i cm r 0] unfolding coremodel_mainloop_int.simps [of _ _ _ _ _ r cm]
    by (cases "coremodel_preparefds 0 (r, cm)") auto
next
  case (Cons x rs)
  note st = coremodel_mainloop_int.simps [of now end_us usec True "x # rs" r cm]
  show ?case
  proof (cases "((usec < 0 \<or> now \<le> end_us) \<and> cm_query cm) \<and> coremodel_preparefds 0 (r, cm) \<noteq> None")
    case False
    have "\<exists>r1 (c1 :: 'd cm). attaching L i c1 \<and> ring_ok r1 \<and> (rxq_stuck r1 c1 \<or> coremodel_defer_pkt_flush c1 = None)"
      if "coremodel_preparefds 0 (r, cm) = None" "cm_query cm"
      using preparefds_attaching [OF Cons.prems(1), of r 0] Cons.prems that by auto
    then show ?thesis
      using Cons.prems False unfolding st by (cases "(usec < 0 \<or> now \<le> end_us) \<and> cm_query cm"; cases "coremodel_preparefds 0 (r, cm)") auto
  next
    case True
    then obtain k f r1 c1 where p: "coremodel_preparefds 0 (r, cm) = Some (k, f, r1, c1)" by auto
    have c1: "attaching L i c1" "ring_ok r1"
      using preparefds_attaching [OF Cons.prems(1), of r 0] True p Cons.prems(2) by simp_all
    let ?f = "\<lparr>fd_wake = fd_wake f \<and> fd_wake (r_fds x), fd_read = fd_read f \<and> fd_read (r_fds x),
               fd_write = fd_write f \<and> fd_write (r_fds x)\<rparr>"
    have k: "case coremodel_processfds ?f (r_reads x) (r_writes x) (r1, c1) of
        Some (res, r', cm') \<Rightarrow> attaching L i cm' \<and> ring_ok r'
      | None \<Rightarrow> \<exists>r1 (c1 :: 'd cm). attaching L i c1 \<and> ring_ok r1 \<and> rxq_stuck r1 c1"
      by (rule processfds_keeps [where P = "attaching L i"]) (use c1 packet_attaching in simp_all)
    show ?thesis
    proof (cases "coremodel_processfds ?f (r_reads x) (r_writes x) (r1, c1)")
      case None
      then show ?thesis using k True p unfolding st by auto
    next
      case (Some y)
      obtain q r2 c2 where y: "y = (q, r2, c2)" by (cases y)
      show ?thesis
        using k True p Some y Cons.IH [of c2 r2 "r_now x"] unfolding st by simp
    qed
  qed
qed

section \<open>Attaching and detaching leave no dangling pointer\<close>

lemma attach_start_ok:
  assumes "cm_ok cm"
  shows "attaching (cm_ifs cm) (cm_next cm) (cm\<lparr>cm_host := h, cm_heap := (cm_heap cm)(cm_next cm \<mapsto> new_if ty fn ifpriv),
    cm_next := Suc (cm_next cm), cm_conn_if := Some (cm_next cm), cm_query := True\<rparr>)"
proof -
  have "cm_next cm \<notin> set (cm_ifs cm)" using assms by (auto simp: cm_ok_def)
  then show ?thesis
    using assms unfolding attaching_def attach_ok_def cm_ok_def by (auto simp: less_Suc_eq conn_of_def new_if_def)
qed

text \<open>
  The end of an attach. When the main loop returned without an error it was a success, or the
  machine refused and the object is gone. After an error of the main loop the object is never
  freed (\<open>conn_if\<close> is cleared before \<open>free (conn_if)\<close>), and when the response had linked it
  already it stays in the list without an index.
\<close>

lemma attach_finish_ok:
  assumes a: "attaching L i cm"
  shows "\<exists>ok cm'. attach_finish i res cm = Some (ok, cm') \<and> cm_ok cm' \<and> cm_conn_if cm' = None \<and>
    (if ok then res = 0 \<and> cm_ifs cm' = i # L \<and> cm_heap cm' i \<noteq> None \<and> conn_of cm' i \<noteq> CONN_QUERY
     else if res = 0 then cm_ifs cm' = L \<and> cm_heap cm' i = None
     else cm_ifs cm' = cm_ifs cm \<and> cm_heap cm' i \<noteq> None \<and> conn_of cm' i = CONN_QUERY)"
proof -
  have i: "cm_conn_if cm = Some i" and ok: "attach_ok cm" using a by (simp_all add: attaching_def)
  obtain cif where cif: "cm_heap cm i = Some cif" using i ok by (auto simp: attach_ok_def cm_ok_def)
  have l: "cm_ifs cm = (if c_conn (if_core cif) = CONN_QUERY then L else i # L)"
    "c_conn (if_core cif) = CONN_QUERY \<Longrightarrow> i \<notin> set (cm_ifs cm)"
    using a i cif by (auto simp: attaching_def attach_ok_def conn_of_def)
  have c: "distinct (cm_ifs cm)" "\<forall>j \<in> set (cm_ifs cm). cm_heap cm j \<noteq> None"
    "\<forall>j. cm_heap cm j \<noteq> None \<longrightarrow> j < cm_next cm" using ok by (auto simp: attach_ok_def cm_ok_def)
  show ?thesis
  proof (cases "res = 0")
    case res: True
    show ?thesis
    proof (cases "c_conn (if_core cif) = CONN_QUERY")
      case True
      then show ?thesis
        using res cif l c i by (auto simp: attach_finish_def free_if_def cm_ok_def Let_def)
    next
      case False
      then show ?thesis using res cif l c i by (auto simp: attach_finish_def cm_ok_def Let_def conn_of_def)
    qed
  next
    case False
    then show ?thesis using cif c by (auto simp: attach_finish_def free_if_def cm_ok_def Let_def conn_of_def)
  qed
qed

lemma push_total: "wf_packet p \<Longrightarrow> \<exists>e h'. coremodel_push_packet p None h = Some (e, h')"
  using push_packet_ok [of p None "encode_packet p" h] push_packet_oom [of h]
  by (cases h rule: calloc_cases) (auto simp: push_body_def wf_packet_def encode_packet_def)

lemma attach_int_cases:
  fixes cm :: "'d cm"
  assumes ok: "cm_ok cm" "cm_conn_if cm = None" and r: "ring_ok r"
    and wf: "wf_packet (attach_request ty name addr subname flags)"
  shows "case coremodel_attach_int ty name addr subname fn ifpriv flags now rs (r, cm) of
      Some (Inr (Some i, r', cm')) \<Rightarrow> i = cm_next cm \<and> cm_ok cm' \<and> cm_conn_if cm' = None \<and> cm_ifs cm' = i # cm_ifs cm \<and>
        cm_heap cm' i \<noteq> None \<and> conn_of cm' i \<noteq> CONN_QUERY
    | Some (Inr (None, r', cm')) \<Rightarrow> cm_ok cm' \<and> cm_conn_if cm' = None \<and>
        (cm_ifs cm' = cm_ifs cm \<or> cm_ifs cm' = cm_next cm # cm_ifs cm \<and> conn_of cm' (cm_next cm) = CONN_QUERY)
    | Some (Inl (r', cm')) \<Rightarrow> attaching (cm_ifs cm) (cm_next cm) cm'
    | None \<Rightarrow> \<exists>r1 (c1 :: 'd cm). attaching (cm_ifs cm) (cm_next cm) c1 \<and> ring_ok r1 \<and>
        (rxq_stuck r1 c1 \<or> coremodel_defer_pkt_flush c1 = None)"
proof (cases "cm_query cm \<or> \<not> fst (calloc (cm_host cm))")
  case True
  then show ?thesis using ok by (auto simp: coremodel_attach_int_def split: prod.split)
next
  case False
  then obtain h where cl: "calloc (cm_host cm) = (True, h)" by (cases "calloc (cm_host cm)") auto
  obtain err h1 where pu: "coremodel_push_packet (attach_request ty name addr subname flags) None h = Some (err, h1)"
    using push_total [OF wf] by blast
  show ?thesis
  proof (cases err)
    case True
    then show ?thesis using ok False cl pu by (simp add: coremodel_attach_int_def)
  next
    case noerr: False
    let ?i = "cm_next cm"
    let ?cm = "cm\<lparr>cm_host := h1, cm_heap := (cm_heap cm)(?i \<mapsto> new_if ty fn ifpriv),
      cm_next := Suc ?i, cm_conn_if := Some ?i, cm_query := True\<rparr>"
    have st: "coremodel_attach_int ty name addr subname fn ifpriv flags now rs (r, cm) = do {
        out \<leftarrow> coremodel_mainloop_int now (now - 1) (- 1) True rs (r, ?cm);
        (case out of
           Inl s \<Rightarrow> Some (Inl s)
         | Inr (res, r, cm) \<Rightarrow> do {
             (ok, cm) \<leftarrow> attach_finish ?i res cm;
             Some (Inr (if ok then Some ?i else None, r, cm)) }) }"
      using False cl pu noerr by (simp add: coremodel_attach_int_def Let_def)
    note m = mainloop_attaching [OF attach_start_ok [OF ok(1), where h = h1 and ty = ty and fn = fn and ifpriv = ifpriv] r, where now = now and end_us = "now - 1" and usec = "- 1" and rs = rs]
    show ?thesis
    proof (cases "coremodel_mainloop_int now (now - 1) (- 1) True rs (r, ?cm)")
      case None
      then show ?thesis using m unfolding st by simp
    next
      case (Some out)
      show ?thesis
      proof (cases out)
        case (Inl s)
        then show ?thesis using m Some unfolding st by (cases s) simp
      next
        case (Inr y)
        obtain q r2 c2 where y: "y = (q, r2, c2)" by (cases y)
        have a: "attaching (cm_ifs cm) ?i c2" using m Some Inr y by simp
        then have l: "cm_ifs c2 = cm_ifs cm \<or> cm_ifs c2 = ?i # cm_ifs cm" by (auto simp: attaching_def)
        obtain b c3 where f: "attach_finish ?i q c2 = Some (b, c3)" "cm_ok c3" "cm_conn_if c3 = None"
          "if b then q = 0 \<and> cm_ifs c3 = ?i # cm_ifs cm \<and> cm_heap c3 ?i \<noteq> None \<and> conn_of c3 ?i \<noteq> CONN_QUERY
           else if q = 0 then cm_ifs c3 = cm_ifs cm \<and> cm_heap c3 ?i = None
           else cm_ifs c3 = cm_ifs c2 \<and> cm_heap c3 ?i \<noteq> None \<and> conn_of c3 ?i = CONN_QUERY"
          using attach_finish_ok [OF a, of q] by blast
        show ?thesis
        proof (cases b)
          case True
          then show ?thesis using Some Inr y f unfolding st by simp
        next
          case False
          then show ?thesis using Some Inr y f l unfolding st by (auto split: if_split_asm)
        qed
      qed
    qed
  qed
qed

corollary attach_int_safe:
  assumes "cm_ok cm" "cm_conn_if cm = None" "ring_ok r" "wf_packet (attach_request ty name addr subname flags)"
    "coremodel_attach_int ty name addr subname fn ifpriv flags now rs (r, cm) = Some (Inr (Some i, r', cm'))"
  shows "cm_ok cm' \<and> cm_conn_if cm' = None"
  using attach_int_cases [OF assms(1-4), of fn ifpriv now rs] assms(5) by simp

lemma disc_push: "\<exists>h'. push_ignoring (disc_request conn) None h = Some h' \<and> h_usr h' = h_usr h"
proof -
  have wf: "wf_packet (disc_request conn)" by (simp add: disc_request_def wf_packet_def)
  have b: "push_body (disc_request conn) None = Some (encode_packet (disc_request conn))"
    using wf by (simp add: push_body_def wf_packet_def encode_packet_def)
  obtain ok h1 where "calloc h = (ok, h1)" by (cases "calloc h")
  then show ?thesis
    using calloc_frame [of h ok h1] push_packet_ok [OF b, of h h1] wf push_packet_oom [of h h1]
    by (cases ok) (auto simp: push_ignoring_def wf_packet_def)
qed

text \<open>Detaching a live interface always works; afterwards nothing points to it.\<close>

lemma detach_result:
  assumes ok: "cm_ok cm" and i: "cm_heap cm i \<noteq> None"
  shows "\<exists>h. coremodel_detach (Some i) cm =
      Some (cm\<lparr>cm_ifs := removeAll i (cm_ifs cm), cm_host := h, cm_heap := (cm_heap cm)(i := None)\<rparr>) \<and>
    h_usr h = h_usr (cm_host cm)"
proof -
  obtain cif where c: "cm_heap cm i = Some cif" using i by auto
  obtain h where h: "push_ignoring (disc_request (c_conn (if_core cif))) None (cm_host cm) = Some h"
    "h_usr h = h_usr (cm_host cm)"
    using disc_push by blast
  have live: "\<forall>j \<in> set (cm_ifs cm). cm_heap cm j \<noteq> None" using ok by (simp add: cm_ok_def)
  then show ?thesis using c h by (intro exI [of _ h]) (simp add: coremodel_detach_def unlink_if_def free_if_def)
qed

lemma detach_live:
  assumes ok: "cm_ok cm" and i: "cm_heap cm i \<noteq> None" "cm_conn_if cm \<noteq> Some i"
  shows "\<exists>cm'. coremodel_detach (Some i) cm = Some cm' \<and> cm_ok cm' \<and> cm_heap cm' i = None \<and>
    cm_ifs cm' = removeAll i (cm_ifs cm)"
  using detach_result [OF ok i(1)] ok i by (auto simp: cm_ok_def distinct_removeAll)

text \<open>A handle that was detached already is a dangling pointer.\<close>

lemma detach_dead: "cm_heap cm i = None \<Longrightarrow> coremodel_detach (Some i) cm = None"
  by (simp add: coremodel_detach_def)

lemma detach_all_ok:
  "cm_ok cm \<Longrightarrow> \<forall>i. cm_conn_if cm = Some i \<longrightarrow> i \<notin> set (cm_ifs cm) \<Longrightarrow>
     \<exists>cm'. detach_all cm = Some cm' \<and> cm_ok cm' \<and> cm_ifs cm' = []"
proof (induction cm rule: detach_all.induct)
  case (1 cm)
  show ?case
  proof (cases "cm_ifs cm")
    case Nil
    then show ?thesis using 1 by (simp add: detach_all.simps [of cm])
  next
    case (Cons i "is")
    have "cm_heap cm i \<noteq> None" "cm_conn_if cm \<noteq> Some i" using 1(2,3) Cons by (auto simp: cm_ok_def)
    from detach_live [OF 1(2) this] obtain c1 where c1: "coremodel_detach (Some i) cm = Some c1" "cm_ok c1"
      "cm_ifs c1 = removeAll i (cm_ifs cm)" by blast
    have "cm_conn_if c1 = cm_conn_if cm"
      using c1(1) by (auto simp: coremodel_detach_def unlink_if_def free_if_def
          split: Option.bind_split_asm if_split_asm option.split_asm)
    then have "\<exists>cm'. detach_all c1 = Some cm' \<and> cm_ok cm' \<and> cm_ifs cm' = []"
      using 1(1) [OF Cons c1(1) c1(2)] 1(3) c1(3) by auto
    then show ?thesis using Cons c1 by (simp add: detach_all.simps [of cm])
  qed
qed

lemma detach_frame:
  "coremodel_detach (Some i) cm = Some cm' \<Longrightarrow> cm_list cm' = cm_list cm \<and> cm_conn_if cm' = cm_conn_if cm"
  by (auto simp: coremodel_detach_def unlink_if_def free_if_def
      split: Option.bind_split_asm if_split_asm option.split_asm)

lemma detach_all_frame:
  "detach_all cm = Some cm' \<Longrightarrow> cm_list cm' = cm_list cm \<and> cm_conn_if cm' = cm_conn_if cm"
proof (induction cm rule: detach_all.induct)
  case (1 cm)
  show ?case
  proof (cases "cm_ifs cm")
    case Nil
    then show ?thesis using 1 by (simp add: detach_all.simps [of cm])
  next
    case (Cons i "is")
    then obtain c1 where c1: "coremodel_detach (Some i) cm = Some c1" "detach_all c1 = Some cm'"
      using 1(2) by (auto simp: detach_all.simps [of cm] split: option.split_asm)
    then show ?thesis using 1(1) [OF Cons c1(1) c1(2)] detach_frame [OF c1(1)] by simp
  qed
qed

text \<open>Everything up to the release of the object itself works, and every interface is closed.\<close>

lemma disconnect_release_ok:
  assumes "cm_ok cm" "cm_conn_if cm = None" "coremodel_free_list (cm_list cm) = Some ()"
  shows "\<exists>r' cm'. disconnect_release (r, cm) = Some (r', cm') \<and> cm_ok cm' \<and> cm_ifs cm' = [] \<and>
    ring_used r' = 0 \<and> cm_fd cm' = - 1 \<and> h_txbufs (cm_host cm') = []"
proof -
  obtain c where c: "detach_all cm = Some c" "cm_ok c" "cm_ifs c = []"
    using detach_all_ok [OF assms(1)] assms(2) by auto
  with detach_all_frame [OF c(1)] assms show ?thesis
    by (auto simp: disconnect_release_def Let_def free_if_def cm_ok_def ring_used_def)
qed

text \<open>\<open>coremodel_disconnect\<close> goes on working on the object it has freed.\<close>

lemma disconnect_use_after_free: "coremodel_disconnect s = None"
  by (simp add: coremodel_disconnect_def coremodel_fini_def disconnect_tail_def)

end
