(* ===== verification/Handshake.thy ===== *)
theory Handshake
  imports Attach
begin

text \<open>
  An attach from the request to the answer: the rounds of the main loop in which the request
  leaves through the socket and the response of the virtual machine comes back.
\<close>

section \<open>Single rounds\<close>

abbreviation (input) prepared :: "'d cm \<Rightarrow> 'd cm" where
  "prepared cm \<equiv> cm\<lparr>cm_host := (cm_host cm)\<lparr>h_need_wake := True, h_txflag := False\<rparr>\<rparr>"

lemma preparefds_plain:
  assumes "0 \<le> cm_fd cm" "\<not> cm_defer cm" "unat (ring_used r) < RX_BUF"
  shows "\<exists>n. coremodel_preparefds k (r, cm) =
    Some (n, \<lparr>fd_wake = True, fd_read = True, fd_write = (h_txbufs (cm_host cm) \<noteq> [])\<rparr>, r, prepared cm)"
  using assms by (simp add: coremodel_preparefds_def Let_def)

lemma process_rxq_empty:
  "ring_ok r \<Longrightarrow> ring_bytes r = [] \<Longrightarrow> coremodel_process_rxq h (r, s) = Some (r, s)"
  using process_rxq_incomplete [of r h s] by (simp add: incomplete_def)

lemma ring_empty_used: "ring_ok r \<Longrightarrow> ring_bytes r = [] \<Longrightarrow> unat (ring_used r) < RX_BUF"
  by (metis gr_zeroI length_ring_bytes list.size(3) zero_neq_numeral)

text \<open>A round that only writes, and one that reads a single packet and can write nothing.\<close>

lemma round_write:
  assumes "ring_ok r" "ring_bytes r = []" "0 \<le> cm_fd cm"
    "write_loop ws (h_txbufs (cm_host cm)) = (None, out, ts)"
  shows "coremodel_processfds \<lparr>fd_wake = False, fd_read = False, fd_write = True\<rparr> [] ws (r, cm) =
    Some (0, r, cm\<lparr>cm_host := (cm_host cm)\<lparr>h_need_wake := False, h_txbufs := ts\<rparr>, cm_out := cm_out cm @ out\<rparr>)"
  using assms(3,4) by (simp add: coremodel_processfds_def process_rxq_empty [OF assms(1,2)] Let_def)

lemma round_packet_queued:
  assumes "ring_ok r" "ring_bytes r = []" "0 \<le> cm_fd cm" "wf_packet p" "wire_size p \<le> MAX_PKT"
    and h: "coremodel_process_packet p (cm\<lparr>cm_host := (cm_host cm)\<lparr>h_need_wake := False\<rparr>\<rparr>) = Some (False, cm')"
      "h_txbufs (cm_host cm') = [] \<or> h_txflag (cm_host cm')"
  shows "\<exists>r'. coremodel_processfds \<lparr>fd_wake = False, fd_read = True, fd_write = False\<rparr> [RData (wire_image p)] []
      (r, cm) = Some (0, r', cm') \<and> ring_ok r' \<and> ring_bytes r' = []"
proof -
  have "wire_image p \<noteq> []" using wire_image_ge_8 [OF assms(4)] assms(4)
    by (metis length_wire_image list.size(3) not_numeral_le_zero)
  then obtain r1 where r1: "read_loop [RData (wire_image p)] r = Some (None, r1)" "ring_ok r1"
    "ring_bytes r1 = stream [p] @ []"
    using read_loop_chunk [OF assms(1), of "wire_image p"] assms(2,4,5) by auto
  let ?cm = "cm\<lparr>cm_host := (cm_host cm)\<lparr>h_need_wake := False\<rparr>\<rparr>"
  have "deliver coremodel_process_packet [p] ?cm = Some ([], cm')" using h(1) assms(5) by simp
  then obtain r2 where "coremodel_process_rxq coremodel_process_packet (r1, ?cm) = Some (r2, cm')"
    "ring_ok r2" "ring_bytes r2 = []"
    using process_rxq_refines [OF r1(2,3), of coremodel_process_packet ?cm] assms(4)
    by (auto simp: incomplete_def)
  then show ?thesis using assms(3) r1(1) h(2) by (auto simp: coremodel_processfds_def Let_def)
qed

lemma round_packet:
  assumes "ring_ok r" "ring_bytes r = []" "0 \<le> cm_fd cm" "wf_packet p" "wire_size p \<le> MAX_PKT"
    "coremodel_process_packet p (cm\<lparr>cm_host := (cm_host cm)\<lparr>h_need_wake := False\<rparr>\<rparr>) = Some (False, cm')"
    "h_txbufs (cm_host cm') = []"
  shows "\<exists>r'. coremodel_processfds \<lparr>fd_wake = False, fd_read = True, fd_write = False\<rparr> [RData (wire_image p)] []
      (r, cm) = Some (0, r', cm') \<and> ring_ok r' \<and> ring_bytes r' = []"
  using round_packet_queued [OF assms(1-6)] assms(7) by simp

section \<open>The handshake of an attach\<close>

definition attach_rounds :: "wr_event list \<Rightarrow> packet \<Rightarrow> round list" where
  "attach_rounds ws p =
    [\<lparr>r_fds = \<lparr>fd_wake = False, fd_read = False, fd_write = True\<rparr>, r_reads = [], r_writes = ws, r_now = 0\<rparr>,
     \<lparr>r_fds = \<lparr>fd_wake = False, fd_read = True, fd_write = False\<rparr>, r_reads = [RData (wire_image p)],
       r_writes = [], r_now = 0\<rparr>]"

definition attached_if :: "u32 \<Rightarrow> 'd func \<Rightarrow> nat \<Rightarrow> u16 \<Rightarrow> u32 \<Rightarrow> 'd coremodel_if" where
  "attached_if ty fn ifpriv conn cred =
     (new_if ty fn ifpriv)\<lparr>if_core := (if_core (new_if ty fn ifpriv))\<lparr>c_conn := conn, c_cred := cred\<rparr>\<rparr>"

lemma mainloop_round:
  assumes "0 \<le> cm_fd cm" "\<not> cm_defer cm" "unat (ring_used r) < RX_BUF" "cm_query cm"
    "coremodel_processfds \<lparr>fd_wake = fd_wake (r_fds x), fd_read = fd_read (r_fds x),
       fd_write = h_txbufs (cm_host cm) \<noteq> [] \<and> fd_write (r_fds x)\<rparr> (r_reads x) (r_writes x) (r, prepared cm) =
       Some (0, s')"
  shows "coremodel_mainloop_int now e (- 1) True (x # rs) (r, cm) =
    coremodel_mainloop_int (r_now x) e (- 1) True rs s'"
  using preparefds_plain [OF assms(1-3), of 0] assms(4,5)
  by (subst coremodel_mainloop_int.simps) auto

text \<open>The answer, while its interface waits for it.\<close>

lemma conn_answer:
  assumes "cm_query cm" "cm_conn_if cm = Some i" "cm_heap cm i = Some (new_if ty fn ifpriv)"
    and p: "pk_conn p = CONN_QUERY" "pk_pkt p = PKT_QUERY_RSP_CONN" "pk_hflag p \<noteq> CONN_QUERY" "wf_packet p"
      "pk_data p = le_bytes 4 cred"
  shows "coremodel_process_packet p cm = Some (False, cm\<lparr>cm_query := False, cm_ifs := i # cm_ifs cm,
    cm_heap := (cm_heap cm)(i \<mapsto> attached_if ty fn ifpriv (pk_hflag p) cred)\<rparr>)"
proof -
  have "pk_len p \<ge> 12" using p(4,5) by (simp add: wf_packet_def word_le_nat_alt)
  moreover have "rd 4 (pk_data p) 0 = Some cred" using p(5) by (simp add: rd_def of_le_le_bytes_full)
  ultimately show ?thesis
    using assms by (simp add: coremodel_process_packet_def coremodel_process_conn_response_def Let_def
        attached_if_def)
qed

text \<open>
  The machine answers with a connection index and credits, in the round after the request went
  out: the attach returns the handle of a new interface with both, at the head of the list.
\<close>

lemma attach_answered_state:
  assumes cm: "\<not> cm_query cm" "0 \<le> cm_fd cm" "\<not> cm_defer cm" "h_oom (cm_host cm) = []"
    and r: "ring_ok r" "ring_bytes r = []"
    and q: "wf_packet (attach_request ty name addr subname flags)"
    and w: "write_loop ws (h_txbufs (host_push (attach_request ty name addr subname flags) (cm_host cm))) = (None, out, [])"
    and p: "pk_conn p = CONN_QUERY" "pk_pkt p = PKT_QUERY_RSP_CONN" "pk_hflag p \<noteq> CONN_QUERY" "wf_packet p"
      "pk_data p = le_bytes 4 cred"
  shows "\<exists>r' cm'. coremodel_attach_int ty name addr subname fn ifpriv flags now (attach_rounds ws p) (r, cm) =
      Some (Inr (Some (cm_next cm), r', cm')) \<and> ring_ok r' \<and> ring_bytes r' = [] \<and>
    cm_ifs cm' = cm_next cm # cm_ifs cm \<and> cm_out cm' = cm_out cm @ out \<and>
    cm_heap cm' = (cm_heap cm)(cm_next cm \<mapsto> attached_if ty fn ifpriv (pk_hflag p) cred) \<and>
    h_usr (cm_host cm') = h_usr (cm_host cm) \<and> cm_conn_if cm' = None \<and>
    cm_fd cm' = cm_fd cm \<and> h_txbufs (cm_host cm') = [] \<and> h_oom (cm_host cm') = [] \<and> \<not> cm_defer cm'"
proof -
  let ?q = "attach_request ty name addr subname flags" and ?i = "cm_next cm"
  let ?c0 = "cm\<lparr>cm_host := host_push ?q (cm_host cm), cm_heap := (cm_heap cm)(?i \<mapsto> new_if ty fn ifpriv),
    cm_next := Suc ?i, cm_conn_if := Some ?i, cm_query := True\<rparr>"
  let ?h1 = "(cm_host (prepared ?c0))\<lparr>h_need_wake := False, h_txbufs := []\<rparr>"
  let ?c1 = "(prepared ?c0)\<lparr>cm_host := ?h1, cm_out := cm_out cm @ out\<rparr>"
  let ?x1 = "hd (attach_rounds ws p)" and ?x2 = "hd (tl (attach_rounds ws p))"
  let ?e = "now - 1"
  have u: "unat (ring_used r) < RX_BUF" using r by (rule ring_empty_used)
  have tx: "h_txbufs (host_push ?q (cm_host cm)) \<noteq> []" by (simp add: host_push_def)
  have w1: "coremodel_processfds \<lparr>fd_wake = False, fd_read = False, fd_write = True\<rparr> [] ws (r, prepared ?c0) =
      Some (0, r, ?c1)"
    using round_write [OF r, of "prepared ?c0" ws out "[]"] cm w by simp
  have m1: "coremodel_mainloop_int now ?e (- 1) True [?x1, ?x2] (r, ?c0) =
      coremodel_mainloop_int 0 ?e (- 1) True [?x2] (r, ?c1)"
    using mainloop_round [of ?c0 r ?x1 "(r, ?c1)" now ?e "[?x2]"] cm u tx w1 by (simp add: attach_rounds_def)
  let ?c2 = "(prepared ?c1)\<lparr>cm_host := (cm_host (prepared ?c1))\<lparr>h_need_wake := False\<rparr>\<rparr>"
  let ?c3 = "?c2\<lparr>cm_query := False, cm_ifs := ?i # cm_ifs cm,
    cm_heap := (cm_heap ?c2)(?i \<mapsto> attached_if ty fn ifpriv (pk_hflag p) cred)\<rparr>"
  have a: "coremodel_process_packet p ?c2 = Some (False, ?c3)"
    using conn_answer [OF _ _ _ p, of ?c2 ?i ty fn ifpriv] by simp
  have ws: "wire_size p \<le> MAX_PKT" using p(4,5) by (simp add: wire_size_eq wf_packet_def)
  obtain r2 where r2: "coremodel_processfds \<lparr>fd_wake = False, fd_read = True, fd_write = False\<rparr>
      [RData (wire_image p)] [] (r, prepared ?c1) = Some (0, r2, ?c3)" "ring_ok r2" "ring_bytes r2 = []"
    using round_packet [OF r, of "prepared ?c1" p ?c3] cm p(4) ws a by auto
  have m2: "coremodel_mainloop_int 0 ?e (- 1) True [?x2] (r, ?c1) =
      coremodel_mainloop_int 0 ?e (- 1) True [] (r2, ?c3)"
    using mainloop_round [of ?c1 r ?x2 "(r2, ?c3)" 0 ?e "[]"] cm u r2(1) by (simp add: attach_rounds_def)
  have m3: "coremodel_mainloop_int 0 ?e (- 1) True [] (r2, ?c3) = Some (Inr (0, r2, ?c3))"
    by (subst coremodel_mainloop_int.simps) simp
  have f: "attach_finish ?i 0 ?c3 = Some (True, ?c3\<lparr>cm_conn_if := None\<rparr>)"
    using p(3) by (simp add: attach_finish_def attached_if_def Let_def)
  have x: "attach_rounds ws p = [?x1, ?x2]" by (simp add: attach_rounds_def)
  have "coremodel_attach_int ty name addr subname fn ifpriv flags now [?x1, ?x2] (r, cm) =
      Some (Inr (Some ?i, r2, ?c3\<lparr>cm_conn_if := None\<rparr>))"
    using cm q push_packet_self [OF q cm(4)] m1 m2 m3 f unfolding coremodel_attach_int_def Let_def by simp
  then show ?thesis using r2(2,3) x cm(3,4) by (intro exI [of _ r2] exI [of _ "?c3\<lparr>cm_conn_if := None\<rparr>"]) simp
qed

lemma attach_answered:
  assumes "\<not> cm_query cm" "0 \<le> cm_fd cm" "\<not> cm_defer cm" "h_oom (cm_host cm) = []" "ring_ok r" "ring_bytes r = []"
    "wf_packet (attach_request ty name addr subname flags)"
    "write_loop ws (h_txbufs (host_push (attach_request ty name addr subname flags) (cm_host cm))) = (None, out, [])"
    "pk_conn p = CONN_QUERY" "pk_pkt p = PKT_QUERY_RSP_CONN" "pk_hflag p \<noteq> CONN_QUERY" "wf_packet p"
    "pk_data p = le_bytes 4 cred"
  shows "\<exists>r' cm'. coremodel_attach_int ty name addr subname fn ifpriv flags now (attach_rounds ws p) (r, cm) =
      Some (Inr (Some (cm_next cm), r', cm')) \<and> ring_ok r' \<and> ring_bytes r' = [] \<and>
    cm_ifs cm' = cm_next cm # cm_ifs cm \<and> cm_out cm' = cm_out cm @ out \<and>
    cm_heap cm' = (cm_heap cm)(cm_next cm \<mapsto> attached_if ty fn ifpriv (pk_hflag p) cred)"
  using attach_answered_state [OF assms, of fn ifpriv now] by blast

end
