(* ===== verification/Clients.thy ===== *)
theory Clients
  imports Advance
begin

text \<open>
  The example clients (\<open>examples/uart\<close>, \<open>i2c\<close>, \<open>spi\<close>, \<open>eth\<close>, \<open>can\<close>, \<open>gpio\<close>, \<open>event\<close>): their
  callbacks, and the proofs that they meet the contracts of the interfaces they attach to.
  What a client prints is a list of \<open>out_item\<close>s, one per \<open>printf\<close> of a line, not its text.
\<close>

section \<open>Output\<close>

datatype out_item =
    OutChar byte | OutStart | OutWrite "byte list" | OutRead u32 | OutStop | OutXfr "byte list"
  | OutFrame "byte list" | OutRxRdy | OutCan "u64 \<times> u64" "byte list" | OutCanFailed | OutComplete int
  | OutGpio int int | OutEvent u64 u64 bool

definition say :: "out_item list \<Rightarrow> out_item list host \<Rightarrow> out_item list host" where
  "say xs h = h\<lparr>h_usr := h_usr h @ xs\<rparr>"

lemma say_simps [simp]: "h_usr (say xs h) = h_usr h @ xs" "h_oom (say xs h) = h_oom h"
  by (simp_all add: say_def)

section \<open>UART\<close>

definition test_uart_tx :: "nat \<Rightarrow> byte list \<Rightarrow> (int, out_item list) step" where
  "test_uart_tx priv data c h = Some (int (length data), c, say (map OutChar data) h)"

definition test_uart_func :: "out_item list uart_func" where
  "test_uart_func = \<lparr>uf_tx = Some test_uart_tx, uf_brk = Some (\<lambda>_ c h. Some ((), c, h)),
     uf_rxrdy = Some (\<lambda>_ c h. Some ((), c, h))\<rparr>"

text \<open>The characters printed so far.\<close>

definition printed :: "out_item list host \<Rightarrow> byte list" where
  "printed h = concat (map (\<lambda>x. case x of OutChar b \<Rightarrow> [b] | _ \<Rightarrow> []) (h_usr h))"

interpretation uart_test: tx_sink test_uart_tx printed
  by unfold_locales (auto simp: test_uart_tx_def printed_def comp_def)

section \<open>I2C\<close>

definition test_i2c_start :: "out_item list \<Rightarrow> (int \<times> out_item list) option" where
  "test_i2c_start d = Some (1, d @ [OutStart])"

definition test_i2c_write :: "byte list \<Rightarrow> out_item list \<Rightarrow> (int \<times> out_item list) option" where
  "test_i2c_write data d = Some (int (length data), d @ [OutWrite data])"

definition test_i2c_read :: "u32 \<Rightarrow> out_item list \<Rightarrow> ((int \<times> byte list) \<times> out_item list) option" where
  "test_i2c_read len d =
     Some ((sint len, map (\<lambda>idx. 0xA0 + (of_nat idx AND 0x3F)) [0..<unat len]), d @ [OutRead len])"

definition test_i2c_stop :: "out_item list \<Rightarrow> (unit \<times> out_item list) option" where
  "test_i2c_stop d = Some ((), d @ [OutStop])"

interpretation i2c_test: i2c_device test_i2c_start test_i2c_write test_i2c_read test_i2c_stop "\<lambda>_. True"
  by unfold_locales
    (simp_all add: test_i2c_start_def test_i2c_write_def test_i2c_read_def test_i2c_stop_def
      sint_small_u32 unat_of_nat_u32)

section \<open>SPI\<close>

definition test_spi_cs :: "u32 \<Rightarrow> out_item list \<Rightarrow> (unit \<times> out_item list) option" where
  "test_spi_cs csel d = Some ((), d)"

definition test_spi_xfr :: "byte list \<Rightarrow> out_item list \<Rightarrow> ((int \<times> byte list) \<times> out_item list) option" where
  "test_spi_xfr wrdata d =
     Some ((int (length wrdata), map (\<lambda>idx. 0x41 + (of_nat idx AND 63)) [0..<length wrdata]), d @ [OutXfr wrdata])"

interpretation spi_test: spi_device test_spi_cs test_spi_xfr "\<lambda>_. True"
  by unfold_locales (simp_all add: test_spi_cs_def test_spi_xfr_def)

section \<open>Ethernet\<close>

text \<open>The global \<open>handle\<close> is the interface the callback runs on. The frame is sent back.\<close>

definition test_eth_tx :: "nat \<Rightarrow> byte list \<Rightarrow> (int, out_item list) step" where
  "test_eth_tx priv data c h = do {
     (_, handle, h) \<leftarrow> coremodel_eth_rx (Some c) (of_nat (length data)) data (say [OutFrame data] h);
     c \<leftarrow> handle;
     Some (int (length data), c, h) }"

definition test_eth_rxrdy :: "nat \<Rightarrow> (unit, out_item list) step" where
  "test_eth_rxrdy priv c h = Some ((), c, say [OutRxRdy] h)"

definition test_eth_func :: "out_item list eth_func" where
  "test_eth_func = \<lparr>ef_tx = Some test_eth_tx, ef_rxrdy = Some test_eth_rxrdy\<rparr>"

definition dumped :: "out_item list host \<Rightarrow> byte list" where
  "dumped h = concat (map (\<lambda>x. case x of OutFrame f \<Rightarrow> f | _ \<Rightarrow> []) (h_usr h))"

lemma test_eth_tx_cases:
  assumes "length d < 65528"
  shows "\<exists>c' h'. test_eth_tx p d c h = Some (int (length d), c', h') \<and> cb_frame c c' \<and> h_usr h' = h_usr h @ [OutFrame d]"
proof (cases "c_cred c = 0")
  case True
  then show ?thesis by (simp add: test_eth_tx_def coremodel_eth_rx_def Let_def)
next
  case False
  have n: "unat (of_nat (length d) :: u32) = length d" using assms by (simp add: unat_of_nat_u32)
  obtain ok h1 where cl: "calloc (say [OutFrame d] h) = (ok, h1)" by (cases "calloc (say [OutFrame d] h)")
  have u: "h_usr h1 = h_usr h @ [OutFrame d]" using calloc_frame(5) [OF cl] by simp
  show ?thesis
  proof (cases ok)
    case True
    with cl have cl1: "calloc (say [OutFrame d] h) = (True, h1)" by simp
    show ?thesis
      using eth_rx_sends [OF False _ _ cl1, of "of_nat (length d)" d] n assms u
      by (simp add: test_eth_tx_def cb_frame_def)
  next
    case nok: False
    then show ?thesis
      using False cl u by (simp add: test_eth_tx_def coremodel_eth_rx_def Let_def push_packet_oom)
  qed
qed

interpretation eth_test: tx_sink test_eth_tx dumped
proof
  fix d :: "byte list" and p c h
  assume "d \<noteq> []" and l: "length d < 65528"
  with test_eth_tx_cases [OF l, of p c h]
  show "\<exists>c' h'. test_eth_tx p d c h = Some (int (length d), c', h') \<and> cb_frame c c' \<and> dumped h' = dumped h @ d"
    by (auto simp: dumped_def)
qed

text \<open>With a credit and memory, the frame comes back as one packet to the virtual machine.\<close>

lemma test_eth_tx_echo:
  assumes "c_cred c \<noteq> 0" "h_oom h = []" "length d < 65528"
  shows "test_eth_tx p d c h = Some (int (length d), c\<lparr>c_cred := c_cred c - 1\<rparr>,
    host_push (eth_rx_packet c d) (say [OutFrame d] h))"
  using eth_rx_sends [of c "of_nat (length d)" d "say [OutFrame d] h" "say [OutFrame d] h"] assms
  by (simp add: test_eth_tx_def unat_of_nat_u32)

lemma eth_echo:
  assumes p: "pk_pkt p = PKT_ETH_TX" "wf_packet p" "pk_data p \<noteq> []"
    and c: "\<not> c_busy c" "c_offs c = 0" "c_cred c \<noteq> 0" and h: "h_oom h = []"
  shows "coremodel_advance_if_eth test_eth_func p c h = Some (0, c\<lparr>c_cred := c_cred c - 1\<rparr>,
    host_push (eth_rx_packet c (pk_data p)) (say [OutFrame (pk_data p)] h))"
proof -
  define g where "g = \<lparr>uf_tx = Some test_eth_tx, uf_brk = None, uf_rxrdy = None\<rparr>"
  let ?c = "c\<lparr>c_cred := c_cred c - 1\<rparr>"
  have e: "coremodel_advance_if_eth test_eth_func p c h = coremodel_advance_if_uart g p c h"
    using p(1) by (rule eth_tx_is_uart_tx) (simp add: g_def test_eth_func_def)
  have t: "test_eth_tx (c_priv c) (drop (unat (c_offs c)) (pk_data p)) c h = Some (int (length (pk_data p)), ?c,
      host_push (eth_rx_packet c (pk_data p)) (say [OutFrame (pk_data p)] h))"
    using test_eth_tx_echo [OF c(3) h wf_packet_data_bound [OF p(2)]] c(2) by simp
  have "?c\<lparr>c_offs := 0\<rparr> = ?c" using c(2) by simp
  then show ?thesis
    unfolding e using uart_tx_step [where f = g and tx = test_eth_tx, OF p(1,2) c(1) _ _ t] p(3) c(2)
    by (simp add: g_def cb_frame_def)
qed

section \<open>CAN\<close>

text \<open>The client's own table; a code of 16 or more is outside it. The global \<open>send_dummy\<close> is 1.\<close>

definition can_datalen :: "nat list" where
  "can_datalen = [0, 1, 2, 3, 4, 5, 6, 7, 8, 12, 16, 20, 24, 32, 48, 64]"

definition test_can_tx :: "nat \<Rightarrow> u64 \<times> u64 \<Rightarrow> byte list \<Rightarrow> (int, out_item list) step" where
  "test_can_tx priv ctrl data c h = do {
     dlen \<leftarrow> (if can_dlc (fst ctrl) < 16 then Some (can_datalen ! can_dlc (fst ctrl)) else None);
     d \<leftarrow> (if dlen \<le> length data then Some (take dlen data) else None);
     (res, handle, h) \<leftarrow> coremodel_can_rx (Some c) (8 OR push_bit 36 0x123, 0)
        (Some [0xDE, 0xAD, 0xBE, 0xEF, 0xCA, 0xFE, 0xBA, 0xBE]) (say [OutCan ctrl d] h);
     c \<leftarrow> handle;
     Some (CAN_ACK, c, if res \<noteq> 0 then say [OutCanFailed] h else h) }"

definition test_can_rxcomplete :: "nat \<Rightarrow> int \<Rightarrow> (unit, out_item list) step" where
  "test_can_rxcomplete priv nak c h = Some ((), c, say [OutComplete nak] h)"

definition test_can_func :: "out_item list can_func" where
  "test_can_func = \<lparr>cf_tx = Some test_can_tx, cf_rxcomplete = Some test_can_rxcomplete\<rparr>"

definition can_classic :: "u64 \<times> u64 \<Rightarrow> bool" where
  "can_classic ctrl \<longleftrightarrow> can_dlc (fst ctrl) < 16"

lemma can_dlen_response: "can_dlen 19997367730184 = 8"
  by (simp add: can_dlen_def can_dlc_def coremodel_can_datalen_def)

interpretation can_test: can_node test_can_tx can_classic
proof
  fix ctrl and bs :: "byte list" and p c and h :: "out_item list host"
  assume f: "can_classic ctrl" and l: "length bs = can_dlen (fst ctrl)" and o: "h_oom h = []"
  have d: "can_datalen ! can_dlc (fst ctrl) = length bs"
    using f l by (simp add: can_classic_def can_dlen_def can_datalen_def coremodel_can_datalen_def)
  show "\<exists>res c' h'. test_can_tx p ctrl bs c h = Some (res, c', h') \<and> res \<noteq> CAN_STALL \<and> cb_frame c c' \<and> h_oom h' = []"
  proof (cases "c_ebusy c = 0")
    case True
    then show ?thesis
      using f d o by (simp add: test_can_tx_def can_classic_def can_rx_sends can_dlen_response cb_frame_def Let_def)
  next
    case False
    then show ?thesis using f d o by (simp add: test_can_tx_def can_classic_def can_rx_refuses)
  qed
qed

text \<open>
  What the client does with a frame, in full: it prints it and sends a frame of its own, or, when the
  acknowledgement of the last one is still due, prints that it could not. The answer is an
  acknowledgement in either case.
\<close>

abbreviation (input) test_can_reply :: "core \<Rightarrow> packet" where
  "test_can_reply c \<equiv> can_frame c (8 OR push_bit 36 0x123, 0) [0xDE, 0xAD, 0xBE, 0xEF, 0xCA, 0xFE, 0xBA, 0xBE]"

lemma test_can_tx_result:
  assumes "can_classic ctrl" "length bs = can_dlen (fst ctrl)" "h_oom h = []"
  shows "test_can_tx p ctrl bs c h =
    (if c_ebusy c = 0
     then Some (CAN_ACK, c\<lparr>c_trnidx := (c_trnidx c + 1) AND 255, c_ebusy := 1\<rparr>,
       host_push (test_can_reply (c\<lparr>c_trnidx := (c_trnidx c + 1) AND 255\<rparr>)) (say [OutCan ctrl bs] h))
     else Some (CAN_ACK, c, say [OutCan ctrl bs, OutCanFailed] h))"
proof -
  have d: "can_datalen ! can_dlc (fst ctrl) = length bs"
    using assms(1,2) by (simp add: can_classic_def can_dlen_def can_datalen_def coremodel_can_datalen_def)
  show ?thesis
  proof (cases "c_ebusy c = 0")
    case True
    then show ?thesis
      using assms d by (simp add: test_can_tx_def can_classic_def can_rx_sends can_dlen_response Let_def)
  next
    case False
    then show ?thesis using assms d by (simp add: test_can_tx_def can_classic_def can_rx_refuses say_def)
  qed
qed

section \<open>GPIO and events\<close>

text \<open>\<open>priv\<close> points to the pin's number; here it is the number.\<close>

definition test_gpio_notify :: "nat \<Rightarrow> int \<Rightarrow> (unit, out_item list) step" where
  "test_gpio_notify priv mvolt c h = Some ((), c, say [OutGpio (int priv) mvolt] h)"

definition test_event_update :: "nat \<Rightarrow> u64 \<Rightarrow> u64 \<Rightarrow> bool \<Rightarrow> (unit, out_item list) step" where
  "test_event_update priv data0 data1 initial c h = Some ((), c, say [OutEvent data0 data1 initial] h)"

text \<open>What the client signals is what it is told when the machine updates the event with the same data.\<close>

lemma event_returns:
  assumes "h_oom h = []"
  shows "\<exists>q. coremodel_event_signal (Some c) d0 d1 chgonly h = Some (host_push q h) \<and> wf_packet q \<and>
    (\<forall>u c' h'. pk_pkt u = PKT_EVENT_UPDATE \<longrightarrow> pk_bflag u = EVENT_UPDATE_NORMAL \<longrightarrow> wf_packet u \<longrightarrow>
       pk_data u = pk_data q \<longrightarrow>
       coremodel_advance_if_event \<lparr>vf_update = Some test_event_update, vf_atresp = None\<rparr> u c' h' =
         Some (0, c', say [OutEvent d0 d1 False] h'))"
proof -
  let ?q = "event_packet c (if chgonly \<noteq> 0 then EVENT_SIGNAL_CHANGE else 0) d0 d1"
  have d: "pk_data ?q = le_bytes 8 d0 @ le_bytes 8 d1 @ []" "wf_packet ?q"
    by (simp_all add: event_packet_def wf_packet_def)
  have u: "coremodel_advance_if_event \<lparr>vf_update = Some test_event_update, vf_atresp = None\<rparr> u c' h' =
      Some (0, c', say [OutEvent d0 d1 False] h')"
    if "pk_pkt u = PKT_EVENT_UPDATE" "pk_bflag u = EVENT_UPDATE_NORMAL" "wf_packet u" "pk_data u = pk_data ?q" for u c' h'
    using event_update [OF that(1,3) that(4) [unfolded d(1)], of "\<lparr>vf_update = Some test_event_update, vf_atresp = None\<rparr>"
        test_event_update c' h' c' "say [OutEvent d0 d1 False] h'"] that(2) by (simp add: test_event_update_def)
  show ?thesis using event_signal_sends [OF assms] d(2) u by blast
qed

text \<open>
  \<open>examples/gpio/coremodel-blinky.c\<close>: pin 15 ends the program, pin 16 drives pin 17 with its
  complement. A pin's handle is the interface it was attached to.
\<close>

record blinky_pin =
  pin_handle :: "core option"
  pin_mvolt :: int

record coremodel_gpio_state =
  bl_pin :: "blinky_pin list"
  bl_live :: bool

definition blinky_notify :: "nat \<Rightarrow> int \<Rightarrow> (unit, coremodel_gpio_state) step" where
  "blinky_notify pin_idx mvolt c h = do {
     let state = h_usr h;
     _ \<leftarrow> (if pin_idx < length (bl_pin state) then Some () else None);
     h \<leftarrow> (if pin_idx = 15 then
             Some (if mvolt \<noteq> 0 then h\<lparr>h_usr := state\<lparr>bl_live := False\<rparr>\<rparr> else h)
           else if pin_idx = 16 then
             if 17 < length (bl_pin state) then
               if pin_handle (bl_pin state ! 17) \<noteq> None
               then coremodel_gpio_set (pin_handle (bl_pin state ! 17)) 1 (if mvolt \<noteq> 0 then 0 else 3300) h
               else Some h
             else None
           else Some h);
     let state = h_usr h;
     Some ((), c, h\<lparr>h_usr := state\<lparr>bl_pin :=
       (bl_pin state)[pin_idx := (bl_pin state ! pin_idx)\<lparr>pin_mvolt := mvolt\<rparr>]\<rparr>\<rparr>) }"

lemma blinky_complement:
  assumes "length (bl_pin (h_usr h)) = 54" "pin_handle (bl_pin (h_usr h) ! 17) = Some c17" "h_oom h = []"
  shows "\<exists>d'. blinky_notify 16 mvolt c h =
    Some ((), c, (host_push (gpio_force c17 True (if mvolt \<noteq> 0 then 0 else 3300)) h)\<lparr>h_usr := d'\<rparr>) \<and>
    pin_mvolt (bl_pin d' ! 16) = mvolt"
  using assms unfolding blinky_notify_def Let_def
  by (intro exI [of _ "h_usr h\<lparr>bl_pin := (bl_pin (h_usr h))
      [16 := (bl_pin (h_usr h) ! 16)\<lparr>pin_mvolt := mvolt\<rparr>]\<rparr>"]) (auto simp: gpio_set_sends)

end
