(* ===== verification/Ds3231.thy ===== *)
theory Ds3231
  imports Advance "HOL-Library.Signed_Division"
begin

text \<open>
  \<open>examples/i2c-ds3231-rtc/i2c-ds3231.c\<close>: a real-time clock with two alarms behind the I2C
  interface. The results of \<open>time\<close> are the list \<open>ds_clock\<close> of the state; \<open>localtime\<close>, which
  depends on the host's time zone, is a parameter. What the code prints is not modelled.
\<close>

section \<open>State\<close>

record tm =
  tm_sec :: int
  tm_min :: int
  tm_hour :: int
  tm_mday :: int
  tm_mon :: int
  tm_year :: int
  tm_wday :: int

record ds3231_state =
  ds_clock :: "int list"
  system_time :: int
  ds_index :: u8
  ds_start :: u8
  twelve_hour_flag :: u8
  Alarm1_Sec :: u8
  Alarm1_Min :: u8
  Alarm1_Hours :: u8
  Alarm1_DayDate :: u8
  Alarm2_Min :: u8
  Alarm2_Hours :: u8
  Alarm2_DayDate :: u8
  ds_control :: u8
  ds_status :: u8
  ds_aging :: u8

definition ds3231_init :: "int \<Rightarrow> int list \<Rightarrow> ds3231_state" where
  "ds3231_init now clock =
    \<lparr>ds_clock = clock, system_time = now, ds_index = 0, ds_start = 0, twelve_hour_flag = 0,
     Alarm1_Sec = 0, Alarm1_Min = 0, Alarm1_Hours = 0, Alarm1_DayDate = 1,
     Alarm2_Min = 0, Alarm2_Hours = 0, Alarm2_DayDate = 1,
     ds_control = 0x1C, ds_status = 0x88, ds_aging = 0\<rparr>"

section \<open>BCD\<close>

text \<open>C's \<open>/\<close> and \<open>%\<close> truncate; \<open><< 4\<close> of a negative value is a multiplication, as the compilers have it.\<close>

definition format_7bit_bcd :: "int \<Rightarrow> int" where
  "format_7bit_bcd v = (v sdiv 10 * 16 + v smod 10) AND 0x7F"

definition format_6bit_bcd :: "int \<Rightarrow> int" where
  "format_6bit_bcd v = format_7bit_bcd v AND 0x3F"

definition format_5bit_bcd :: "int \<Rightarrow> int" where
  "format_5bit_bcd v = format_7bit_bcd v AND 0x1F"

section \<open>Start: reading the clock and raising alarms\<close>

definition hours_12 :: "tm \<Rightarrow> int" where
  "hours_12 t = (if tm_hour t > 11 then format_5bit_bcd (tm_hour t - 12) + 0x60
                 else format_5bit_bcd (tm_hour t - 12) + 0x40)"

definition alarm_hours :: "ds3231_state \<Rightarrow> tm \<Rightarrow> u8 \<Rightarrow> bool" where
  "alarm_hours st t hours =
    (if twelve_hour_flag st > 0 then uint (hours AND 0x7F) = hours_12 t
     else uint (hours AND 0x7F) = format_6bit_bcd (tm_hour t))"

definition alarm_day :: "tm \<Rightarrow> u8 \<Rightarrow> bool" where
  "alarm_day t daydate =
    (if daydate AND 0x40 > 0 then uint (daydate AND 0x3F) = tm_wday t + 1
     else uint (daydate AND 0x3F) = format_6bit_bcd (tm_mday t))"

definition alarm1 :: "ds3231_state \<Rightarrow> int \<Rightarrow> tm \<Rightarrow> bool" where
  "alarm1 st old_second t =
    (if Alarm1_Sec st AND 0x80 > 0 then old_second \<noteq> format_7bit_bcd (tm_sec t)
     else if Alarm1_Min st AND 0x80 > 0 then uint (Alarm1_Sec st AND 0x7F) = format_7bit_bcd (tm_sec t)
     else if Alarm1_Hours st AND 0x80 > 0 then uint (Alarm1_Min st AND 0x7F) = format_7bit_bcd (tm_min t)
     else if Alarm1_DayDate st AND 0x80 > 0 then alarm_hours st t (Alarm1_Hours st)
     else alarm_day t (Alarm1_DayDate st))"

definition alarm2 :: "ds3231_state \<Rightarrow> int \<Rightarrow> tm \<Rightarrow> bool" where
  "alarm2 st old_minute t =
    (if Alarm2_Min st AND 0x80 > 0 then old_minute \<noteq> format_7bit_bcd (tm_min t)
     else if Alarm2_Hours st AND 0x80 > 0 then uint (Alarm2_Min st AND 0x7F) = format_7bit_bcd (tm_min t)
     else if Alarm2_DayDate st AND 0x80 > 0 then alarm_hours st t (Alarm2_Hours st)
     else alarm_day t (Alarm2_DayDate st))"

definition i2c_ds3231_start :: "(int \<Rightarrow> tm) \<Rightarrow> ds3231_state \<Rightarrow> (int \<times> ds3231_state) option" where
  "i2c_ds3231_start localtime st =
    (let old = localtime (system_time st);
         st = (case ds_clock st of [] \<Rightarrow> st | now # ts \<Rightarrow> st\<lparr>system_time := now, ds_clock := ts\<rparr>);
         st = st\<lparr>ds_start := 1\<rparr>;
         t = localtime (system_time st);
         st = (if alarm1 st (tm_sec old) t then st\<lparr>ds_status := ds_status st OR 1\<rparr> else st);
         st = (if alarm2 st (tm_min old) t then st\<lparr>ds_status := ds_status st OR 2\<rparr> else st) in
     Some (1, st))"

section \<open>Write\<close>

text \<open>The status register: \<open>temp\<close> is the local variable, set to \<open>0x80\<close> once per call.\<close>

definition ds_write_status :: "u8 \<Rightarrow> u8 \<Rightarrow> ds3231_state \<Rightarrow> u8 \<times> ds3231_state" where
  "ds_write_status temp b st =
    (let temp = (if b AND 8 > 0 then 8 else temp);
         temp = (if b AND 2 > 0 then temp + (ds_status st AND 2) else temp);
         temp = (if b AND 1 > 0 then temp + (ds_status st AND 1) else temp) in
     (temp, st\<lparr>ds_status := temp\<rparr>))"

definition ds_write_reg :: "nat \<Rightarrow> u8 \<Rightarrow> u8 \<Rightarrow> ds3231_state \<Rightarrow> u8 \<times> ds3231_state" where
  "ds_write_reg offset temp b st =
    (if offset = 2 then (temp, st\<lparr>twelve_hour_flag := (if b AND 0x40 > 0 then 1 else 0)\<rparr>)
     else if offset = 7 then (temp, st\<lparr>Alarm1_Sec := b\<rparr>)
     else if offset = 8 then (temp, st\<lparr>Alarm1_Min := b\<rparr>)
     else if offset = 9 then (temp, st\<lparr>Alarm1_Hours := b\<rparr>)
     else if offset = 0xA then (temp, st\<lparr>Alarm1_DayDate := b\<rparr>)
     else if offset = 0xB then (temp, st\<lparr>Alarm2_Min := b\<rparr>)
     else if offset = 0xC then (temp, st\<lparr>Alarm2_Hours := b\<rparr>)
     else if offset = 0xD then (temp, st\<lparr>Alarm1_DayDate := b\<rparr>)
     else if offset = 0xE then (temp, st\<lparr>ds_control := b AND 0x1F\<rparr>)
     else if offset = 0xF then ds_write_status temp b st
     else if offset = 0x10 then (temp, st\<lparr>ds_aging := b\<rparr>)
     else (temp, st))"

text \<open>The loop from \<open>idx\<close>, with the bytes still to write; the result has the last offset.\<close>

fun ds_write_loop ::
  "nat \<Rightarrow> byte list \<Rightarrow> nat option \<Rightarrow> u8 \<Rightarrow> ds3231_state \<Rightarrow> nat option \<times> ds3231_state" where
  "ds_write_loop idx [] offset temp st = (offset, st)"
| "ds_write_loop idx (b # bs) offset temp st =
     (let offset = (idx + unat (ds_index st)) mod 0x13; (temp, st) = ds_write_reg offset temp b st in
      ds_write_loop (Suc idx) bs (Some offset) temp st)"

text \<open>An \<open>offset\<close> that was never set is an uninitialised variable.\<close>

definition i2c_ds3231_write :: "byte list \<Rightarrow> ds3231_state \<Rightarrow> (int \<times> ds3231_state) option" where
  "i2c_ds3231_write data st =
    (let len = int (length data) in
     if ds_start st = 1 then
       (case data of
          [] \<Rightarrow> None
        | reg # bs \<Rightarrow>
            let st = st\<lparr>ds_index := reg, ds_start := 0\<rparr> in
            if bs = [] then Some (len, st)
            else (case ds_write_loop 1 bs None 0x80 st of
                    (None, st) \<Rightarrow> None
                  | (Some offset, st) \<Rightarrow> Some (len, st\<lparr>ds_index := of_nat ((offset + 1) mod 0x13)\<rparr>)))
     else (case ds_write_loop 0 data None 0x80 st of
             (None, st) \<Rightarrow> None
           | (Some offset, st) \<Rightarrow> Some (len, st\<lparr>ds_index := of_nat ((offset + 1) mod 0x13)\<rparr>)))"

section \<open>Read\<close>

definition ds_read_reg :: "(int \<Rightarrow> tm) \<Rightarrow> ds3231_state \<Rightarrow> nat \<Rightarrow> u8" where
  "ds_read_reg localtime st offset =
    (let t = localtime (system_time st) in
     if offset = 0 then word_of_int (format_7bit_bcd (tm_sec t))
     else if offset = 1 then word_of_int (format_7bit_bcd (tm_min t))
     else if offset = 2 then
       word_of_int (if twelve_hour_flag st > 0 then hours_12 t else format_6bit_bcd (tm_hour t))
     else if offset = 3 then word_of_int (tm_wday t + 1)
     else if offset = 4 then word_of_int (format_6bit_bcd (tm_mday t))
     else if offset = 5 then word_of_int ((tm_year t sdiv 100) * 128 + format_5bit_bcd (tm_mon t + 1))
     else if offset = 6 then
       word_of_int (((tm_year t smod 100) sdiv 10) * 16 + tm_year t smod 10)
     else if offset = 7 then Alarm1_Sec st
     else if offset = 8 then Alarm1_Min st
     else if offset = 9 then Alarm1_Hours st
     else if offset = 0xA then Alarm1_DayDate st
     else if offset = 0xB then Alarm2_Min st
     else if offset = 0xC then Alarm2_Hours st
     else if offset = 0xD then Alarm1_DayDate st
     else if offset = 0xE then ds_control st
     else if offset = 0xF then ds_status st
     else if offset = 0x10 then ds_aging st
     else if offset = 0x11 then 0x19
     else 0x40)"

definition i2c_ds3231_read ::
  "(int \<Rightarrow> tm) \<Rightarrow> u32 \<Rightarrow> ds3231_state \<Rightarrow> ((int \<times> byte list) \<times> ds3231_state) option" where
  "i2c_ds3231_read localtime len st =
    (let offs = (\<lambda>idx. (idx + unat (ds_index st)) mod 0x13);
         data = map (\<lambda>idx. ds_read_reg localtime st (offs idx)) [0..<unat len] in
     if len = 0 then None
     else Some ((sint len, data), st\<lparr>ds_index := of_nat ((offs (unat len - 1) + 1) mod 0x13)\<rparr>))"

definition i2c_ds3231_stop :: "ds3231_state \<Rightarrow> (unit \<times> ds3231_state) option" where
  "i2c_ds3231_stop st = Some ((), st)"

section \<open>The clock meets the I2C contract\<close>

lemma ds_write_loop_offset:
  "ds_write_loop idx bs (Some n) temp st = (off, st') \<Longrightarrow> off \<noteq> None"
proof (induction bs arbitrary: idx n temp st)
  case Nil
  then show ?case by auto
next
  case (Cons b bs)
  then show ?case by (auto simp: Let_def split: prod.split_asm)
qed

lemma ds_write_loop_some: "bs \<noteq> [] \<Longrightarrow> \<exists>off st'. ds_write_loop idx bs None temp st = (Some off, st')"
  using ds_write_loop_offset
  by (cases bs) (auto simp: Let_def split: prod.splits, metis option.exhaust surj_pair)

lemma ds3231_device:
  "i2c_device (i2c_ds3231_start lt) i2c_ds3231_write (i2c_ds3231_read lt) i2c_ds3231_stop (\<lambda>_. True)"
proof
  fix d :: ds3231_state and bs :: "byte list" and n :: nat
  show "\<exists>d'. i2c_ds3231_start lt d = Some (1, d') \<and> True" by (simp add: i2c_ds3231_start_def Let_def)
  show "\<exists>d'. i2c_ds3231_stop d = Some ((), d') \<and> True" by (simp add: i2c_ds3231_stop_def)
  show "\<exists>d'. i2c_ds3231_write bs d = Some (int (length bs), d') \<and> True" if ne: "bs \<noteq> []"
  proof (cases "ds_start d = 1")
    case False
    then show ?thesis
      using ds_write_loop_some [OF ne, of 0 "0x80" d] by (auto simp: i2c_ds3231_write_def)
  next
    case True
    obtain reg bs' where b: "bs = reg # bs'" using ne by (cases bs) auto
    show ?thesis
    proof (cases "bs' = []")
      case True
      then show ?thesis using b \<open>ds_start d = 1\<close> by (simp add: i2c_ds3231_write_def Let_def)
    next
      case False
      then show ?thesis
        using b \<open>ds_start d = 1\<close> ds_write_loop_some [OF False, of 1 "0x80" "d\<lparr>ds_index := reg, ds_start := 0\<rparr>"]
        by (auto simp: i2c_ds3231_write_def Let_def)
    qed
  qed
  show "\<exists>bs d'. i2c_ds3231_read lt (of_nat n) d = Some ((int n, bs), d') \<and> length bs = n \<and> True"
    if "0 < n" "n < 256"
  proof -
    have u: "unat (of_nat n :: u32) = n" using that by (simp add: unat_of_nat_u32)
    then have "(of_nat n :: u32) \<noteq> 0" using that by (metis unat_0 less_irrefl)
    then show ?thesis using that u by (simp add: i2c_ds3231_read_def Let_def sint_small_u32)
  qed
qed

interpretation ds3231: i2c_device "i2c_ds3231_start lt" i2c_ds3231_write "i2c_ds3231_read lt"
  i2c_ds3231_stop "\<lambda>_. True" for lt
  by (rule ds3231_device)

section \<open>The time registers\<close>

definition valid_tm :: "tm \<Rightarrow> bool" where
  "valid_tm t \<longleftrightarrow> 0 \<le> tm_sec t \<and> tm_sec t < 60 \<and> 0 \<le> tm_min t \<and> tm_min t < 60 \<and>
     0 \<le> tm_hour t \<and> tm_hour t < 24 \<and> 1 \<le> tm_mday t \<and> tm_mday t \<le> 31 \<and>
     0 \<le> tm_mon t \<and> tm_mon t < 12 \<and> 0 \<le> tm_year t \<and> tm_year t < 200 \<and> 0 \<le> tm_wday t \<and> tm_wday t < 7"

text \<open>The number a BCD byte stands for.\<close>

definition bcd_value :: "u8 \<Rightarrow> int" where
  "bcd_value b = uint b div 16 * 10 + uint b mod 16"

lemma and_mask_mod: "(v :: int) AND 0x7F = v mod 128" "v AND 0x3F = v mod 64" "v AND 0x1F = v mod 32"
  using take_bit_eq_mask [of 7 v] take_bit_eq_mask [of 6 v] take_bit_eq_mask [of 5 v]
  by (simp_all add: take_bit_eq_mod mask_eq_exp_minus_1)

lemma bcd_digits:
  fixes v :: int
  shows "0 \<le> v \<Longrightarrow> v < 80 \<Longrightarrow> format_7bit_bcd v = v div 10 * 16 + v mod 10"
    and "0 \<le> v \<Longrightarrow> v < 40 \<Longrightarrow> format_6bit_bcd v = v div 10 * 16 + v mod 10"
    and "0 \<le> v \<Longrightarrow> v < 20 \<Longrightarrow> format_5bit_bcd v = v div 10 * 16 + v mod 10"
proof -
  have d: "v sdiv 10 = v div 10" "v smod 10 = v mod 10" if "0 \<le> v"
    using that by (simp_all add: signed_divide_int_def signed_modulo_int_def sgn_if)
  have f: "format_7bit_bcd v = v div 10 * 16 + v mod 10" if "0 \<le> v" "v < 80"
  proof -
    have "0 \<le> v div 10" "v div 10 < 8" "0 \<le> v mod 10" "v mod 10 < 10" using that by auto
    then have "v div 10 * 16 + v mod 10 < 128" "0 \<le> v div 10 * 16 + v mod 10" by linarith+
    then show ?thesis using d that by (simp add: format_7bit_bcd_def and_mask_mod)
  qed
  then show "0 \<le> v \<Longrightarrow> v < 80 \<Longrightarrow> format_7bit_bcd v = v div 10 * 16 + v mod 10" .
  have b: "0 \<le> v div 10 * 16 + v mod 10" "v < 40 \<Longrightarrow> v div 10 * 16 + v mod 10 < 64"
    "v < 20 \<Longrightarrow> v div 10 * 16 + v mod 10 < 32" if "0 \<le> v"
    using that by presburger+
  show "0 \<le> v \<Longrightarrow> v < 40 \<Longrightarrow> format_6bit_bcd v = v div 10 * 16 + v mod 10"
    using f b by (simp add: format_6bit_bcd_def and_mask_mod)
  show "0 \<le> v \<Longrightarrow> v < 20 \<Longrightarrow> format_5bit_bcd v = v div 10 * 16 + v mod 10"
    using f b by (simp add: format_5bit_bcd_def and_mask_mod)
qed

lemma bcd_value_digits:
  fixes v :: int
  assumes "0 \<le> v" "v < 100"
  shows "bcd_value (word_of_int (v div 10 * 16 + v mod 10)) = v"
proof -
  have "0 \<le> v div 10" "v div 10 < 10" "0 \<le> v mod 10" "v mod 10 < 10" using assms by auto
  then have "0 \<le> v div 10 * 16 + v mod 10" "v div 10 * 16 + v mod 10 < 256" by linarith+
  then have "uint (word_of_int (v div 10 * 16 + v mod 10) :: u8) = v div 10 * 16 + v mod 10"
    by (simp only: uint_word_of_int) simp
  moreover have "(v div 10 * 16 + v mod 10) div 16 = v div 10" "(v div 10 * 16 + v mod 10) mod 16 = v mod 10"
  proof -
    have "(a * 16 + b) div 16 = a" "(a * 16 + b) mod 16 = b" if "0 \<le> b" "b < 10" for a b :: int
      using that by simp_all
    from this [of "v mod 10" "v div 10"]
    show "(v div 10 * 16 + v mod 10) div 16 = v div 10" "(v div 10 * 16 + v mod 10) mod 16 = v mod 10"
      by simp_all
  qed
  ultimately show ?thesis unfolding bcd_value_def by simp
qed

lemma bcd_value_format:
  fixes v :: int
  shows "0 \<le> v \<Longrightarrow> v < 80 \<Longrightarrow> bcd_value (word_of_int (format_7bit_bcd v)) = v"
    and "0 \<le> v \<Longrightarrow> v < 40 \<Longrightarrow> bcd_value (word_of_int (format_6bit_bcd v)) = v"
  by (simp_all only: bcd_digits bcd_value_digits)

text \<open>In 24-hour mode the time registers hold the time of the last START.\<close>

lemma time_registers:
  assumes "valid_tm (lt (system_time st))" "twelve_hour_flag st = 0"
  shows "bcd_value (ds_read_reg lt st 0) = tm_sec (lt (system_time st))"
    "bcd_value (ds_read_reg lt st 1) = tm_min (lt (system_time st))"
    "bcd_value (ds_read_reg lt st 2) = tm_hour (lt (system_time st))"
    "uint (ds_read_reg lt st 3) = tm_wday (lt (system_time st)) + 1"
    "bcd_value (ds_read_reg lt st 4) = tm_mday (lt (system_time st))"
proof -
  have "uint (word_of_int (w + 1) :: u8) = w + 1" if "0 \<le> w" "w < 7" for w
    using that by (simp only: uint_word_of_int) simp
  then show "uint (ds_read_reg lt st 3) = tm_wday (lt (system_time st)) + 1"
    using assms by (simp add: ds_read_reg_def valid_tm_def del: of_int_add)
qed (use assms in \<open>simp_all add: ds_read_reg_def valid_tm_def bcd_value_format\<close>)

section \<open>Registers through the bus\<close>

text \<open>
  A master that writes \<open>b\<close> to alarm register \<open>reg\<close> and reads it back: the byte went to the
  register after it, because the first data byte has index 1 in the packet.
\<close>

definition ds_alarm_reg :: "ds3231_state \<Rightarrow> nat \<Rightarrow> u8" where
  "ds_alarm_reg st n = (if n = 7 then Alarm1_Sec st else if n = 8 then Alarm1_Min st
     else if n = 9 then Alarm1_Hours st else if n = 0xA then Alarm1_DayDate st
     else if n = 0xB then Alarm2_Min st else Alarm2_Hours st)"

lemma ds_write_next:
  assumes "ds_start st = 1" "reg \<in> {7, 8, 9, 0xA, 0xB}"
  shows "\<exists>st'. i2c_ds3231_write [reg, b] st = Some (2, st') \<and>
    ds_alarm_reg st' (unat reg + 1) = b \<and> ds_alarm_reg st' (unat reg) = ds_alarm_reg st (unat reg)"
  using assms by (auto simp: i2c_ds3231_write_def Let_def ds_write_reg_def ds_alarm_reg_def)

text \<open>The every-second alarm compares a binary second with a BCD one: from 10 on it is always up.\<close>

lemma alarm1_same_second:
  assumes "Alarm1_Sec st AND 0x80 > 0" "0 \<le> tm_sec t" "tm_sec t < 60"
  shows "alarm1 st (tm_sec t) t \<longleftrightarrow> 10 \<le> tm_sec t"
proof -
  have "tm_sec t \<noteq> tm_sec t div 10 * 16 + tm_sec t mod 10 \<longleftrightarrow> 10 \<le> tm_sec t"
    using assms(2) by presburger
  then show ?thesis using assms by (simp add: alarm1_def bcd_digits)
qed

end
