(* ===== verification/Connect.thy ===== *)
theory Connect
  imports Attach
begin

text \<open>
  Opening a connection: \<open>coremodel_init\<close> and \<open>coremodel_connect\<close>. The answers of the C library
  and the operating system are the record \<open>env\<close>; what the process then holds (descriptors,
  allocations, the mutex) and \<open>errno\<close> are the record \<open>proc\<close>. Strings are the bytes of C strings
  without their terminating zeros.
\<close>

section \<open>The process and its environment\<close>

abbreviation (input) ENOENT :: int where "ENOENT \<equiv> 2"
abbreviation (input) EBADF :: int where "EBADF \<equiv> 9"
abbreviation (input) ENOMEM :: int where "ENOMEM \<equiv> 12"
abbreviation (input) EINVAL :: int where "EINVAL \<equiv> 22"
abbreviation (input) ERANGE :: int where "ERANGE \<equiv> 34"
abbreviation (input) O_NONBLOCK :: u32 where "O_NONBLOCK \<equiv> 0x800"
abbreviation (input) COREMODEL_DFLT_PORT :: u32 where "COREMODEL_DFLT_PORT \<equiv> 1900"

record proc =
  k_errno :: int
  k_fds :: "int list"
  k_flags :: "int \<Rightarrow> u32"
  k_blocks :: nat
  k_mutex :: bool

record env =
  e_calloc :: bool
  e_mutex :: bool
  e_pipe :: "int + int \<times> int"
  e_setfl :: "int \<Rightarrow> int option"
  e_getenv :: "byte list option"
  e_malloc :: bool
  e_host :: "byte list \<Rightarrow> u32 option"
  e_socket :: "int + int"
  e_connect :: "u32 \<Rightarrow> u16 \<Rightarrow> int option"

text \<open>\<open>close\<close> and \<open>fcntl\<close>; a descriptor that is not open has no flags.\<close>

definition os_close :: "int \<Rightarrow> proc \<Rightarrow> proc" where
  "os_close fd k = (if fd \<in> set (k_fds k) then k\<lparr>k_fds := removeAll fd (k_fds k)\<rparr> else k\<lparr>k_errno := EBADF\<rparr>)"

definition os_getfl :: "int \<Rightarrow> proc \<Rightarrow> u32 \<times> proc" where
  "os_getfl fd k = (if fd \<in> set (k_fds k) then (k_flags k fd, k) else (- 1, k\<lparr>k_errno := EBADF\<rparr>))"

definition os_setfl :: "env \<Rightarrow> int \<Rightarrow> u32 \<Rightarrow> proc \<Rightarrow> bool \<times> proc" where
  "os_setfl e fd flags k =
    (case e_setfl e fd of
       Some err \<Rightarrow> (False, k\<lparr>k_errno := err\<rparr>)
     | None \<Rightarrow> (True, k\<lparr>k_flags := (k_flags k)(fd := flags)\<rparr>))"

section \<open>Numbers: \<open>strtol\<close>\<close>

definition digit_value :: "byte \<Rightarrow> nat option" where
  "digit_value b =
    (let n = unat b in
     if 48 \<le> n \<and> n \<le> 57 then Some (n - 48)
     else if 65 \<le> n \<and> n \<le> 90 then Some (n - 55)
     else if 97 \<le> n \<and> n \<le> 122 then Some (n - 87)
     else None)"

fun digits_value :: "nat \<Rightarrow> nat \<Rightarrow> byte list \<Rightarrow> nat" where
  "digits_value base acc [] = acc"
| "digits_value base acc (b # bs) =
    (case digit_value b of
       Some d \<Rightarrow> if d < base then digits_value base (acc * base + d) bs else acc
     | None \<Rightarrow> acc)"

definition is_hex :: "byte \<Rightarrow> bool" where
  "is_hex b = (case digit_value b of Some d \<Rightarrow> d < 16 | None \<Rightarrow> False)"

text \<open>
  The sign and the digits of a number, in base ten or, with \<open>auto\<close>, in the base that its prefix tells.
\<close>

definition number_text :: "bool \<Rightarrow> byte list \<Rightarrow> bool \<times> nat" where
  "number_text auto s =
    (let s = dropWhile (\<lambda>b. b = 32 \<or> (9 \<le> b \<and> b \<le> 13)) s;
         neg = (s \<noteq> [] \<and> hd s = 0x2D);
         s = (if s \<noteq> [] \<and> (hd s = 0x2D \<or> hd s = 0x2B) then tl s else s) in
     (neg, if auto then (case s of
           z # x # h # t \<Rightarrow> if z = 48 \<and> (x = 120 \<or> x = 88) \<and> is_hex h then digits_value 16 0 (h # t)
             else if z = 48 then digits_value 8 0 s else digits_value 10 0 s
         | z # t \<Rightarrow> if z = 48 then digits_value 8 0 s else digits_value 10 0 s
         | [] \<Rightarrow> 0)
       else digits_value 10 0 s))"

text \<open>The value of a \<open>long\<close> and whether it was out of range.\<close>

definition strtol :: "bool \<Rightarrow> byte list \<Rightarrow> int \<times> bool" where
  "strtol auto s =
    (let (neg, k) = number_text auto s; n = (if neg then - int k else int k) in
     if n > 2 ^ 63 - 1 then (2 ^ 63 - 1, True) else if n < - (2 ^ 63) then (- (2 ^ 63), True) else (n, False))"

abbreviation strtol0 :: "byte list \<Rightarrow> int \<times> bool" where "strtol0 \<equiv> strtol True"

section \<open>The code\<close>

text \<open>The connection in the memory \<open>calloc\<close> returned, with its buffer of received bytes.\<close>

definition coremodel_init :: "bool list \<Rightarrow> 'd \<Rightarrow> ring \<times> 'd cm" where
  "coremodel_init oom usr =
    (ring_init,
     \<lparr>cm_fd = - 1, cm_wake_fd = - 1,
      cm_host = \<lparr>h_txbufs = [], h_txflag = False, h_need_wake = False, h_wake = 0, h_oom = oom, h_usr = usr\<rparr>,
      cm_list = None, cm_list_size = 0, cm_list_pkt = None, cm_query = False, cm_defer = False,
      cm_ifs = [], cm_conn_if = None, cm_heap = (\<lambda>_. None), cm_next = 0, cm_out = []\<rparr>)"

text \<open>
  The exits, from the last one to the first: \<open>cleanup\<close>, with the descriptor of the socket and
  whether there is a copy of the target; \<open>err_mutex\<close>; \<open>err_pipe\<close>; \<open>err_socket\<close>.
\<close>

definition conn_cleanup :: "int \<Rightarrow> bool \<Rightarrow> proc \<Rightarrow> int \<times> proc" where
  "conn_cleanup fd strp k =
    (let k = (if fd \<noteq> 0 then os_close fd k else k);
         k = k\<lparr>k_blocks := k_blocks k - 1\<rparr>;
         k = (if strp then k\<lparr>k_blocks := k_blocks k - 1\<rparr> else k) in
     (- k_errno k, k))"

definition conn_err_mutex :: "int \<Rightarrow> bool \<Rightarrow> proc \<Rightarrow> int \<times> proc" where
  "conn_err_mutex fd strp k = conn_cleanup fd strp (k\<lparr>k_mutex := False\<rparr>)"

definition conn_err_pipe :: "int \<times> int \<Rightarrow> int \<Rightarrow> bool \<Rightarrow> proc \<Rightarrow> int \<times> proc" where
  "conn_err_pipe wake fd strp k = conn_err_mutex fd strp (os_close (snd wake) (os_close (fst wake) k))"

definition conn_err_socket :: "int \<times> int \<Rightarrow> int \<Rightarrow> bool \<Rightarrow> proc \<Rightarrow> int \<times> proc" where
  "conn_err_socket wake fd strp k = conn_err_pipe wake (- 1) strp (os_close fd k)"

text \<open>The host's name and the port.\<close>

definition conn_target :: "byte list \<Rightarrow> proc \<Rightarrow> byte list \<times> u32 \<times> proc" where
  "conn_target target k =
    (case dropWhile (\<lambda>b. b \<noteq> 0x3A) target of
       [] \<Rightarrow> (target, COREMODEL_DFLT_PORT, k)
     | _ # port \<Rightarrow>
         let (n, range) = strtol0 port in
         (takeWhile (\<lambda>b. b \<noteq> 0x3A) target, word_of_int n, if range then k\<lparr>k_errno := ERANGE\<rparr> else k))"

text \<open>From the resolved name on.\<close>

definition conn_socket ::
  "env \<Rightarrow> ring \<times> 'd cm \<Rightarrow> int \<times> int \<Rightarrow> u32 \<Rightarrow> u32 \<Rightarrow> proc \<Rightarrow> (int \<times> proc) + (ring \<times> 'd cm) \<times> proc" where
  "conn_socket e s wake addr portn k =
    (case e_socket e of
       Inl err \<Rightarrow> Inl (conn_err_pipe wake (- 1) True (k\<lparr>k_errno := err\<rparr>))
     | Inr fd \<Rightarrow>
         let k = k\<lparr>k_fds := fd # k_fds k\<rparr> in
         case e_connect e addr (ucast portn) of
           Some err \<Rightarrow> Inl (conn_err_socket wake fd True (k\<lparr>k_errno := err\<rparr>))
         | None \<Rightarrow>
             let (flags, k) = os_getfl fd k; (ok, k) = os_setfl e fd (flags OR O_NONBLOCK) k in
             if \<not> ok then Inl (conn_err_socket wake fd True k)
             else Inr ((fst s, (snd s)\<lparr>cm_fd := fd, cm_wake_fd := fst wake\<rparr>), k))"

text \<open>From the target on.\<close>

definition conn_resolve ::
  "env \<Rightarrow> ring \<times> 'd cm \<Rightarrow> int \<times> int \<Rightarrow> byte list option \<Rightarrow> proc \<Rightarrow> (int \<times> proc) + (ring \<times> 'd cm) \<times> proc" where
  "conn_resolve e s wake target k =
    (case (case target of Some t \<Rightarrow> Some t | None \<Rightarrow> e_getenv e) of
       None \<Rightarrow> Inl (conn_err_pipe wake (- 1) False (k\<lparr>k_errno := EINVAL\<rparr>))
     | Some t \<Rightarrow>
         if \<not> e_malloc e then Inl (conn_err_pipe wake (- 1) False (k\<lparr>k_errno := ENOMEM\<rparr>))
         else
           let (name, portn, k) = conn_target t (k\<lparr>k_blocks := Suc (k_blocks k)\<rparr>) in
           case e_host e name of
             None \<Rightarrow> Inl (conn_err_pipe wake (- 1) True (k\<lparr>k_errno := ENOENT\<rparr>))
           | Some addr \<Rightarrow> conn_socket e s wake addr portn k)"

text \<open>
  The result is \<open>Inl\<close> with the value returned and the process, or \<open>Inr\<close> with the connection
  stored for the caller, when 0 is returned from before the exits.
\<close>

definition coremodel_connect ::
  "env \<Rightarrow> bool list \<Rightarrow> 'd \<Rightarrow> byte list option \<Rightarrow> proc \<Rightarrow> (int \<times> proc) + (ring \<times> 'd cm) \<times> proc" where
  "coremodel_connect e oom usr target k =
    (if \<not> e_calloc e then Inl (- ENOMEM, k\<lparr>k_errno := ENOMEM\<rparr>)
     else
       let k = k\<lparr>k_blocks := Suc (k_blocks k)\<rparr>; s = coremodel_init oom usr in
       if \<not> e_mutex e then Inl (- k_errno k, k)
       else
         let k = k\<lparr>k_mutex := True\<rparr> in
         case e_pipe e of
           Inl err \<Rightarrow> Inl (conn_err_mutex (- 1) False (k\<lparr>k_errno := err\<rparr>))
         | Inr wake \<Rightarrow>
             let k = k\<lparr>k_fds := fst wake # snd wake # k_fds k\<rparr>;
                 (flags, k) = os_getfl (cm_fd (snd s)) k;
                 (ok, k) = os_setfl e (fst wake) (flags OR O_NONBLOCK) k in
             if \<not> ok then Inl (conn_err_pipe wake (- 1) False k)
             else conn_resolve e s wake target k)"

section \<open>What the process holds afterwards\<close>

text \<open>New descriptors: not open before, and not negative.\<close>

definition env_ok :: "env \<Rightarrow> proc \<Rightarrow> bool" where
  "env_ok e k \<longleftrightarrow> (\<forall>fd \<in> set (k_fds k). 0 \<le> fd) \<and>
     (\<forall>r w. e_pipe e = Inr (r, w) \<longrightarrow> 0 \<le> r \<and> 0 \<le> w \<and> r \<noteq> w \<and> {r, w} \<inter> set (k_fds k) = {} \<and>
        (\<forall>fd. e_socket e = Inr fd \<longrightarrow> 0 \<le> fd \<and> fd \<noteq> r \<and> fd \<noteq> w \<and> fd \<notin> set (k_fds k)))"

text \<open>The process but for \<open>errno\<close> and the flags of the descriptors.\<close>

definition same_holdings :: "proc \<Rightarrow> proc \<Rightarrow> bool" where
  "same_holdings k k' \<longleftrightarrow> k_fds k' = k_fds k \<and> k_blocks k' = k_blocks k \<and> \<not> k_mutex k'"

text \<open>
  What an exit does: the descriptors are those of before, the blocks are given back, the mutex is
  destroyed, and the value reported is always \<open>EBADF\<close>, because the exit closes descriptor -1.
\<close>

definition released :: "int list \<Rightarrow> nat \<Rightarrow> int \<times> proc \<Rightarrow> bool" where
  "released fds n rk \<longleftrightarrow> fst rk = - EBADF \<and> k_fds (snd rk) = fds \<and> k_blocks (snd rk) = n \<and> \<not> k_mutex (snd rk)"

lemma err_mutex_released:
  assumes "- 1 \<notin> set (k_fds k)"
  shows "released (k_fds k) (k_blocks k - (if strp then 2 else 1)) (conn_err_mutex (- 1) strp k)"
  using assms by (simp add: conn_err_mutex_def conn_cleanup_def os_close_def released_def Let_def numeral_2_eq_2)

lemma err_pipe_released:
  assumes "k_fds k = r # w # fds" "r \<noteq> w" "r \<notin> set fds" "w \<notin> set fds" "- 1 \<notin> set fds"
  shows "released fds (k_blocks k - (if strp then 2 else 1)) (conn_err_pipe (r, w) (- 1) strp k)"
  using err_mutex_released [of "k\<lparr>k_fds := fds\<rparr>" strp] assms by (simp add: conn_err_pipe_def os_close_def)

lemma err_socket_released:
  assumes "k_fds k = fd # r # w # fds" "fd \<notin> {r, w}" "r \<noteq> w" "fd \<notin> set fds" "r \<notin> set fds" "w \<notin> set fds" "- 1 \<notin> set fds"
  shows "released fds (k_blocks k - 2) (conn_err_socket (r, w) fd True k)"
  using err_pipe_released [of "k\<lparr>k_fds := r # w # fds\<rparr>" r w fds True] assms by (simp add: conn_err_socket_def os_close_def)

text \<open>A failure once the mutex exists: everything is given back, and the reason is lost.\<close>

lemma os_getfl_simps [simp]:
  "k_fds (snd (os_getfl fd k)) = k_fds k" "k_blocks (snd (os_getfl fd k)) = k_blocks k"
  "k_mutex (snd (os_getfl fd k)) = k_mutex k" "k_flags (snd (os_getfl fd k)) = k_flags k"
  by (simp_all add: os_getfl_def)

lemma os_setfl_simps [simp]:
  "k_fds (snd (os_setfl e fd flags k)) = k_fds k" "k_blocks (snd (os_setfl e fd flags k)) = k_blocks k"
  "k_mutex (snd (os_setfl e fd flags k)) = k_mutex k"
  by (simp_all add: os_setfl_def split: option.split)

lemma os_setfl_flags: "fst (os_setfl e fd flags k) \<Longrightarrow> k_flags (snd (os_setfl e fd flags k)) = (k_flags k)(fd := flags)"
  by (simp add: os_setfl_def split: option.split_asm)

lemma conn_target_simps [simp]:
  "k_fds (snd (snd (conn_target t k))) = k_fds k" "k_blocks (snd (snd (conn_target t k))) = k_blocks k"
  "k_mutex (snd (snd (conn_target t k))) = k_mutex k" "k_flags (snd (snd (conn_target t k))) = k_flags k"
  by (simp_all add: conn_target_def split: list.split prod.split)

lemma socket_fails:
  assumes "conn_socket e s (r, w) addr portn k = Inl rk" "k_fds k = r # w # fds" "r \<noteq> w"
    "r \<notin> set fds" "w \<notin> set fds" "- 1 \<notin> set fds" "\<forall>fd. e_socket e = Inr fd \<longrightarrow> fd \<notin> {r, w} \<union> set fds"
  shows "released fds (k_blocks k - 2) rk"
proof (cases "e_socket e")
  case (Inl err)
  have "released fds (k_blocks k - 2) (conn_err_pipe (r, w) (- 1) True (k\<lparr>k_errno := err\<rparr>))"
    using err_pipe_released [of "k\<lparr>k_errno := err\<rparr>" r w fds True] assms by simp
  then show ?thesis using Inl assms(1) by (simp add: conn_socket_def)
next
  case (Inr fd)
  let ?k = "k\<lparr>k_fds := fd # k_fds k\<rparr>"
  have rel: "released fds (k_blocks k - 2) (conn_err_socket (r, w) fd True k')"
    if "k_fds k' = k_fds ?k" "k_blocks k' = k_blocks k" for k'
    using err_socket_released [of k' fd r w fds] that assms(2-7) Inr by simp
  show ?thesis
  proof (cases "e_connect e addr (ucast portn)")
    case (Some err)
    then show ?thesis using rel [of "?k\<lparr>k_errno := err\<rparr>"] Inr assms(1) by (simp add: conn_socket_def)
  next
    case None
    let ?g = "os_getfl fd ?k"
    let ?t = "os_setfl e fd (fst ?g OR O_NONBLOCK) (snd ?g)"
    have "rk = conn_err_socket (r, w) fd True (snd ?t)"
      using None Inr assms(1) by (simp add: conn_socket_def Let_def split: prod.split_asm if_split_asm)
    then show ?thesis using rel [of "snd ?t"] by simp
  qed
qed

lemma resolve_fails:
  assumes "conn_resolve e s (r, w) target k = Inl rk" "k_fds k = r # w # fds" "r \<noteq> w"
    "r \<notin> set fds" "w \<notin> set fds" "- 1 \<notin> set fds" "\<forall>fd. e_socket e = Inr fd \<longrightarrow> fd \<notin> {r, w} \<union> set fds"
  shows "released fds (k_blocks k - 1) rk"
proof -
  have rel: "released fds (k_blocks k - 1) (conn_err_pipe (r, w) (- 1) strp k')"
    if "k_fds k' = k_fds k" "k_blocks k' = k_blocks k + (if strp then 1 else 0)" for k' strp
    using err_pipe_released [of k' r w fds strp] that assms(2-6) by (simp split: if_split_asm)
  let ?t = "case target of Some t \<Rightarrow> Some t | None \<Rightarrow> e_getenv e"
  show ?thesis
  proof (cases "e_malloc e \<and> ?t \<noteq> None")
    case False
    then show ?thesis
      using assms(1) rel [of "k\<lparr>k_errno := EINVAL\<rparr>" False] rel [of "k\<lparr>k_errno := ENOMEM\<rparr>" False]
      by (cases ?t) (auto simp: conn_resolve_def)
  next
    case True
    then obtain t where t: "?t = Some t" by blast
    let ?x = "conn_target t (k\<lparr>k_blocks := Suc (k_blocks k)\<rparr>)"
    have x: "k_fds (snd (snd ?x)) = r # w # fds" "k_blocks (snd (snd ?x)) = k_blocks k + 1" using assms(2) by simp_all
    show ?thesis
    proof (cases "e_host e (fst ?x)")
      case None
      then show ?thesis using assms(1,2) rel [of "(snd (snd ?x))\<lparr>k_errno := ENOENT\<rparr>" True] True t x
        by (simp add: conn_resolve_def Let_def case_prod_unfold)
    next
      case (Some addr)
      then have "conn_socket e s (r, w) addr (fst (snd ?x)) (snd (snd ?x)) = Inl rk"
        using assms(1) True t by (simp add: conn_resolve_def Let_def case_prod_unfold)
      from socket_fails [OF this x(1) assms(3-7)] x(2) show ?thesis by simp
    qed
  qed
qed

lemma connect_fails:
  assumes "env_ok e k" "e_calloc e" "e_mutex e" "coremodel_connect e oom usr target k = Inl rk"
  shows "released (k_fds k) (k_blocks k) rk"
proof (cases "e_pipe e")
  case (Inl err)
  have "- 1 \<notin> set (k_fds k)" using assms(1) by (force simp: env_ok_def)
  then show ?thesis
    using err_mutex_released [of "k\<lparr>k_blocks := Suc (k_blocks k), k_mutex := True, k_errno := err\<rparr>" False] Inl assms
    by (simp add: coremodel_connect_def Let_def)
next
  case (Inr wake)
  obtain r w where wake: "wake = (r, w)" by (cases wake)
  let ?k = "k\<lparr>k_blocks := Suc (k_blocks k), k_mutex := True, k_fds := r # w # k_fds k\<rparr>"
  let ?g = "os_getfl (cm_fd (snd (coremodel_init oom usr))) ?k"
  let ?t = "os_setfl e r (fst ?g OR O_NONBLOCK) (snd ?g)"
  have d: "r \<noteq> w" "r \<notin> set (k_fds k)" "w \<notin> set (k_fds k)" "- 1 \<notin> set (k_fds k)"
    "\<forall>fd. e_socket e = Inr fd \<longrightarrow> fd \<notin> {r, w} \<union> set (k_fds k)"
    using assms(1) Inr wake by (force simp: env_ok_def)+
  have c: "coremodel_connect e oom usr target k =
    (if \<not> fst ?t then Inl (conn_err_pipe (r, w) (- 1) False (snd ?t))
     else conn_resolve e (coremodel_init oom usr) (r, w) target (snd ?t))"
    using assms(2,3) Inr wake by (simp add: coremodel_connect_def Let_def case_prod_unfold)
  have t: "k_fds (snd ?t) = r # w # k_fds k" "k_blocks (snd ?t) = Suc (k_blocks k)" by simp_all
  show ?thesis
  proof (cases "fst ?t")
    case True
    then have "conn_resolve e (coremodel_init oom usr) (r, w) target (snd ?t) = Inl rk"
      using assms(4) unfolding c by simp
    from resolve_fails [OF this t(1) d] show ?thesis by simp
  next
    case False
    then show ?thesis using err_pipe_released [OF t(1) d(1-4), of False] assms(4) unfolding c by simp
  qed
qed

text \<open>
  A connection handed to the caller: the socket and the wake-up pipe are open, the socket does not
  block, the buffer is empty, and the copy of the target is not freed. The flags of the pipe are
  all set, because they are derived from descriptor -1.
\<close>

lemma connect_gives:
  assumes "env_ok e k" "coremodel_connect e oom usr target k = Inr ((q, cm), k')"
  shows "\<exists>fd r w. e_socket e = Inr fd \<and> e_pipe e = Inr (r, w) \<and> q = ring_init \<and> cm_fd cm = fd \<and> cm_wake_fd cm = r \<and>
    attach_ok cm \<and> cm_ifs cm = [] \<and> cm = (snd (coremodel_init oom usr))\<lparr>cm_fd := fd, cm_wake_fd := r\<rparr> \<and>
    k_fds k' = fd # r # w # k_fds k \<and> k_blocks k' = k_blocks k + 2 \<and> k_mutex k' \<and>
    k_flags k' fd = k_flags k fd OR O_NONBLOCK \<and> k_flags k' r = - 1"
proof -
  obtain r w where p: "e_pipe e = Inr (r, w)" "e_calloc e" "e_mutex e"
    using assms(2) by (auto simp: coremodel_connect_def Let_def split: if_split_asm sum.split_asm)
  let ?s = "coremodel_init oom usr"
  let ?k = "k\<lparr>k_blocks := Suc (k_blocks k), k_mutex := True, k_fds := r # w # k_fds k\<rparr>"
  let ?g = "os_getfl (cm_fd (snd ?s)) ?k"
  let ?t = "os_setfl e r (fst ?g OR O_NONBLOCK) (snd ?g)"
  have t: "fst ?t" "conn_resolve e ?s (r, w) target (snd ?t) = Inr ((q, cm), k')"
    using assms(2) p by (auto simp: coremodel_connect_def Let_def case_prod_unfold split: if_split_asm)
  have "- 1 \<notin> {r, w} \<union> set (k_fds k)" using assms(1) p by (force simp: env_ok_def)
  then have g: "fst ?g = - 1" by (simp add: os_getfl_def coremodel_init_def)
  obtain a where a: "e_malloc e"
    "\<exists>addr. conn_socket e ?s (r, w) addr (fst (snd (conn_target a ((snd ?t)\<lparr>k_blocks := Suc (k_blocks (snd ?t))\<rparr>))))
       (snd (snd (conn_target a ((snd ?t)\<lparr>k_blocks := Suc (k_blocks (snd ?t))\<rparr>)))) = Inr ((q, cm), k')"
    using t(2) by (auto simp: conn_resolve_def Let_def case_prod_unfold split: option.split_asm if_split_asm)
  let ?x = "snd (snd (conn_target a ((snd ?t)\<lparr>k_blocks := Suc (k_blocks (snd ?t))\<rparr>)))"
  have x: "k_fds ?x = r # w # k_fds k" "k_blocks ?x = k_blocks k + 2" "k_mutex ?x" "k_flags ?x = (k_flags k)(r := - 1)"
    using os_setfl_flags [OF t(1)] g by simp_all
  obtain addr portn where so: "conn_socket e ?s (r, w) addr portn ?x = Inr ((q, cm), k')" using a(2) by blast
  then obtain fd where fd: "e_socket e = Inr fd" by (cases "e_socket e") (auto simp: conn_socket_def)
  let ?h = "os_getfl fd (?x\<lparr>k_fds := fd # k_fds ?x\<rparr>)"
  let ?u = "os_setfl e fd (fst ?h OR O_NONBLOCK) (snd ?h)"
  have u: "fst ?u" "q = fst ?s" "cm = (snd ?s)\<lparr>cm_fd := fd, cm_wake_fd := r\<rparr>" "k' = snd ?u"
    using so fd by (auto simp: conn_socket_def Let_def case_prod_unfold split: option.split_asm if_split_asm)
  have "fd \<noteq> r" using assms(1) p(1) fd by (force simp: env_ok_def)
  moreover have "fst ?h = k_flags ?x fd" by (simp add: os_getfl_def)
  ultimately show ?thesis
    using u os_setfl_flags [OF u(1)] x fd p
    by (simp add: coremodel_init_def attach_ok_def cm_ok_def)
qed

lemma connect_succeeds:
  assumes "env_ok e k" "coremodel_connect e oom usr target k = Inr ((q, cm), k')"
  shows "\<exists>fd r w. e_socket e = Inr fd \<and> e_pipe e = Inr (r, w) \<and> q = ring_init \<and> cm_fd cm = fd \<and> cm_wake_fd cm = r \<and>
    attach_ok cm \<and> cm_ifs cm = [] \<and> k_fds k' = fd # r # w # k_fds k \<and> k_blocks k' = k_blocks k + 2 \<and> k_mutex k' \<and>
    k_flags k' fd = k_flags k fd OR O_NONBLOCK \<and> k_flags k' r = - 1"
  using connect_gives [OF assms] by blast

text \<open>It is handed over when nothing fails.\<close>

lemma connect_reaches:
  assumes "e_calloc e" "e_mutex e" "e_malloc e" "e_pipe e = Inr wake" "e_socket e = Inr fd" "e_setfl e (fst wake) = None"
    "e_setfl e fd = None" "conn_target t k = (name, portn, k1)" "e_host e name = Some addr"
    "e_connect e addr (ucast portn) = None"
  shows "\<exists>q cm k'. coremodel_connect e oom usr (Some t) k = Inr ((q, cm), k')"
proof -
  have "fst (conn_target t k') = name \<and> fst (snd (conn_target t k')) = portn" for k'
    using assms(8) unfolding conn_target_def
    by (cases "dropWhile (\<lambda>b. b \<noteq> 0x3A) t") (auto simp del: dropWhile_eq_Nil_conv split: prod.splits)
  then show ?thesis using assms
    by (simp add: coremodel_connect_def conn_resolve_def conn_socket_def os_setfl_def Let_def case_prod_unfold)
qed

text \<open>
  A failure of the mutex functions, which do not set \<open>errno\<close>: the connection is not freed, and the
  value returned is whatever \<open>errno\<close> was.
\<close>

lemma connect_no_mutex:
  assumes "e_calloc e" "\<not> e_mutex e"
  shows "coremodel_connect e oom usr target k = Inl (- k_errno k, k\<lparr>k_blocks := Suc (k_blocks k)\<rparr>)"
  using assms by (simp add: coremodel_connect_def Let_def)

section \<open>The port in decimal\<close>

fun decimal :: "nat \<Rightarrow> byte list" where
  "decimal n = (if n < 10 then [of_nat (48 + n)] else decimal (n div 10) @ [of_nat (48 + n mod 10)])"

declare decimal.simps [simp del]

lemma unat_digit: "d < 10 \<Longrightarrow> unat (of_nat (48 + d) :: byte) = 48 + d"
  by (simp add: unat_of_nat del: of_nat_add)

lemma digit_value_digit: "d < 10 \<Longrightarrow> digit_value (of_nat (48 + d)) = Some d"
  by (simp add: digit_value_def Let_def unat_digit del: of_nat_add)

lemma digits_value_append:
  "\<forall>b \<in> set bs. \<exists>d < base. digit_value b = Some d \<Longrightarrow>
     digits_value base acc (bs @ cs) = digits_value base (digits_value base acc bs) cs"
  by (induction bs arbitrary: acc) auto

lemma decimal_digits: "\<forall>b \<in> set (decimal n). \<exists>d < 10. b = of_nat (48 + d) \<and> digit_value b = Some d"
proof (induction n rule: decimal.induct)
  case (1 n)
  show ?case
  proof (cases "n < 10")
    case True
    then show ?thesis unfolding decimal.simps [of n] by (auto simp: digit_value_digit simp del: of_nat_add)
  next
    case False
    then show ?thesis using 1 [OF False] unfolding decimal.simps [of n]
      by (auto simp: digit_value_digit simp del: of_nat_add)
  qed
qed

lemma decimal_value: "digits_value 10 0 (decimal n) = n"
proof (induction n rule: decimal.induct)
  case (1 n)
  show ?case
  proof (cases "n < 10")
    case True
    then show ?thesis unfolding decimal.simps [of n] by (simp add: digit_value_digit del: of_nat_add)
  next
    case False
    have "\<forall>b \<in> set (decimal (n div 10)). \<exists>d < 10. digit_value b = Some d" using decimal_digits by blast
    then show ?thesis
      using False 1 [OF False] unfolding decimal.simps [of n]
      by (simp add: digits_value_append digit_value_digit del: of_nat_add)
  qed
qed

lemma decimal_head: "n \<noteq> 0 \<Longrightarrow> \<exists>d bs. decimal n = of_nat (48 + d) # bs \<and> 1 \<le> d \<and> d < 10"
proof (induction n rule: decimal.induct)
  case (1 n)
  show ?case
  proof (cases "n < 10")
    case True
    then show ?thesis using 1(2) unfolding decimal.simps [of n] by (intro exI [of _ n] exI [of _ "[]"]) simp
  next
    case False
    then have "n div 10 \<noteq> 0" by simp
    from 1(1) [OF False this] show ?thesis using False unfolding decimal.simps [of n] by auto
  qed
qed

lemma strtol0_decimal:
  assumes "n < 2 ^ 63"
  shows "strtol0 (decimal n) = (int n, False)"
proof (cases "n = 0")
  case True
  have "digit_value 48 = Some 0" using digit_value_digit [of 0] by simp
  then show ?thesis using True by (simp add: strtol_def number_text_def decimal.simps [of 0] Let_def)
next
  case False
  obtain d bs where d: "decimal n = of_nat (48 + d) # bs" "1 \<le> d" "d < 10" using decimal_head [OF False] by blast
  define b :: byte where "b = of_nat (48 + d)"
  have u: "unat b = 48 + d" using d unat_digit [of d] by (simp add: b_def)
  have b: "b \<noteq> 32" "\<not> b \<le> 13" "b \<noteq> 0x2D" "b \<noteq> 0x2B" "b \<noteq> 48"
    using u d by (auto simp: word_le_nat_alt)
  have e: "decimal n = b # bs" using d by (simp add: b_def)
  have "(case b # bs of
           z # x # h # t \<Rightarrow> if z = 48 \<and> (x = 120 \<or> x = 88) \<and> is_hex h then digits_value 16 0 (h # t)
             else if z = 48 then digits_value 8 0 (b # bs) else digits_value 10 0 (b # bs)
         | z # t \<Rightarrow> if z = 48 then digits_value 8 0 (b # bs) else digits_value 10 0 (b # bs)
         | [] \<Rightarrow> 0) = digits_value 10 0 (b # bs)"
    using b by (auto split: list.split)
  moreover have "digits_value 10 0 (b # bs) = n" using decimal_value [of n] e by simp
  ultimately show ?thesis using b assms unfolding strtol_def number_text_def e by (simp add: Let_def split: list.split)
qed

lemma conn_target_decimal:
  assumes "0x3A \<notin> set host" "n < 2 ^ 32"
  shows "conn_target (host @ 0x3A # decimal n) k = (host, of_nat n, k)"
proof -
  have "n < 2 ^ 63" using assms(2) by simp
  moreover have "takeWhile (\<lambda>b. b \<noteq> 0x3A) (host @ 0x3A # bs) = host" "dropWhile (\<lambda>b. b \<noteq> 0x3A) (host @ 0x3A # bs) = 0x3A # bs" for bs
    using assms(1) by (auto simp: takeWhile_append dropWhile_append takeWhile_eq_all_conv dropWhile_eq_Nil_conv)
  ultimately show ?thesis by (simp add: conn_target_def strtol0_decimal)
qed

section \<open>Opening a connection to a host and a port\<close>

text \<open>The system opens connections to the port \<open>n\<close> of \<open>host\<close>, with the descriptors \<open>rp\<close>, \<open>wp\<close> and \<open>fd\<close>.\<close>

definition env_opens :: "env \<Rightarrow> proc \<Rightarrow> byte list \<Rightarrow> nat \<Rightarrow> int \<Rightarrow> int \<Rightarrow> int \<Rightarrow> bool" where
  "env_opens e k host n rp wp fd \<longleftrightarrow> env_ok e k \<and> e_calloc e \<and> e_mutex e \<and> e_malloc e \<and> e_pipe e = Inr (rp, wp) \<and>
     e_socket e = Inr fd \<and> e_setfl e rp = None \<and> e_setfl e fd = None \<and> 0x3A \<notin> set host \<and> n < 65536 \<and>
     (case e_host e host of None \<Rightarrow> False | Some addr \<Rightarrow> e_connect e addr (of_nat n) = None)"

lemma connect_opened:
  assumes "env_opens e k host n rp wp fd"
  shows "\<exists>k'. coremodel_connect e oom usr (Some (host @ 0x3A # decimal n)) k =
      Inr ((ring_init, (snd (coremodel_init oom usr))\<lparr>cm_fd := fd, cm_wake_fd := rp\<rparr>), k') \<and>
    k_fds k' = fd # rp # wp # k_fds k \<and> 0 \<le> fd"
proof -
  obtain addr where a: "e_host e host = Some addr" "e_connect e addr (of_nat n) = None"
    using assms by (auto simp: env_opens_def split: option.split_asm)
  have o: "env_ok e k" "e_calloc e" "e_mutex e" "e_malloc e" "e_pipe e = Inr (rp, wp)" "e_socket e = Inr fd"
    "e_setfl e rp = None" "e_setfl e fd = None" "0x3A \<notin> set host" "n < 65536"
    using assms by (simp_all add: env_opens_def)
  have "conn_target (host @ 0x3A # decimal n) k = (host, of_nat n, k)" using conn_target_decimal [OF o(9), of n k] o(10) by simp
  moreover have "e_connect e addr (ucast (of_nat n :: u32)) = None"
    using a(2) o(10) by (simp add: unsigned_of_nat take_bit_nat_eq_self)
  ultimately obtain q cm k' where c: "coremodel_connect e oom usr (Some (host @ 0x3A # decimal n)) k = Inr ((q, cm), k')"
    using connect_reaches [of e "(rp, wp)" fd "host @ 0x3A # decimal n" k host "of_nat n" k addr oom usr] a(1) o by auto
  have "0 \<le> fd" using o(1,5,6) by (simp add: env_ok_def)
  then show ?thesis using connect_gives [OF o(1) c] c o(5,6) by (intro exI [of _ k']) auto
qed

end
