(* ===== verification/I2cMux.thy ===== *)
theory I2cMux
  imports Handshake
begin

text \<open>
  \<open>examples/i2c-mux\<close>: an I2C multiplexer with eight channels of devices. A byte written to it is
  the set of channels that are connected; the loop of \<open>main\<close> attaches and detaches the devices of
  the channels that changed. The multiplexer's state is the client's state of the connection. A
  table of callbacks is an address, which \<open>tab\<close> resolves. What the example prints is not modelled.
\<close>

section \<open>State\<close>

abbreviation (input) CHANNEL_LIMIT :: nat where "CHANNEL_LIMIT \<equiv> 8"
abbreviation (input) COREMODEL_I2C_WRITE_ACK :: u16 where "COREMODEL_I2C_WRITE_ACK \<equiv> 2"

record mux_device =
  md_name :: "byte list"
  md_addr :: u8
  md_state :: nat
  md_func :: nat
  md_handle :: "nat option"

text \<open>A channel is the list of its devices in use; the array has room for 128.\<close>

record i2c_mux_state =
  mx_channel :: "mux_device list list"
  mx_count :: u8
  mx_chan :: u8
  mx_chanp :: u8
  mx_write :: u8
  mx_stop :: u8

definition i2c_mux_init :: i2c_mux_state where
  "i2c_mux_init = \<lparr>mx_channel = replicate CHANNEL_LIMIT [], mx_count = 0, mx_chan = 0, mx_chanp = 0,
     mx_write = 0, mx_stop = 0\<rparr>"

text \<open>\<open>sprintf\<close> into a name of 32 bytes has no bound.\<close>

definition i2c_mux_connect ::
  "nat \<Rightarrow> nat \<Rightarrow> nat \<Rightarrow> nat \<Rightarrow> byte list \<Rightarrow> i2c_mux_state \<Rightarrow> (int \<times> i2c_mux_state) option" where
  "i2c_mux_connect channel addr dev_func dev_priv name st =
    (if addr \<ge> 128 \<or> channel \<ge> CHANNEL_LIMIT \<or> length (mx_channel st ! channel) \<ge> 128 then Some (1, st)
     else if length name \<ge> 32 then None
     else Some (0, st\<lparr>mx_channel := (mx_channel st)[channel := mx_channel st ! channel @
       [\<lparr>md_name = name, md_addr = of_nat addr, md_state = dev_priv, md_func = dev_func, md_handle = None\<rparr>]]\<rparr>))"

text \<open>The devices \<open>main\<close> connects, one on each channel; \<open>func\<close> is the address of the dummy's table.\<close>

definition mux_name :: "nat \<Rightarrow> byte list" where
  "mux_name i = [0x69, 0x32, 0x63, 0x2D, 0x64, 0x75, 0x6D, 0x6D, 0x79, 0x3A, of_nat (48 + i)]"

fun mux_connect_all :: "nat \<Rightarrow> nat list \<Rightarrow> i2c_mux_state \<Rightarrow> i2c_mux_state option" where
  "mux_connect_all func [] st = Some st"
| "mux_connect_all func (i # is) st = do {
     (_, st) \<leftarrow> i2c_mux_connect i (0x60 + i) func 0 (mux_name i) st;
     mux_connect_all func is st }"

section \<open>The multiplexer's own callbacks\<close>

definition i2c_mux_start :: "i2c_mux_state \<Rightarrow> (int \<times> i2c_mux_state) option" where
  "i2c_mux_start st = Some (1, st)"

fun mux_write_bytes :: "byte list \<Rightarrow> i2c_mux_state \<Rightarrow> i2c_mux_state" where
  "mux_write_bytes [] st = st"
| "mux_write_bytes (b # bs) st =
    (let st = (if mx_count st = 0 then st\<lparr>mx_chanp := mx_chan st, mx_write := 1\<rparr> else st) in
     mux_write_bytes bs (st\<lparr>mx_chan := b, mx_count := mx_count st + 1\<rparr>))"

definition i2c_mux_write :: "byte list \<Rightarrow> i2c_mux_state \<Rightarrow> (int \<times> i2c_mux_state) option" where
  "i2c_mux_write data st = Some (int (length data), mux_write_bytes data st)"

definition i2c_mux_read :: "u32 \<Rightarrow> i2c_mux_state \<Rightarrow> ((int \<times> byte list) \<times> i2c_mux_state) option" where
  "i2c_mux_read len st = Some ((sint len, replicate (unat len) (mx_chan st)), st)"

definition i2c_mux_stop :: "i2c_mux_state \<Rightarrow> (unit \<times> i2c_mux_state) option" where
  "i2c_mux_stop st = Some ((), st\<lparr>mx_stop := 1, mx_count := 0\<rparr>)"

definition i2c_mux_func :: "i2c_mux_state i2c_func" where
  "i2c_mux_func = i2c_table i2c_mux_start i2c_mux_write i2c_mux_read i2c_mux_stop"

interpretation i2c_mux: i2c_device i2c_mux_start i2c_mux_write i2c_mux_read i2c_mux_stop "\<lambda>_. True"
  by unfold_locales
    (simp_all add: i2c_mux_start_def i2c_mux_write_def i2c_mux_read_def i2c_mux_stop_def sint_small_u32 unat_of_nat_u32)

section \<open>Attaching and detaching the devices\<close>

definition mux_of :: "i2c_mux_state cm \<Rightarrow> i2c_mux_state" where
  "mux_of cm = h_usr (cm_host cm)"

definition mux_update :: "(i2c_mux_state \<Rightarrow> i2c_mux_state) \<Rightarrow> i2c_mux_state cm \<Rightarrow> i2c_mux_state cm" where
  "mux_update f cm = cm\<lparr>cm_host := (cm_host cm)\<lparr>h_usr := f (h_usr (cm_host cm))\<rparr>\<rparr>"

definition mux_set_handle :: "nat \<Rightarrow> nat \<Rightarrow> nat option \<Rightarrow> i2c_mux_state \<Rightarrow> i2c_mux_state" where
  "mux_set_handle i j handle st = st\<lparr>mx_channel := (mx_channel st)[i :=
     (mx_channel st ! i)[j := (mx_channel st ! i ! j)\<lparr>md_handle := handle\<rparr>]]\<rparr>"

text \<open>
  Attaching \<open>n\<close> devices of channel \<open>i\<close> from \<open>j\<close> on. Each attach runs the main loop; its clock and
  rounds are the next element of the script. \<open>Inl\<close>: the script ended while an attach waits.
\<close>

type_synonym attach_script = "(int \<times> round list) list"

fun mux_attach ::
  "(nat \<Rightarrow> i2c_mux_state i2c_func) \<Rightarrow> byte list \<Rightarrow> nat \<Rightarrow> nat \<Rightarrow> nat \<Rightarrow> attach_script \<Rightarrow> ring \<times> i2c_mux_state cm \<Rightarrow>
     ((ring \<times> i2c_mux_state cm) + attach_script \<times> ring \<times> i2c_mux_state cm) option" where
  "mux_attach tab bus i j 0 sc s = Some (Inr (sc, s))"
| "mux_attach tab bus i j (Suc n) sc s =
    (let d = mx_channel (mux_of (snd s)) ! i ! j; (now, rs) = (case sc of [] \<Rightarrow> (0, []) | x # _ \<Rightarrow> x) in do {
       out \<leftarrow> coremodel_attach_i2c bus (md_addr d) (tab (md_func d)) (md_state d) COREMODEL_I2C_WRITE_ACK now rs s;
       (case out of
          Inl s \<Rightarrow> Some (Inl s)
        | Inr (handle, r, cm) \<Rightarrow>
            mux_attach tab bus i (Suc j) n (tl sc) (r, mux_update (mux_set_handle i j handle) cm)) })"

fun mux_detach :: "nat \<Rightarrow> nat \<Rightarrow> nat \<Rightarrow> i2c_mux_state cm \<Rightarrow> i2c_mux_state cm option" where
  "mux_detach i j 0 cm = Some cm"
| "mux_detach i j (Suc n) cm =
    (case md_handle (mx_channel (mux_of cm) ! i ! j) of
       None \<Rightarrow> mux_detach i (Suc j) n cm
     | Some x \<Rightarrow> do {
         cm \<leftarrow> coremodel_detach (Some x) cm;
         mux_detach i (Suc j) n (mux_update (mux_set_handle i j None) cm) })"

fun mux_channels ::
  "(nat \<Rightarrow> i2c_mux_state i2c_func) \<Rightarrow> byte list \<Rightarrow> u8 \<Rightarrow> nat list \<Rightarrow> attach_script \<Rightarrow> ring \<times> i2c_mux_state cm \<Rightarrow>
     ((ring \<times> i2c_mux_state cm) + attach_script \<times> ring \<times> i2c_mux_state cm) option" where
  "mux_channels tab bus changed [] sc s = Some (Inr (sc, s))"
| "mux_channels tab bus changed (i # is) sc s =
    (let st = mux_of (snd s); n = length (mx_channel st ! i) in
     if bit changed i then
       if bit (mx_chan st) i then do {
         out \<leftarrow> mux_attach tab bus i 0 n sc s;
         (case out of Inl s \<Rightarrow> Some (Inl s) | Inr (sc, s) \<Rightarrow> mux_channels tab bus changed is sc s) }
       else do {
         cm \<leftarrow> mux_detach i 0 n (snd s);
         mux_channels tab bus changed is sc (fst s, cm) }
     else mux_channels tab bus changed is sc s)"

definition i2c_mux_update_channels where
  "i2c_mux_update_channels tab bus sc s =
    (let st = mux_of (snd s) in mux_channels tab bus (mx_chanp st XOR mx_chan st) [0..<CHANNEL_LIMIT] sc s)"

text \<open>What the loop of \<open>main\<close> does after each call of the main loop.\<close>

definition i2c_mux_poll where
  "i2c_mux_poll tab bus sc s =
    (let st = mux_of (snd s) in
     if mx_write st \<noteq> 0 \<and> mx_stop st \<noteq> 0
     then i2c_mux_update_channels tab bus sc (fst s, mux_update (\<lambda>st. st\<lparr>mx_write := 0, mx_stop := 0\<rparr>) (snd s))
     else Some (Inr (sc, s)))"

section \<open>The dummy devices\<close>

definition dummy_i2c_start :: "'d \<Rightarrow> (int \<times> 'd) option" where
  "dummy_i2c_start d = Some (1, d)"

definition dummy_i2c_write :: "byte list \<Rightarrow> 'd \<Rightarrow> (int \<times> 'd) option" where
  "dummy_i2c_write data d = Some (int (length data), d)"

definition dummy_i2c_read :: "u32 \<Rightarrow> 'd \<Rightarrow> ((int \<times> byte list) \<times> 'd) option" where
  "dummy_i2c_read len d = Some ((sint len, map (\<lambda>idx. 0xA0 + (of_nat idx AND 0x3F)) [0..<unat len]), d)"

definition dummy_i2c_stop :: "'d \<Rightarrow> (unit \<times> 'd) option" where
  "dummy_i2c_stop d = Some ((), d)"

definition dummy_i2c_func :: "'d i2c_func" where
  "dummy_i2c_func = i2c_table dummy_i2c_start dummy_i2c_write dummy_i2c_read dummy_i2c_stop"

interpretation i2c_dummy: i2c_device dummy_i2c_start dummy_i2c_write dummy_i2c_read dummy_i2c_stop "\<lambda>_. True"
  by unfold_locales
    (simp_all add: dummy_i2c_start_def dummy_i2c_write_def dummy_i2c_read_def dummy_i2c_stop_def sint_small_u32 unat_of_nat_u32)

section \<open>Writing the register\<close>

text \<open>A transaction of one to 255 bytes: the last byte counts, and the channels before it are kept.\<close>

lemma write_bytes_going:
  "mx_count st \<noteq> 0 \<Longrightarrow> unat (mx_count st) + length bs < 256 \<Longrightarrow> bs \<noteq> [] \<Longrightarrow>
     mux_write_bytes bs st = st\<lparr>mx_chan := last bs, mx_count := mx_count st + of_nat (length bs)\<rparr>"
proof (induction bs arbitrary: st)
  case Nil
  then show ?case by simp
next
  case (Cons b bs)
  let ?st = "st\<lparr>mx_chan := b, mx_count := mx_count st + 1\<rparr>"
  have u: "unat (mx_count st + 1) = unat (mx_count st) + 1" using Cons.prems(2) by (simp add: unat_word_ariths)
  then have "mx_count ?st \<noteq> 0" "unat (mx_count ?st) + length bs < 256" using Cons.prems(2) by auto
  with Cons.IH [of ?st] Cons.prems(1) show ?case by (cases "bs = []") (simp_all add: algebra_simps)
qed

lemma write_bytes_first:
  assumes "mx_count st = 0" "bs \<noteq> []" "length bs < 256"
  shows "mux_write_bytes bs st = st\<lparr>mx_chanp := mx_chan st, mx_write := 1, mx_chan := last bs, mx_count := of_nat (length bs)\<rparr>"
proof (cases bs)
  case (Cons b bs')
  let ?st = "st\<lparr>mx_chanp := mx_chan st, mx_write := 1, mx_chan := b, mx_count := 1\<rparr>"
  have "mux_write_bytes bs' ?st = ?st\<lparr>mx_chan := last (b # bs'), mx_count := 1 + of_nat (length bs')\<rparr>"
    using write_bytes_going [of ?st bs'] assms(3) Cons by (cases "bs' = []") auto
  then show ?thesis using assms(1) Cons by simp
qed (use assms in simp)

text \<open>One write transaction from START to STOP, as the bus serves it.\<close>

definition mux_transaction :: "byte list \<Rightarrow> i2c_mux_state \<Rightarrow> i2c_mux_state" where
  "mux_transaction bs st = st\<lparr>mx_chanp := mx_chan st, mx_chan := last bs, mx_write := 1, mx_stop := 1, mx_count := 0\<rparr>"

lemma transaction_served:
  assumes "mx_count st = 0" "pk_data p \<noteq> []" "length (pk_data p) < 256"
    "pk_pkt s = PKT_I2C_START" "pk_pkt p = PKT_I2C_WRITE" "pk_pkt e = PKT_I2C_STOP"
  shows "\<exists>rs. i2c_serves i2c_mux_start i2c_mux_write i2c_mux_read i2c_mux_stop c [s, p, e] st =
    Some (rs, mux_transaction (pk_data p) st)"
  using assms by (simp add: i2c_serve_def i2c_mux_start_def i2c_mux_write_def i2c_mux_stop_def write_bytes_first
      mux_transaction_def Let_def)

section \<open>Applying the register\<close>

lemma mux_of_update [simp]: "mux_of (mux_update f cm) = f (mux_of cm)"
  by (simp add: mux_of_def mux_update_def)

lemma mux_update_simps [simp]:
  "cm_ifs (mux_update f cm) = cm_ifs cm" "cm_heap (mux_update f cm) = cm_heap cm" "cm_next (mux_update f cm) = cm_next cm"
  "cm_conn_if (mux_update f cm) = cm_conn_if cm" "cm_ok (mux_update f cm) = cm_ok cm" "cm_query (mux_update f cm) = cm_query cm"
  "cm_fd (mux_update f cm) = cm_fd cm" "cm_defer (mux_update f cm) = cm_defer cm"
  "h_oom (cm_host (mux_update f cm)) = h_oom (cm_host cm)" "h_txbufs (cm_host (mux_update f cm)) = h_txbufs (cm_host cm)"
  by (simp_all add: mux_update_def)

text \<open>Channels that did not change are left alone.\<close>

lemma channels_unchanged:
  "\<forall>i \<in> set is. \<not> bit changed i \<Longrightarrow> mux_channels tab bus changed is sc s = Some (Inr (sc, s))"
  by (induction "is") (auto simp: Let_def)

lemma channels_append:
  "mux_channels tab bus changed (is @ js) sc s = (case mux_channels tab bus changed is sc s of
     None \<Rightarrow> None
   | Some (Inl s') \<Rightarrow> Some (Inl s')
   | Some (Inr (sc', s')) \<Rightarrow> mux_channels tab bus changed js sc' s')"
  by (induction "is" arbitrary: sc s)
    (auto simp: Let_def split: option.split sum.split Option.bind_split prod.split)

text \<open>
  The register keeps only the channels before the last transaction, not the ones applied: writing
  the same set twice before the loop comes round is taken for no change.
\<close>

lemma poll_reselect:
  assumes "last bs = last bs'" "mux_of cm = mux_transaction bs' (mux_transaction bs st)"
  shows "i2c_mux_poll tab bus sc (r, cm) =
    Some (Inr (sc, r, mux_update (\<lambda>st. st\<lparr>mx_write := 0, mx_stop := 0\<rparr>) cm))"
  using assms by (simp add: i2c_mux_poll_def i2c_mux_update_channels_def mux_transaction_def channels_unchanged)

text \<open>Selecting one channel, which has one device.\<close>

definition mux_select :: "nat \<Rightarrow> i2c_mux_state \<Rightarrow> bool" where
  "mux_select i st \<longleftrightarrow> i < CHANNEL_LIMIT \<and> mx_write st \<noteq> 0 \<and> mx_stop st \<noteq> 0 \<and> bit (mx_chan st) i \<and>
     (\<forall>j < CHANNEL_LIMIT. bit (mx_chanp st XOR mx_chan st) j \<longleftrightarrow> j = i)"

lemma upt_split: "i < n \<Longrightarrow> [0..<n] = [0..<i] @ i # [Suc i..<n]"
  using upt_add_eq_append [of 0 i "n - i"] by (simp add: upt_conv_Cons)

lemma channels_one:
  assumes "i < CHANNEL_LIMIT" "\<forall>j < CHANNEL_LIMIT. bit changed j \<longleftrightarrow> j = i" "bit (mx_chan (mux_of (snd s))) i"
    "mux_attach tab bus i 0 (length (mx_channel (mux_of (snd s)) ! i)) sc s = Some (Inr (sc', s'))"
  shows "mux_channels tab bus changed [0..<CHANNEL_LIMIT] sc s = Some (Inr (sc', s'))"
proof -
  have "[0..<CHANNEL_LIMIT] = [0..<i] @ i # [Suc i..<CHANNEL_LIMIT]"
    using assms(1) by (rule upt_split)
  moreover have "mux_channels tab bus changed [0..<i] sc s = Some (Inr (sc, s))"
    "mux_channels tab bus changed [Suc i..<CHANNEL_LIMIT] sc' s' = Some (Inr (sc', s'))"
    using assms(1,2) by (auto intro!: channels_unchanged)
  ultimately show ?thesis using assms by (simp add: channels_append Let_def)
qed

lemma select_attaches:
  assumes s: "mux_select i (mux_of cm)" "i < length (mx_channel (mux_of cm))" "mx_channel (mux_of cm) ! i = [d]"
    and cm: "\<not> cm_query cm" "0 \<le> cm_fd cm" "\<not> cm_defer cm" "h_oom (cm_host cm) = []"
    and r: "ring_ok r" "ring_bytes r = []"
    and q: "req = attach_request COREMODEL_I2C bus (ucast (md_addr d)) None COREMODEL_I2C_WRITE_ACK" "wf_packet req"
    and w: "write_loop ws (h_txbufs (host_push req (cm_host cm))) = (None, out, [])"
    and p: "pk_conn p = CONN_QUERY" "pk_pkt p = PKT_QUERY_RSP_CONN" "pk_hflag p \<noteq> CONN_QUERY" "wf_packet p"
      "pk_data p = le_bytes 4 cred"
  shows "\<exists>r' cm'. i2c_mux_poll tab bus [(now, attach_rounds ws p)] (r, cm) = Some (Inr ([], r', cm')) \<and>
    cm_ifs cm' = cm_next cm # cm_ifs cm \<and> mx_channel (mux_of cm') ! i = [d\<lparr>md_handle := Some (cm_next cm)\<rparr>] \<and>
    cm_heap cm' = (cm_heap cm)(cm_next cm \<mapsto>
      attached_if COREMODEL_I2C (I2cF (tab (md_func d))) (md_state d) (pk_hflag p) cred)"
proof -
  let ?c = "mux_update (\<lambda>st. st\<lparr>mx_write := 0, mx_stop := 0\<rparr>) cm"
  have wl: "write_loop ws (h_txbufs (host_push req (cm_host ?c))) = (None, out, [])"
    using w by (simp add: mux_update_def host_push_def)
  obtain r' cm1 where a: "coremodel_attach_int COREMODEL_I2C bus (ucast (md_addr d)) None (I2cF (tab (md_func d))) (md_state d)
      COREMODEL_I2C_WRITE_ACK now (attach_rounds ws p) (r, ?c) = Some (Inr (Some (cm_next ?c), r', cm1))"
    "cm_ifs cm1 = cm_next ?c # cm_ifs ?c" "h_usr (cm_host cm1) = h_usr (cm_host ?c)"
    "cm_heap cm1 = (cm_heap ?c)(cm_next ?c \<mapsto>
       attached_if COREMODEL_I2C (I2cF (tab (md_func d))) (md_state d) (pk_hflag p) cred)"
    using attach_answered_state [OF _ _ _ _ r q(2) [unfolded q(1)] wl [unfolded q(1)] p, of "I2cF (tab (md_func d))"
        "md_state d" now] cm by auto
  let ?cm' = "mux_update (mux_set_handle i 0 (Some (cm_next cm))) cm1"
  have m1: "mux_of cm1 = mux_of ?c" using a(3) by (simp add: mux_of_def)
  have at: "mux_attach tab bus i 0 1 [(now, attach_rounds ws p)] (r, ?c) = Some (Inr ([], r', ?cm'))"
    using a(1) s(3) by (simp add: coremodel_attach_i2c_def)
  have "i2c_mux_poll tab bus [(now, attach_rounds ws p)] (r, cm) = Some (Inr ([], r', ?cm'))"
    using channels_one [of i "mx_chanp (mux_of cm) XOR mx_chan (mux_of cm)" "(r, ?c)" tab bus _ "[]" "(r', ?cm')"] s at
    by (simp add: i2c_mux_poll_def i2c_mux_update_channels_def mux_select_def)
  moreover have "mx_channel (mux_of ?cm') ! i = [d\<lparr>md_handle := Some (cm_next cm)\<rparr>]"
    using s(2,3) m1 by (simp add: mux_set_handle_def)
  ultimately show ?thesis using a(2,4) by (intro exI [of _ r'] exI [of _ ?cm']) simp
qed

section \<open>Deselecting channels\<close>

definition md_clear :: "mux_device \<Rightarrow> mux_device" where
  "md_clear d = d\<lparr>md_handle := None\<rparr>"

definition md_handles :: "mux_device list \<Rightarrow> nat list" where
  "md_handles ds = List.map_filter md_handle ds"

lemma md_handles_simps [simp]:
  "md_handles [] = []"
  "md_handles (d # ds) = (case md_handle d of None \<Rightarrow> md_handles ds | Some x \<Rightarrow> x # md_handles ds)"
  by (simp_all add: md_handles_def map_filter_simps split: option.split)

text \<open>The interfaces of \<open>H\<close>, and no others, were closed.\<close>

definition closed_ifs :: "nat set \<Rightarrow> 'd cm \<Rightarrow> 'd cm \<Rightarrow> bool" where
  "closed_ifs H cm cm' \<longleftrightarrow> cm_ok cm' \<and> cm_conn_if cm' = None \<and> cm_ifs cm' = filter (\<lambda>x. x \<notin> H) (cm_ifs cm) \<and>
     cm_heap cm' = (\<lambda>x. if x \<in> H then None else cm_heap cm x)"

lemma closed_ifs_refl: "cm_ok cm \<Longrightarrow> cm_conn_if cm = None \<Longrightarrow> closed_ifs {} cm cm"
  by (simp add: closed_ifs_def)

lemma closed_ifs_trans: "closed_ifs H cm c1 \<Longrightarrow> closed_ifs K c1 c2 \<Longrightarrow> closed_ifs (H \<union> K) cm c2"
  by (auto simp: closed_ifs_def fun_eq_iff conj_commute intro: filter_cong)

lemma closed_ifs_update [simp]: "closed_ifs H cm (mux_update f c) = closed_ifs H cm c"
  "closed_ifs H (mux_update f c) cm' = closed_ifs H c cm'"
  by (simp_all add: closed_ifs_def cong: if_cong)

lemma detach_closes_one:
  assumes "cm_ok cm" "cm_conn_if cm = None" "cm_heap cm x \<noteq> None"
  shows "\<exists>cm'. coremodel_detach (Some x) cm = Some cm' \<and> closed_ifs {x} cm cm' \<and> mux_of cm' = mux_of cm"
proof -
  obtain h where h: "coremodel_detach (Some x) cm =
      Some (cm\<lparr>cm_ifs := removeAll x (cm_ifs cm), cm_host := h, cm_heap := (cm_heap cm)(x := None)\<rparr>)"
    "h_usr h = h_usr (cm_host cm)"
    using detach_result [OF assms(1,3)] by blast
  obtain cm' where "coremodel_detach (Some x) cm = Some cm'" "cm_ok cm'"
    using detach_live [OF assms(1,3)] assms(2) by auto
  then show ?thesis
    using h assms(2) by (auto simp: closed_ifs_def mux_of_def removeAll_filter_not_eq fun_eq_iff intro: filter_cong)
qed

lemma mux_detach_closes:
  "cm_ok cm \<Longrightarrow> cm_conn_if cm = None \<Longrightarrow> i < length (mx_channel (mux_of cm)) \<Longrightarrow>
     length (mx_channel (mux_of cm) ! i) = j + n \<Longrightarrow> distinct (md_handles (drop j (mx_channel (mux_of cm) ! i))) \<Longrightarrow>
     \<forall>x \<in> set (md_handles (drop j (mx_channel (mux_of cm) ! i))). cm_heap cm x \<noteq> None \<Longrightarrow>
     \<exists>cm'. mux_detach i j n cm = Some cm' \<and> closed_ifs (set (md_handles (drop j (mx_channel (mux_of cm) ! i)))) cm cm' \<and>
       mux_of cm' = (mux_of cm)\<lparr>mx_channel := (mx_channel (mux_of cm))[i :=
         take j (mx_channel (mux_of cm) ! i) @ map md_clear (drop j (mx_channel (mux_of cm) ! i))]\<rparr>"
proof (induction n arbitrary: j cm)
  case 0
  then show ?case by (simp add: closed_ifs_refl)
next
  case (Suc n)
  let ?ds = "mx_channel (mux_of cm) ! i"
  let ?d = "?ds ! j"
  have j: "j < length ?ds" using Suc.prems(4) by simp
  have d: "drop j ?ds = ?d # drop (Suc j) ?ds" using j by (simp add: Cons_nth_drop_Suc)
  have t: "take (Suc j) ?ds = take j ?ds @ [?d]" using j by (simp add: take_Suc_conv_app_nth)
  show ?case
  proof (cases "md_handle ?d")
    case None
    then have "md_clear ?d = ?d" by (simp add: md_clear_def)
    moreover have "\<exists>cm'. mux_detach i (Suc j) n cm = Some cm' \<and> closed_ifs (set (md_handles (drop (Suc j) ?ds))) cm cm' \<and>
       mux_of cm' = (mux_of cm)\<lparr>mx_channel := (mx_channel (mux_of cm))[i :=
         take (Suc j) ?ds @ map md_clear (drop (Suc j) ?ds)]\<rparr>"
      using Suc.prems None d by (intro Suc.IH) auto
    ultimately show ?thesis using None d t by simp
  next
    case (Some x)
    have x: "cm_heap cm x \<noteq> None" "x \<notin> set (md_handles (drop (Suc j) ?ds))" "distinct (md_handles (drop (Suc j) ?ds))"
      using Suc.prems(5,6) Some d by auto
    obtain c1 where c1: "coremodel_detach (Some x) cm = Some c1" "closed_ifs {x} cm c1" "mux_of c1 = mux_of cm"
      using detach_closes_one [OF Suc.prems(1,2) x(1)] by blast
    let ?c2 = "mux_update (mux_set_handle i j None) c1"
    let ?e = "?ds[j := md_clear ?d]"
    have m2: "mux_of ?c2 = (mux_of cm)\<lparr>mx_channel := (mx_channel (mux_of cm))[i := ?e]\<rparr>"
      using c1(3) by (simp add: mux_set_handle_def md_clear_def)
    then have ch: "mx_channel (mux_of ?c2) ! i = ?e" using Suc.prems(3) by simp
    have dr: "drop (Suc j) ?e = drop (Suc j) ?ds" by simp
    have "\<forall>y \<in> set (md_handles (drop (Suc j) ?ds)). cm_heap c1 y \<noteq> None"
      using Suc.prems(6) Some d x(2) c1(2) by (auto simp: closed_ifs_def)
    then obtain c3 where c3: "mux_detach i (Suc j) n ?c2 = Some c3"
      "closed_ifs (set (md_handles (drop (Suc j) ?ds))) ?c2 c3"
      "mux_of c3 = (mux_of ?c2)\<lparr>mx_channel := (mx_channel (mux_of ?c2))[i := take (Suc j) ?e @ map md_clear (drop (Suc j) ?e)]\<rparr>"
      using Suc.IH [of ?c2 "Suc j"] Suc.prems(3,4) x c1(2) m2 unfolding ch dr by (auto simp: closed_ifs_def)
    have "take (Suc j) ?e = take j ?ds @ [md_clear ?d]" using j by (simp add: take_Suc_conv_app_nth)
    then have "mux_of c3 = (mux_of cm)\<lparr>mx_channel := (mx_channel (mux_of cm))[i := take j ?ds @ map md_clear (drop j ?ds)]\<rparr>"
      unfolding c3(3) m2 d dr by simp
    moreover have "closed_ifs ({x} \<union> set (md_handles (drop (Suc j) ?ds))) cm c3"
      using closed_ifs_trans [OF c1(2)] c3(2) by simp
    ultimately show ?thesis using Some d c1(1) c3(1) by simp
  qed
qed

text \<open>The handles of the changed channels of \<open>S\<close>, and what becomes of the connection.\<close>

definition changed_handles :: "u8 \<Rightarrow> nat set \<Rightarrow> i2c_mux_state \<Rightarrow> nat set" where
  "changed_handles changed S st = (\<Union>i \<in> {i \<in> S. bit changed i}. set (md_handles (mx_channel st ! i)))"

definition channels_closed :: "u8 \<Rightarrow> nat set \<Rightarrow> i2c_mux_state cm \<Rightarrow> i2c_mux_state cm \<Rightarrow> bool" where
  "channels_closed changed S cm cm' \<longleftrightarrow> closed_ifs (changed_handles changed S (mux_of cm)) cm cm' \<and>
     mx_chan (mux_of cm') = mx_chan (mux_of cm) \<and> length (mx_channel (mux_of cm')) = length (mx_channel (mux_of cm)) \<and>
     (\<forall>k. mx_channel (mux_of cm') ! k =
       (if k \<in> S \<and> bit changed k then map md_clear (mx_channel (mux_of cm) ! k) else mx_channel (mux_of cm) ! k))"

lemma channels_closed_skip:
  assumes "\<not> bit changed i"
  shows "channels_closed changed (insert i S) cm cm' = channels_closed changed S cm cm'"
proof -
  have "changed_handles changed (insert i S) st = changed_handles changed S st" for st
    using assms by (auto simp: changed_handles_def)
  moreover have "k \<in> insert i S \<and> bit changed k \<longleftrightarrow> k \<in> S \<and> bit changed k" for k using assms by auto
  ultimately show ?thesis unfolding channels_closed_def by presburger
qed

lemma channels_closed_step:
  assumes "bit changed i" "i \<notin> S" "i < length (mx_channel (mux_of cm))"
    and c1: "closed_ifs (set (md_handles (mx_channel (mux_of cm) ! i))) cm c1"
      "mux_of c1 = (mux_of cm)\<lparr>mx_channel := (mx_channel (mux_of cm))[i := map md_clear (mx_channel (mux_of cm) ! i)]\<rparr>"
    and c2: "channels_closed changed S c1 c2"
  shows "channels_closed changed (insert i S) cm c2"
proof -
  have same: "mx_channel (mux_of c1) ! k = mx_channel (mux_of cm) ! k" if "k \<noteq> i" for k using that c1(2) by simp
  then have "mx_channel (mux_of c1) ! k = mx_channel (mux_of cm) ! k" if "k \<in> S" for k
    using that assms(2) by metis
  then have "changed_handles changed S (mux_of c1) = changed_handles changed S (mux_of cm)"
    unfolding changed_handles_def by (intro SUP_cong) simp_all
  moreover have "changed_handles changed (insert i S) (mux_of cm) =
      set (md_handles (mx_channel (mux_of cm) ! i)) \<union> changed_handles changed S (mux_of cm)"
    using assms(1) by (auto simp: changed_handles_def)
  ultimately have "closed_ifs (changed_handles changed (insert i S) (mux_of cm)) cm c2"
    using closed_ifs_trans [OF c1(1)] c2 by (simp add: channels_closed_def)
  moreover have "mx_channel (mux_of c2) ! k = (if k \<in> insert i S \<and> bit changed k
      then map md_clear (mx_channel (mux_of cm) ! k) else mx_channel (mux_of cm) ! k)" for k
    using c2 assms(1-3) same [of k] c1(2) by (cases "k = i") (auto simp: channels_closed_def)
  ultimately show ?thesis using c2 c1(2) by (simp add: channels_closed_def)
qed

lemma channels_close:
  "cm_ok cm \<Longrightarrow> cm_conn_if cm = None \<Longrightarrow> distinct is \<Longrightarrow> \<forall>i \<in> set is. i < length (mx_channel (mux_of cm)) \<Longrightarrow>
     \<forall>i \<in> set is. bit changed i \<longrightarrow> \<not> bit (mx_chan (mux_of cm)) i \<Longrightarrow>
     distinct (concat (map (\<lambda>i. md_handles (mx_channel (mux_of cm) ! i)) (filter (bit changed) is))) \<Longrightarrow>
     \<forall>x \<in> changed_handles changed (set is) (mux_of cm). cm_heap cm x \<noteq> None \<Longrightarrow>
     \<exists>cm'. mux_channels tab bus changed is sc (r, cm) = Some (Inr (sc, r, cm')) \<and> channels_closed changed (set is) cm cm'"
proof (induction "is" arbitrary: cm)
  case Nil
  then show ?case by (simp add: channels_closed_def changed_handles_def closed_ifs_refl)
next
  case (Cons i "is")
  let ?C = "mx_channel (mux_of cm)"
  show ?case
  proof (cases "bit changed i")
    case False
    have "changed_handles changed (set is) (mux_of cm) = changed_handles changed (set (i # is)) (mux_of cm)"
      using False by (auto simp: changed_handles_def)
    then obtain cm' where "mux_channels tab bus changed is sc (r, cm) = Some (Inr (sc, r, cm'))"
      "channels_closed changed (set is) cm cm'"
      using Cons.IH [of cm] Cons.prems False by auto
    then show ?thesis using False by (auto simp: Let_def channels_closed_skip)
  next
    case True
    have d: "distinct (md_handles (?C ! i))" "\<forall>x \<in> set (md_handles (?C ! i)). cm_heap cm x \<noteq> None"
      using Cons.prems(6,7) True by (auto simp: changed_handles_def)
    obtain c1 where c1: "mux_detach i 0 (length (?C ! i)) cm = Some c1" "closed_ifs (set (md_handles (?C ! i))) cm c1"
      "mux_of c1 = (mux_of cm)\<lparr>mx_channel := ?C[i := map md_clear (?C ! i)]\<rparr>"
      using mux_detach_closes [of cm i 0 "length (?C ! i)"] Cons.prems(1,2,4) d by auto
    have same: "mx_channel (mux_of c1) ! k = ?C ! k" if "k \<in> set is" for k
    proof -
      have "k \<noteq> i" using that Cons.prems(3) by auto
      then show ?thesis using c1(3) by simp
    qed
    have "map (\<lambda>i. md_handles (mx_channel (mux_of c1) ! i)) (filter (bit changed) is) =
        map (\<lambda>i. md_handles (?C ! i)) (filter (bit changed) is)"
      using same by simp
    moreover have "distinct (concat (map (\<lambda>i. md_handles (?C ! i)) (filter (bit changed) is)))"
      using Cons.prems(6) True by simp
    ultimately have "distinct (concat (map (\<lambda>i. md_handles (mx_channel (mux_of c1) ! i)) (filter (bit changed) is)))"
      by metis
    moreover have "\<forall>x \<in> changed_handles changed (set is) (mux_of c1). cm_heap c1 x \<noteq> None"
      using Cons.prems(6,7) True c1(2) same by (auto simp: closed_ifs_def changed_handles_def)
    ultimately obtain cm' where c2: "mux_channels tab bus changed is sc (r, c1) = Some (Inr (sc, r, cm'))"
      "channels_closed changed (set is) c1 cm'"
      using Cons.IH [of c1] Cons.prems(3-5) c1(2,3) by (auto simp: closed_ifs_def)
    have "channels_closed changed (set (i # is)) cm cm'"
      using channels_closed_step [OF True _ _ c1(2,3) c2(2)] Cons.prems(3,4) by simp
    then show ?thesis using True Cons.prems(5) c1(1) c2(1) by (auto simp: Let_def)
  qed
qed

lemma map_nth_fun: "map (\<lambda>i. f (xs ! i)) [0..<length xs] = map f xs"
  by (rule nth_equalityI) simp_all

text \<open>
  The register applied when channels are only taken away: exactly their devices' interfaces are
  closed, no handle of theirs is left, and the other channels keep theirs.
\<close>

lemma poll_deselects:
  assumes "cm_ok cm" "cm_conn_if cm = None" "length (mx_channel (mux_of cm)) = CHANNEL_LIMIT"
    "mx_write (mux_of cm) \<noteq> 0" "mx_stop (mux_of cm) \<noteq> 0"
    "changed = mx_chanp (mux_of cm) XOR mx_chan (mux_of cm)" "changed AND mx_chan (mux_of cm) = 0"
    "distinct (concat (map md_handles (mx_channel (mux_of cm))))"
    "\<forall>x \<in> set (concat (map md_handles (mx_channel (mux_of cm)))). cm_heap cm x \<noteq> None"
  shows "\<exists>cm'. i2c_mux_poll tab bus sc (r, cm) = Some (Inr (sc, r, cm')) \<and> cm_ok cm' \<and>
    cm_ifs cm' = filter (\<lambda>x. x \<notin> changed_handles changed {..<CHANNEL_LIMIT} (mux_of cm)) (cm_ifs cm) \<and>
    (\<forall>x \<in> changed_handles changed {..<CHANNEL_LIMIT} (mux_of cm). cm_heap cm' x = None) \<and>
    (\<forall>k < CHANNEL_LIMIT. mx_channel (mux_of cm') ! k =
      (if bit changed k then map md_clear (mx_channel (mux_of cm) ! k) else mx_channel (mux_of cm) ! k))"
proof -
  let ?c = "mux_update (\<lambda>st. st\<lparr>mx_write := 0, mx_stop := 0\<rparr>) cm"
  let ?C = "mx_channel (mux_of cm)"
  have b: "\<not> bit (mx_chan (mux_of cm)) i" if "bit changed i" for i
    using assms(7) that by (metis bit_and_iff bit_0_eq bot_apply bot_bool_def)
  have m: "map (\<lambda>i. md_handles (?C ! i)) [0..<CHANNEL_LIMIT] = map md_handles ?C"
    using map_nth_fun [of md_handles ?C] unfolding assms(3) .
  have sub: "distinct (concat (map f (filter P xs)))" if "distinct (concat (map f xs))" for f :: "nat \<Rightarrow> nat list" and P xs
    using that by (induction xs) auto
  have e: "changed_handles changed S (mux_of ?c) = changed_handles changed S (mux_of cm)" for S
    by (simp add: changed_handles_def)
  have "\<forall>x \<in> changed_handles changed (set [0..<CHANNEL_LIMIT]) (mux_of ?c). cm_heap ?c x \<noteq> None"
    using assms(3,9) by (auto simp: changed_handles_def)
  then obtain cm' where c: "mux_channels tab bus changed [0..<CHANNEL_LIMIT] sc (r, ?c) = Some (Inr (sc, r, cm'))"
    "channels_closed changed (set [0..<CHANNEL_LIMIT]) ?c cm'"
    using channels_close [of ?c "[0..<CHANNEL_LIMIT]" changed tab bus sc r] assms(1-3,8) b
      sub [of "\<lambda>i. md_handles (?C ! i)" "[0..<CHANNEL_LIMIT]" "bit changed"] m by auto
  have "i2c_mux_poll tab bus sc (r, cm) = Some (Inr (sc, r, cm'))"
    using c(1) assms(4-6) by (simp add: i2c_mux_poll_def i2c_mux_update_channels_def)
  then show ?thesis
    using c(2) unfolding channels_closed_def e by (intro exI [of _ cm']) (auto simp: closed_ifs_def atLeast0LessThan)
qed

end
