(* ===== verification/SpiMux.thy ===== *)
theory SpiMux
  imports Handshake
begin

text \<open>
  \<open>examples/spi-mux\<close>: an SPI multiplexer. Three pins select one of eight channels, a fourth enables
  it; the loop of \<open>main\<close> detaches the device of the channel selected before and attaches that of
  the channel selected now. The multiplexer's state is the client's state of the connection, and a
  table of callbacks is an address, which \<open>tab\<close> resolves. What the example prints is not modelled.
\<close>

section \<open>State\<close>

abbreviation (input) CHANNELS :: nat where "CHANNELS \<equiv> 8"
abbreviation (input) PIN_NUM :: nat where "PIN_NUM \<equiv> 4"
abbreviation (input) COREMODEL_SPI_BLOCK :: u16 where "COREMODEL_SPI_BLOCK \<equiv> 1"

record spi_channel =
  sc_name :: "byte list"
  sc_state :: nat
  sc_func :: nat
  sc_handle :: "nat option"

record spi_mux_state =
  sx_pin :: "int list"
  sx_channel :: "spi_channel list"
  sx_chan :: u8
  sx_chanp :: u8
  sx_update :: u8
  sx_en :: u8

definition spi_mux_init :: spi_mux_state where
  "spi_mux_init = \<lparr>sx_pin = replicate PIN_NUM 0,
     sx_channel = replicate CHANNELS \<lparr>sc_name = [], sc_state = 0, sc_func = 0, sc_handle = None\<rparr>,
     sx_chan = 0, sx_chanp = 0, sx_update = 0, sx_en = 0\<rparr>"

text \<open>A pin is its voltage; the callback's argument is its index. \<open>!!v\<close> is one bit.\<close>

definition spi_mux_gpio_notify :: "nat \<Rightarrow> int \<Rightarrow> spi_mux_state \<Rightarrow> (unit \<times> spi_mux_state) option" where
  "spi_mux_gpio_notify pin_idx mvolt st =
    (let st = st\<lparr>sx_chanp := sx_chan st\<rparr>;
         level = (if mvolt \<noteq> 0 then 1 else 0) :: u8;
         st = (if pin_idx < 3 then
                 st\<lparr>sx_pin := (sx_pin st)[pin_idx := mvolt],
                    sx_chan := (sx_chan st AND NOT (push_bit pin_idx 1)) OR push_bit pin_idx level\<rparr>
               else if pin_idx = 3 then st\<lparr>sx_pin := (sx_pin st)[pin_idx := mvolt], sx_en := level\<rparr>
               else st) in
     Some ((), st\<lparr>sx_update := 1\<rparr>))"

definition spi_mux_gpio_func :: "spi_mux_state gpio_func" where
  "spi_mux_gpio_func = \<lparr>gf_notify = Some (\<lambda>priv mvolt. pure_cb (spi_mux_gpio_notify priv mvolt))\<rparr>"

definition spi_mux_connect :: "nat \<Rightarrow> nat \<Rightarrow> nat \<Rightarrow> byte list \<Rightarrow> spi_mux_state \<Rightarrow> (int \<times> spi_mux_state) option" where
  "spi_mux_connect channel dev_func dev_priv name st =
    (if channel \<ge> CHANNELS then Some (1, st)
     else if length name \<ge> 32 then None
     else Some (0, st\<lparr>sx_channel := (sx_channel st)[channel :=
       (sx_channel st ! channel)\<lparr>sc_name := name, sc_state := dev_priv, sc_func := dev_func\<rparr>]\<rparr>))"

section \<open>The loop of \<open>main\<close>\<close>

text \<open>What \<open>main\<close> sets when the pins are attached and the channels connected, before its loop.\<close>

definition spi_mux_reset :: "spi_mux_state \<Rightarrow> spi_mux_state" where
  "spi_mux_reset st = st\<lparr>sx_chanp := 0, sx_chan := 0, sx_update := 0\<rparr>"

definition spi_of :: "spi_mux_state cm \<Rightarrow> spi_mux_state" where
  "spi_of cm = h_usr (cm_host cm)"

definition spi_update :: "(spi_mux_state \<Rightarrow> spi_mux_state) \<Rightarrow> spi_mux_state cm \<Rightarrow> spi_mux_state cm" where
  "spi_update f cm = cm\<lparr>cm_host := (cm_host cm)\<lparr>h_usr := f (h_usr (cm_host cm))\<rparr>\<rparr>"

definition spi_set_handle :: "nat \<Rightarrow> nat option \<Rightarrow> spi_mux_state \<Rightarrow> spi_mux_state" where
  "spi_set_handle i handle st =
     st\<lparr>sx_channel := (sx_channel st)[i := (sx_channel st ! i)\<lparr>sc_handle := handle\<rparr>]\<rparr>"

text \<open>Detaching the channel selected before; the index is not checked.\<close>

definition spi_mux_release :: "spi_mux_state cm \<Rightarrow> spi_mux_state cm option" where
  "spi_mux_release cm =
    (let cm = spi_update (\<lambda>st. st\<lparr>sx_update := 0\<rparr>) cm; i = unat (sx_chanp (spi_of cm)) in
     if i \<ge> CHANNELS then None
     else case sc_handle (sx_channel (spi_of cm) ! i) of
       None \<Rightarrow> Some cm
     | Some x \<Rightarrow> do { cm \<leftarrow> coremodel_detach (Some x) cm; Some (spi_update (spi_set_handle i None) cm) })"

text \<open>
  Attaching the channel selected now; its clock and rounds are an argument. The handle goes to
  the channel selected when the attach is over: C leaves open when the index is read.
\<close>

definition spi_mux_select ::
  "(nat \<Rightarrow> spi_mux_state spi_func) \<Rightarrow> byte list \<Rightarrow> u32 \<Rightarrow> int \<times> round list \<Rightarrow> ring \<times> spi_mux_state cm \<Rightarrow>
     ((ring \<times> spi_mux_state cm) + ring \<times> spi_mux_state cm) option" where
  "spi_mux_select tab bus cs script s =
    (let st = spi_of (snd s); i = unat (sx_chan st) in
     if sx_en st = 0 then Some (Inr s)
     else if i \<ge> CHANNELS then None
     else do {
       out \<leftarrow> coremodel_attach_spi bus cs (tab (sc_func (sx_channel st ! i))) 0 COREMODEL_SPI_BLOCK (fst script) (snd script) s;
       (case out of
          Inl s \<Rightarrow> Some (Inl s)
        | Inr (handle, r, cm) \<Rightarrow> Some (Inr (r, spi_update (spi_set_handle (unat (sx_chan (spi_of cm))) handle) cm))) })"

text \<open>One second of the main loop; then, when a pin moved, the change of channel. The flag says whether to go on.\<close>

record spi_script =
  ss_wait :: "int \<times> round list"
  ss_pause :: "int \<times> round list"
  ss_attach :: "int \<times> round list"
  ss_settle :: "int \<times> round list"

definition spi_mainloop where
  "spi_mainloop script s = coremodel_mainloop (fst script) 1000000 (snd script) s"

definition spi_mux_round ::
  "(nat \<Rightarrow> spi_mux_state spi_func) \<Rightarrow> byte list \<Rightarrow> u32 \<Rightarrow> spi_script \<Rightarrow> ring \<times> spi_mux_state cm \<Rightarrow>
     ((ring \<times> spi_mux_state cm) + bool \<times> ring \<times> spi_mux_state cm) option" where
  "spi_mux_round tab bus cs script s = do {
     out \<leftarrow> spi_mainloop (ss_wait script) s;
     (case out of
        Inl s \<Rightarrow> Some (Inl s)
      | Inr (res, r, cm) \<Rightarrow>
          if res < 0 then Some (Inr (False, r, cm))
          else if sx_update (spi_of cm) = 0 then Some (Inr (True, r, cm))
          else do {
            cm \<leftarrow> spi_mux_release cm;
            out \<leftarrow> spi_mainloop (ss_pause script) (r, cm);
            (case out of
               Inl s \<Rightarrow> Some (Inl s)
             | Inr (_, s) \<Rightarrow> do {
                 out \<leftarrow> spi_mux_select tab bus cs (ss_attach script) s;
                 (case out of
                    Inl s \<Rightarrow> Some (Inl s)
                  | Inr s \<Rightarrow> do {
                      out \<leftarrow> spi_mainloop (ss_settle script) s;
                      (case out of
                         Inl s \<Rightarrow> Some (Inl s)
                       | Inr (_, s) \<Rightarrow> Some (Inr (True, s))) }) }) }) }"

section \<open>The dummy devices\<close>

definition dummy_spi_cs :: "u32 \<Rightarrow> 'd \<Rightarrow> (unit \<times> 'd) option" where
  "dummy_spi_cs csel d = Some ((), d)"

definition dummy_spi_xfr :: "byte list \<Rightarrow> 'd \<Rightarrow> ((int \<times> byte list) \<times> 'd) option" where
  "dummy_spi_xfr wrdata d =
     Some ((int (length wrdata), map (\<lambda>idx. 0x41 + (of_nat idx AND 63)) [0..<length wrdata]), d)"

definition dummy_spi_func :: "'d spi_func" where
  "dummy_spi_func = spi_table dummy_spi_cs dummy_spi_xfr"

interpretation spi_dummy: spi_device dummy_spi_cs dummy_spi_xfr "\<lambda>_. True"
  by unfold_locales (simp_all add: dummy_spi_cs_def dummy_spi_xfr_def)

section \<open>The pins and the channel\<close>

text \<open>
  The arrays have their sizes and are never exceeded, and the fourth pin enables. The channel is made of
  the pins that have moved since \<open>main\<close> set it to zero (\<open>spi_mux_shows\<close>).
\<close>

definition spi_mux_ok :: "spi_mux_state \<Rightarrow> bool" where
  "spi_mux_ok st \<longleftrightarrow> length (sx_pin st) = PIN_NUM \<and> length (sx_channel st) = CHANNELS \<and>
     sx_chan st < 8 \<and> sx_chanp st < 8 \<and> (sx_en st \<noteq> 0 \<longleftrightarrow> sx_pin st ! 3 \<noteq> 0)"

definition spi_mux_shows :: "nat set \<Rightarrow> spi_mux_state \<Rightarrow> bool" where
  "spi_mux_shows A st \<longleftrightarrow> (\<forall>i < 3. bit (sx_chan st) i \<longleftrightarrow> i \<in> A \<and> sx_pin st ! i \<noteq> 0)"

lemma chan_less:
  assumes "\<forall>i < 8. bit (w :: u8) i \<longrightarrow> i < 3"
  shows "w < 8"
proof -
  have "take_bit 3 w = w"
    by (rule bit_word_eqI) (use assms in \<open>auto simp: bit_simps\<close>)
  then have "take_bit 3 (unat w) = unat w" by (metis unsigned_take_bit_eq)
  moreover have "take_bit 3 (unat w) < 8" using take_bit_nat_less_exp [of 3 "unat w"] by simp
  ultimately show ?thesis by (simp add: word_less_nat_alt)
qed

lemma less_8_bits: "(w :: u8) < 8 \<Longrightarrow> 3 \<le> i \<Longrightarrow> \<not> bit w i"
proof -
  assume "w < 8" "3 \<le> i"
  then have "unat w < 2 ^ 3" by (simp add: word_less_nat_alt)
  then have "take_bit 3 (unat w) = unat w" by (simp only: take_bit_nat_eq_self_iff)
  then have "take_bit 3 w = w" by (metis unsigned_take_bit_eq word_unat_eq_iff)
  then have "bit w i \<longleftrightarrow> bit (take_bit 3 w) i" by simp
  then show ?thesis using \<open>3 \<le> i\<close> by (simp add: bit_simps)
qed

lemma spi_init_ok: "spi_mux_ok spi_mux_init" and spi_init_shows: "spi_mux_shows {} spi_mux_init"
  by (simp_all add: spi_mux_ok_def spi_mux_shows_def spi_mux_init_def)

lemma spi_reset_ok: "spi_mux_ok st \<Longrightarrow> spi_mux_ok (spi_mux_reset st)"
  and spi_reset_shows: "spi_mux_shows {} (spi_mux_reset st)"
  by (simp_all add: spi_mux_ok_def spi_mux_shows_def spi_mux_reset_def)

lemma spi_chan_less: "spi_mux_ok st \<Longrightarrow> sx_chan st < 8"
  by (simp add: spi_mux_ok_def)

lemma notify_ok:
  assumes "spi_mux_ok st" "spi_mux_shows A st" "pin_idx < PIN_NUM"
  shows "\<exists>st'. spi_mux_gpio_notify pin_idx mvolt st = Some ((), st') \<and> spi_mux_ok st' \<and>
    spi_mux_shows (insert pin_idx A) st' \<and>
    sx_pin st' = (sx_pin st)[pin_idx := mvolt] \<and> sx_chanp st' = sx_chan st \<and> sx_update st' = 1 \<and>
    sx_channel st' = sx_channel st"
proof -
  let ?level = "(if mvolt \<noteq> 0 then 1 else 0) :: u8"
  let ?chan = "(sx_chan st AND NOT (push_bit pin_idx 1)) OR push_bit pin_idx ?level"
  have c: "sx_chan st < 8" using assms(1) by (rule spi_chan_less)
  have b: "bit ?chan i \<longleftrightarrow> (if i = pin_idx then mvolt \<noteq> 0 else bit (sx_chan st) i)" if "i < 8" "pin_idx < 3" for i
    using that by (auto simp: bit_simps)
  have l: "?chan < 8" if "pin_idx < 3"
    by (rule chan_less) (use that b less_8_bits [OF c] in \<open>auto simp: not_less [symmetric]\<close>)
  have p: "length (sx_pin st) = PIN_NUM" using assms(1) by (simp add: spi_mux_ok_def)
  show ?thesis
  proof (cases "pin_idx < 3")
    case True
    have "spi_mux_shows (insert pin_idx A) (st\<lparr>sx_chanp := sx_chan st, sx_pin := (sx_pin st)[pin_idx := mvolt], sx_chan := ?chan, sx_update := 1\<rparr>)"
      using assms(2) b True p by (simp add: spi_mux_shows_def nth_list_update)
    then show ?thesis
      using assms(1) c l True p by (simp add: spi_mux_gpio_notify_def Let_def spi_mux_ok_def)
  next
    case False
    then have "pin_idx = 3" using assms(3) by simp
    then show ?thesis
      using assms c p by (auto simp: spi_mux_gpio_notify_def Let_def spi_mux_ok_def spi_mux_shows_def nth_list_update)
  qed
qed

text \<open>The calls of the callback for a sequence of pin changes.\<close>

fun notifies :: "(nat \<times> int) list \<Rightarrow> spi_mux_state \<Rightarrow> spi_mux_state option" where
  "notifies [] st = Some st"
| "notifies ((i, v) # es) st = do { (_, st) \<leftarrow> spi_mux_gpio_notify i v st; notifies es st }"

lemma notifies_ok:
  "spi_mux_ok st \<Longrightarrow> spi_mux_shows A st \<Longrightarrow> \<forall>(i, v) \<in> set es. i < PIN_NUM \<Longrightarrow>
     \<exists>st'. notifies es st = Some st' \<and> spi_mux_ok st' \<and> spi_mux_shows (A \<union> fst ` set es) st' \<and>
       sx_channel st' = sx_channel st \<and> sx_pin st' = foldl (\<lambda>ps (i, v). ps[i := v]) (sx_pin st) es"
proof (induction es arbitrary: st A)
  case (Cons e es)
  obtain i v where e: "e = (i, v)" by (cases e)
  obtain st1 where st1: "spi_mux_gpio_notify i v st = Some ((), st1)" "spi_mux_ok st1" "spi_mux_shows (insert i A) st1"
    "sx_pin st1 = (sx_pin st)[i := v]" "sx_channel st1 = sx_channel st"
    using notify_ok [of st A i v] Cons.prems e by auto
  have "\<forall>(i, v) \<in> set es. i < PIN_NUM" using Cons.prems(3) by simp
  from Cons.IH [OF st1(2,3) this] st1 e show ?case by auto
qed simp

section \<open>Changing the channel\<close>

lemma spi_of_update [simp]: "spi_of (spi_update f cm) = f (spi_of cm)"
  by (simp add: spi_of_def spi_update_def)

lemma spi_update_simps [simp]:
  "cm_ifs (spi_update f cm) = cm_ifs cm" "cm_heap (spi_update f cm) = cm_heap cm" "cm_next (spi_update f cm) = cm_next cm"
  "cm_conn_if (spi_update f cm) = cm_conn_if cm" "cm_ok (spi_update f cm) = cm_ok cm" "cm_query (spi_update f cm) = cm_query cm"
  "cm_fd (spi_update f cm) = cm_fd cm" "cm_defer (spi_update f cm) = cm_defer cm"
  "h_oom (cm_host (spi_update f cm)) = h_oom (cm_host cm)" "h_txbufs (cm_host (spi_update f cm)) = h_txbufs (cm_host cm)"
  by (simp_all add: spi_update_def)

text \<open>The release closes the interface of the channel before the last pin change, and no other.\<close>

lemma release_closes:
  assumes "cm_ok cm" "cm_conn_if cm = None" "spi_mux_ok (spi_of cm)"
    "sc_handle (sx_channel (spi_of cm) ! unat (sx_chanp (spi_of cm))) = Some x" "cm_heap cm x \<noteq> None"
  shows "\<exists>cm'. spi_mux_release cm = Some cm' \<and> cm_ok cm' \<and> cm_ifs cm' = removeAll x (cm_ifs cm) \<and> cm_heap cm' x = None \<and>
    (\<forall>k < CHANNELS. sc_handle (sx_channel (spi_of cm') ! k) =
      (if k = unat (sx_chanp (spi_of cm)) then None else sc_handle (sx_channel (spi_of cm) ! k)))"
proof -
  let ?i = "unat (sx_chanp (spi_of cm))"
  let ?c = "spi_update (\<lambda>st. st\<lparr>sx_update := 0\<rparr>) cm"
  have i: "?i < CHANNELS" "length (sx_channel (spi_of cm)) = CHANNELS"
    using assms(3) by (simp_all add: spi_mux_ok_def word_less_nat_alt)
  obtain h where h: "coremodel_detach (Some x) ?c =
      Some (?c\<lparr>cm_ifs := removeAll x (cm_ifs ?c), cm_host := h, cm_heap := (cm_heap ?c)(x := None)\<rparr>)"
    "h_usr h = h_usr (cm_host ?c)"
    using detach_result [of ?c x] assms(1,5) by auto
  obtain cm1 where cm1: "coremodel_detach (Some x) ?c = Some cm1" "cm_ok cm1" "cm_heap cm1 x = None"
    "cm_ifs cm1 = removeAll x (cm_ifs ?c)"
    using detach_live [of ?c x] assms(1,2,5) by auto
  have "spi_of cm1 = spi_of ?c" using h cm1(1) by (auto simp: spi_of_def)
  then show ?thesis
    using cm1 i assms(4) by (auto simp: spi_mux_release_def spi_set_handle_def Let_def nth_list_update)
qed

lemma release_nothing:
  assumes "spi_mux_ok (spi_of cm)" "sc_handle (sx_channel (spi_of cm) ! unat (sx_chanp (spi_of cm))) = None"
  shows "spi_mux_release cm = Some (spi_update (\<lambda>st. st\<lparr>sx_update := 0\<rparr>) cm)"
proof -
  have "unat (sx_chanp (spi_of cm)) < CHANNELS" using assms(1) by (simp add: spi_mux_ok_def word_less_nat_alt)
  then show ?thesis using assms(2) by (simp add: spi_mux_release_def Let_def)
qed

text \<open>
  Two pins that move before the loop comes round: the channel remembered is the one between the
  two moves, so the interface of the one in use stays attached.
\<close>

lemma two_pins_keep:
  assumes ok: "spi_mux_ok st" "spi_mux_shows A st" and p: "i < 3" "j < 3" "i \<in> A" "(sx_pin st ! i \<noteq> 0) \<noteq> (v \<noteq> 0)"
    and n: "notifies [(i, v), (j, w)] st = Some (spi_of cm)"
    and h: "\<And>k. sc_handle (sx_channel st ! k) = (if k = unat (sx_chan st) then Some x else None)"
  shows "spi_mux_release cm = Some (spi_update (\<lambda>st. st\<lparr>sx_update := 0\<rparr>) cm)"
proof -
  obtain st1 where st1: "spi_mux_gpio_notify i v st = Some ((), st1)" "spi_mux_ok st1" "sx_pin st1 = (sx_pin st)[i := v]"
    "sx_channel st1 = sx_channel st" "spi_mux_shows (insert i A) st1"
    using notify_ok [of st A i v] ok p(1) by auto
  obtain st2 where st2: "spi_mux_gpio_notify j w st1 = Some ((), st2)" "spi_mux_ok st2" "sx_chanp st2 = sx_chan st1"
    "sx_channel st2 = sx_channel st1"
    using notify_ok [of st1 "insert i A" j w] st1(2,5) p(2) by auto
  have s: "spi_of cm = st2" using n st1(1) st2(1) by simp
  have "length (sx_pin st) = PIN_NUM" using ok by (simp add: spi_mux_ok_def)
  then have "bit (sx_chan st1) i \<noteq> bit (sx_chan st) i"
    using st1(3,5) ok(2) p by (auto simp: spi_mux_shows_def)
  then have "sx_chan st1 \<noteq> sx_chan st" by auto
  then have "unat (sx_chanp st2) \<noteq> unat (sx_chan st)" using st2(3) by (metis word_unat_eq_iff)
  then have "sc_handle (sx_channel st2 ! unat (sx_chanp st2)) = None" using h st1(4) st2(4) by simp
  with release_nothing [of cm] st2(2) s show ?thesis by simp
qed

end
