(* ===== verification/Adxl.thy ===== *)
theory Adxl
  imports I2c Gpio Complex_Main "HOL-Library.Signed_Division"
begin

text \<open>
  \<open>examples/i2c-adxl36x/coremodel-adxl36x.c\<close>, the state of the accelerometer, its timers, its
  samples and its FIFO. The one-byte fields named after registers are the function \<open>ax_reg\<close> from the
  register's address (\<open>status[0]\<close>, \<open>[1]\<close>, \<open>[2]\<close> are at the addresses of \<open>STATUS\<close>, \<open>STATUS_2\<close> and
  \<open>STATUS_3\<close>). A 64-bit signed field is an \<open>int\<close>, whose values stay small; a \<open>float\<close> is the rational
  number it stands for. The lock makes each callback and each timer event one step.
\<close>

section \<open>Floating point\<close>

text \<open>
  Rounding of a positive number to \<open>p\<close> binary digits, to the nearest, ties to even. Each step
  changes the exponent by one, so 200 steps reach all numbers that a \<open>float\<close> and its reciprocal have.
\<close>

definition round_even :: "rat \<Rightarrow> int" where
  "round_even x = (let n = \<lfloor>x\<rfloor>; d = x - of_int n in
     if d < 1 / 2 then n else if d > 1 / 2 then n + 1 else if even n then n else n + 1)"

fun fl_round :: "nat \<Rightarrow> nat \<Rightarrow> rat \<Rightarrow> rat" where
  "fl_round p 0 x = x"
| "fl_round p (Suc n) x =
    (if x \<ge> 2 ^ p then 2 * fl_round p n (x / 2)
     else if x < 2 ^ (p - 1) then fl_round p n (2 * x) / 2
     else of_int (round_even x))"

definition f32 :: "rat \<Rightarrow> rat" where
  "f32 x = (if x = 0 then 0 else fl_round 24 200 x)"

definition f64 :: "rat \<Rightarrow> rat" where
  "f64 x = (if x = 0 then 0 else fl_round 53 200 x)"

text \<open>The conversion to \<open>unsigned\<close>, which is undefined above the range.\<close>

definition to_u32 :: "rat \<Rightarrow> u32 option" where
  "to_u32 x = (if \<lfloor>x\<rfloor> < 2 ^ 32 then Some (word_of_int \<lfloor>x\<rfloor>) else None)"

text \<open>Evaluation on numerals.\<close>

lemma fl_round_numeral:
  "fl_round p (numeral k) x =
    (if x \<ge> 2 ^ p then 2 * fl_round p (pred_numeral k) (x / 2)
     else if x < 2 ^ (p - 1) then fl_round p (pred_numeral k) (2 * x) / 2
     else of_int (round_even x))"
  by (simp add: numeral_eq_Suc)

lemma floor_rat_numeral: "\<lfloor>numeral a / numeral b :: rat\<rfloor> = numeral a div numeral b"
  using floor_divide_of_int_eq [of "numeral a" "numeral b", where 'a = rat] by simp

lemmas float_eval = f32_def f64_def to_u32_def fl_round_numeral round_even_def floor_rat_numeral Let_def

section \<open>State\<close>

abbreviation (input) FIFO_SIZE :: nat where "FIFO_SIZE \<equiv> 2048"
abbreviation (input) MAX_TIMERS :: nat where "MAX_TIMERS \<equiv> 8"

text \<open>
  A timer: the nanoseconds of \<open>it_value\<close> and \<open>it_interval\<close> (the seconds are always zero), the
  value and interval the kernel's timer was last set to, and whether \<open>epoll\<close> watches it.
\<close>

record timer_evt =
  te_value :: u32
  te_interval :: u32
  te_setting :: "u32 \<times> u32"
  te_polled :: bool

record adxl_pin =
  ap_handle :: "core option"
  ap_mvolt :: int

record adxl =
  ax_reg :: "u8 \<Rightarrow> u8"
  ax_addr :: u8
  ax_count :: u8
  ax_stc :: u8
  tap_sample :: u8
  tap_state :: u8
  activity_mode :: u32
  data_range :: u32
  tme_init :: u32
  act_threshold :: u32
  inact_threshold :: u32
  temp_threshold_h :: u32
  temp_threshold_l :: u32
  time_inact :: u32
  act_ref :: "u32 list"
  inact_ref :: "u32 list"
  time_temp_inact :: u32
  time_temp_act :: u32
  sample_count :: u32
  sample_fifo_wpt :: u32
  sample_fifo_rpt :: u32
  read_count :: u32
  sample_size :: u32
  fifo_count :: u32
  sample_fifo :: "u16 list"
  fifo_trig :: u16
  tme_cnt :: u64
  tap_time :: u64
  timer_count :: u64
  ax_accel :: "int list"
  ax_temp :: int
  odr :: rat
  irq_line :: "u32 list"
  ax_pin :: "adxl_pin list"
  tmevt :: "timer_evt list"

text \<open>The addresses and bits the code tests.\<close>

abbreviation (input) REG_STATUS :: u8 where "REG_STATUS \<equiv> 0x0B"
abbreviation (input) REG_STATUS_2 :: u8 where "REG_STATUS_2 \<equiv> 0x45"
abbreviation (input) REG_TIME_ACT :: u8 where "REG_TIME_ACT \<equiv> 0x22"
abbreviation (input) REG_ACT_INACT_CTL :: u8 where "REG_ACT_INACT_CTL \<equiv> 0x27"
abbreviation (input) REG_FIFO_CONTROL :: u8 where "REG_FIFO_CONTROL \<equiv> 0x28"
abbreviation (input) REG_FIFO_SAMPLES :: u8 where "REG_FIFO_SAMPLES \<equiv> 0x29"
abbreviation (input) REG_FILTER_CTL :: u8 where "REG_FILTER_CTL \<equiv> 0x2C"
abbreviation (input) REG_POWER_CTL :: u8 where "REG_POWER_CTL \<equiv> 0x2D"
abbreviation (input) REG_SELF_TEST :: u8 where "REG_SELF_TEST \<equiv> 0x2E"
abbreviation (input) REG_ADC_CTL :: u8 where "REG_ADC_CTL \<equiv> 0x3C"
abbreviation (input) REG_TEMP_CTL :: u8 where "REG_TEMP_CTL \<equiv> 0x3D"
abbreviation (input) REG_AXIS_MASK :: u8 where "REG_AXIS_MASK \<equiv> 0x43"
abbreviation (input) REG_I2C_FIFO_DATA :: u8 where "REG_I2C_FIFO_DATA \<equiv> 0x18"
abbreviation (input) REG_SOFT_RESET :: u8 where "REG_SOFT_RESET \<equiv> 0x1F"

definition set_reg :: "u8 \<Rightarrow> u8 \<Rightarrow> adxl \<Rightarrow> adxl" where
  "set_reg a b st = st\<lparr>ax_reg := (ax_reg st)(a := b)\<rparr>"

definition status_set :: "u8 \<Rightarrow> u8 \<Rightarrow> adxl \<Rightarrow> adxl" where
  "status_set a b st = set_reg a (ax_reg st a OR b) st"

definition status_clear :: "u8 \<Rightarrow> u8 \<Rightarrow> adxl \<Rightarrow> adxl" where
  "status_clear a b st = set_reg a (ax_reg st a AND NOT b) st"

section \<open>Timers\<close>

text \<open>\<open>timerfd_settime\<close> with the timer's own times refuses nanoseconds of a second or more.\<close>

definition timer_settime :: "timer_evt \<Rightarrow> timer_evt" where
  "timer_settime t =
    (if te_value t \<ge> 1000000000 \<or> te_interval t \<ge> 1000000000 then t
     else t\<lparr>te_setting := (te_value t, te_interval t)\<rparr>)"

definition timer_zero :: "timer_evt \<Rightarrow> timer_evt" where
  "timer_zero t = timer_settime (t\<lparr>te_value := 0, te_interval := 0\<rparr>)"

definition on_timer :: "nat \<Rightarrow> (timer_evt \<Rightarrow> timer_evt) \<Rightarrow> adxl \<Rightarrow> adxl" where
  "on_timer i f st = st\<lparr>tmevt := (tmevt st)[i := f (tmevt st ! i)]\<rparr>"

definition timer_evt_init :: "int \<Rightarrow> adxl \<Rightarrow> adxl" where
  "timer_evt_init epfd st = (if epfd = 0 then st else st\<lparr>tmevt := replicate MAX_TIMERS
     \<lparr>te_value = 0, te_interval = 0, te_setting = (0, 0), te_polled = True\<rparr>\<rparr>)"

definition timer_evt_reset :: "adxl \<Rightarrow> adxl" where
  "timer_evt_reset st = st\<lparr>tmevt := map (\<lambda>t. (timer_zero t)\<lparr>te_polled := True\<rparr>) (tmevt st)\<rparr>"

definition timer_evt_free :: "adxl \<Rightarrow> adxl" where
  "timer_evt_free st = st\<lparr>tmevt := map (\<lambda>t. (timer_zero t)\<lparr>te_polled := False\<rparr>) (tmevt st)\<rparr>"

definition timer_evt_start :: "adxl \<Rightarrow> adxl" where
  "timer_evt_start st = on_timer 0 (\<lambda>t. timer_settime (t\<lparr>te_polled := True\<rparr>)) st"

definition timer_evt_stop :: "adxl \<Rightarrow> adxl" where
  "timer_evt_stop st = on_timer 0 (\<lambda>t. t\<lparr>te_polled := False, te_setting := (0, 0)\<rparr>) st"

definition frequency_nsec :: "rat \<Rightarrow> u32 option" where
  "frequency_nsec hz = to_u32 (f32 (f32 (f64 (1 / hz)) * 1000000000))"

definition timer_evt_set_frequency :: "rat \<Rightarrow> adxl \<Rightarrow> adxl option" where
  "timer_evt_set_frequency hz st = do {
     nsec \<leftarrow> frequency_nsec hz;
     Some (on_timer 0 (\<lambda>t. (timer_zero t)\<lparr>te_polled := True, te_value := nsec, te_interval := nsec\<rparr>) st) }"

definition timer_evt_set_oneshot :: "nat \<Rightarrow> u32 \<Rightarrow> adxl \<Rightarrow> adxl" where
  "timer_evt_set_oneshot idx nsec st =
    (if idx = 0 then st
     else on_timer idx (\<lambda>t. timer_settime ((timer_zero t)\<lparr>te_polled := True, te_interval := nsec\<rparr>)) st)"

text \<open>The time of a one-shot timer, \<open>(unsigned)(((float)time / odr) * 1000000000)\<close>.\<close>

definition oneshot_nsec :: "nat \<Rightarrow> rat \<Rightarrow> u32 option" where
  "oneshot_nsec time hz = (if hz = 0 then None else to_u32 (f32 (f32 (f32 (of_nat time) / hz) * 1000000000)))"

definition oneshot :: "nat \<Rightarrow> nat \<Rightarrow> adxl \<Rightarrow> adxl option" where
  "oneshot idx time st = do { nsec \<leftarrow> oneshot_nsec time (odr st); Some (timer_evt_set_oneshot idx nsec st) }"

section \<open>Pins\<close>

definition adxl_gpio_notify :: "nat \<Rightarrow> int \<Rightarrow> adxl \<Rightarrow> (unit \<times> adxl) option" where
  "adxl_gpio_notify idx mvolt st =
    (if idx < length (ax_pin st) then Some ((), st\<lparr>ax_pin := (ax_pin st)[idx := (ax_pin st ! idx)\<lparr>ap_mvolt := mvolt\<rparr>]\<rparr>)
     else None)"

definition adxl_set_pin :: "nat \<Rightarrow> int \<Rightarrow> adxl host \<Rightarrow> adxl host option" where
  "adxl_set_pin idx mvolt h =
    (case ap_handle (ax_pin (h_usr h) ! idx) of
       Some c \<Rightarrow> coremodel_gpio_set (Some c) 1 mvolt h
     | None \<Rightarrow> Some h)"

definition irq_level :: "adxl \<Rightarrow> nat \<Rightarrow> u32" where
  "irq_level st idx =
    (let lower = ax_reg st (0x2A + of_nat idx); upper = ax_reg st (0x3A + of_nat idx);
         status = ax_reg st REG_STATUS; status2 = ax_reg st REG_STATUS_2 in
     if (status AND lower AND 0x7F) OR (status2 AND upper AND 0xBF) OR (status AND upper AND 0x80) \<noteq> 0 then 1 else 0)"

definition irq_pin :: "nat \<Rightarrow> adxl host \<Rightarrow> adxl host option" where
  "irq_pin idx h =
    (let irql = irq_level (h_usr h) idx in
     if irql \<noteq> irq_line (h_usr h) ! idx then do {
       h \<leftarrow> adxl_set_pin idx (if ap_mvolt (ax_pin (h_usr h) ! idx) \<noteq> 0 then 0 else 3300) h;
       Some (h\<lparr>h_usr := (h_usr h)\<lparr>irq_line := (irq_line (h_usr h))[idx := irql]\<rparr>\<rparr>) }
     else Some h)"

definition adi_adxl36x_irq_update :: "adxl host \<Rightarrow> adxl host option" where
  "adi_adxl36x_irq_update h = do { h \<leftarrow> irq_pin 0 h; irq_pin 1 h }"

section \<open>Samples\<close>

definition range_scale :: "int list" where
  "range_scale = [1, 2, 4]"

definition filter_range :: "adxl \<Rightarrow> nat" where
  "filter_range st = unat (drop_bit 6 (ax_reg st REG_FILTER_CTL AND 0xC0))"

text \<open>The high and low bytes of a sample, stored from register \<open>a\<close> on.\<close>

definition set_data :: "u8 \<Rightarrow> int \<Rightarrow> adxl \<Rightarrow> adxl" where
  "set_data a v st = set_reg (a + 1) (word_of_int (v AND 0x00FC)) (set_reg a (word_of_int (drop_bit 8 (v AND 0xFF00))) st)"

text \<open>A range of 3 is outside the table.\<close>

definition adi_adxl36x_accel_convert :: "adxl \<Rightarrow> adxl option" where
  "adi_adxl36x_accel_convert st =
    (if filter_range st \<ge> length range_scale then None
     else
       let v = drop_bit 4 (((2509 * 256000000 + 32768) sdiv 2510502) sdiv (range_scale ! filter_range st));
           st = set_data 0x12 v (set_data 0x10 v (set_data 0x0E v st)) in
       Some (st\<lparr>ax_accel := replicate 3 (drop_bit 2 v)\<rparr>))"

definition adi_adxl36x_temp_convert :: "adxl \<Rightarrow> adxl" where
  "adi_adxl36x_temp_convert st =
    (let v = drop_bit 6 (drop_bit 8 ((6400 - 6400) * 13824) + 42240) in
     (set_data 0x14 v st)\<lparr>ax_temp := drop_bit 2 v\<rparr>)"

section \<open>The FIFO\<close>

text \<open>The samples of the three axes, all of which come from the first one, and the temperature.\<close>

definition temp_buf :: "adxl \<Rightarrow> u16 list" where
  "temp_buf st =
    (let x = word_of_int (ax_accel st ! 0) :: u16; t = word_of_int (ax_temp st);
         mode = drop_bit 6 (ax_reg st REG_ADC_CTL AND 0xC0) in
     if mode = 1 then map (drop_bit 6) [x, x, x, t]
     else if mode = 2 then map (drop_bit 4) [x, x, x, t]
     else [x, x OR push_bit 14 1, x OR push_bit 14 2, t OR push_bit 14 3])"

definition fifo_select :: "u8 \<Rightarrow> u16 list \<Rightarrow> u16 list option" where
  "fifo_select sel buf =
    (let x = buf ! 0; y = buf ! 1; z = buf ! 2; t = buf ! 3 in
     if sel = 0x00 then Some [x, y, z]
     else if sel = 0x08 then Some [x]
     else if sel = 0x10 then Some [y]
     else if sel = 0x18 then Some [z]
     else if sel = 0x20 then Some [x, y, z, t]
     else if sel = 0x28 then Some [x, t]
     else if sel = 0x30 then Some [y, t]
     else if sel = 0x38 then Some [z, t]
     else if sel = 0x40 then Some [x, y, z, 0]
     else if sel = 0x48 then Some [x, 0]
     else if sel = 0x50 then Some [y, 0]
     else if sel = 0x58 then Some [z, 0]
     else None)"

fun fifo_put :: "u16 list \<Rightarrow> adxl \<Rightarrow> adxl" where
  "fifo_put [] st = st"
| "fifo_put (v # vs) st = fifo_put vs (st\<lparr>
     sample_fifo := (sample_fifo st)[unat (sample_fifo_wpt st) mod FIFO_SIZE := v],
     sample_fifo_wpt := sample_fifo_wpt st + 1\<rparr>)"

definition fifo_samples :: "adxl \<Rightarrow> u32" where
  "fifo_samples st = push_bit 6 (ucast (ax_reg st REG_FIFO_CONTROL AND 4)) OR ucast (ax_reg st REG_FIFO_SAMPLES)"

definition fifo_wsize :: "adxl \<Rightarrow> u32" where
  "fifo_wsize st = of_nat FIFO_SIZE - (sample_fifo_wpt st - sample_fifo_rpt st)"

definition watermark :: "adxl \<Rightarrow> adxl" where
  "watermark st = (if sample_count st \<ge> fifo_samples st then status_set REG_STATUS 4 st else st)"

definition fifo_store :: "adxl \<Rightarrow> adxl" where
  "fifo_store st =
    (case fifo_select (ax_reg st REG_FIFO_CONTROL AND 0x78) (temp_buf st) of
       None \<Rightarrow> watermark st
     | Some vs \<Rightarrow>
         if fifo_wsize st < of_nat (length vs) then st
         else watermark ((fifo_put vs (st\<lparr>sample_size := of_nat (length vs)\<rparr>))\<lparr>
           sample_count := sample_count st + 1, fifo_count := fifo_count st + of_nat (length vs)\<rparr>))"

definition adi_adxl36x_fifo_sample :: "adxl \<Rightarrow> adxl" where
  "adi_adxl36x_fifo_sample st =
    (let control = ax_reg st REG_FIFO_CONTROL AND 3 in
     if control = 1 \<and> fifo_wsize st = 0 then status_set REG_STATUS 8 st
     else if control = 3 \<and> (sample_count st = fifo_samples st \<or> fifo_trig st = 0 \<or> fifo_wsize st = 0) then st
     else fifo_store st)"

end
