(* ===== verification/AdxlIo.thy ===== *)
theory AdxlIo
  imports Adxl
begin

text \<open>
  \<open>examples/i2c-adxl36x/coremodel-adxl36x.c\<close>, the operations of the accelerometer: reset, the four
  callbacks of the I2C interface and the events of the timers. \<open>None\<close> is an index outside a
  table or a conversion from \<open>float\<close> out of range.
\<close>

section \<open>Start, stop, reset\<close>

definition adi_adxl36x_stop :: "adxl \<Rightarrow> (unit \<times> adxl) option" where
  "adi_adxl36x_stop st = Some ((), st\<lparr>ax_count := 0, ax_addr := 0\<rparr>)"

definition measuring :: "adxl \<Rightarrow> bool" where
  "measuring st \<longleftrightarrow> ax_reg st REG_POWER_CTL AND 3 = 2"

definition accel_if_measuring :: "adxl \<Rightarrow> adxl option" where
  "accel_if_measuring st = (if measuring st then adi_adxl36x_accel_convert st else Some st)"

definition temp_enabled :: "adxl \<Rightarrow> bool" where
  "temp_enabled st \<longleftrightarrow> ax_reg st REG_TEMP_CTL AND 1 \<noteq> 0"

definition adi_adxl36x_start :: "adxl \<Rightarrow> (int \<times> adxl) option" where
  "adi_adxl36x_start st =
    (if ax_count st = 0 then do {
       st \<leftarrow> accel_if_measuring st;
       Some (1, if temp_enabled st then adi_adxl36x_temp_convert st else st) }
     else Some (1, st))"

text \<open>The registers after a reset; those of the pedometer from \<open>0x49\<close> on are not reset.\<close>

definition reset_reg :: "u8 \<Rightarrow> u8" where
  "reset_reg a =
    (if a = 0x00 then 0xAD else if a = 0x01 then 0x1D else if a = 0x02 then 0xF7 else if a = 0x03 then 0x03
     else if a = REG_STATUS then 0x40 else if a = REG_SOFT_RESET then 0x52 else if a = REG_FIFO_SAMPLES then 0x80
     else if a = REG_FILTER_CTL then 0x20 OR 3 else 0)"

definition adi_adxl36x_reset :: "adxl \<Rightarrow> adxl" where
  "adi_adxl36x_reset st =
    (timer_evt_reset (st\<lparr>ax_reg := (\<lambda>a. if 0x49 \<le> a \<and> a \<le> 0x4D then ax_reg st a else reset_reg a),
       ax_stc := 0, tap_state := 0, tap_sample := 0, tap_time := 0,
       ax_accel := replicate 3 256, act_ref := replicate 3 0, inact_ref := replicate 3 0,
       sample_count := 0, sample_fifo_wpt := 0, sample_fifo_rpt := 0, fifo_trig := 0,
       sample_fifo := replicate FIFO_SIZE 0, tme_init := 0, odr := 100, tme_cnt := 0\<rparr>))\<lparr>timer_count := 0\<rparr>"

section \<open>Writing\<close>

text \<open>The registers that can be written, with the bits that are kept.\<close>

definition reg_mask :: "u8 \<Rightarrow> u8 option" where
  "reg_mask a =
    (if a = 0x1F then Some 0x02
     else if a \<in> {0x20, 0x23} then Some 0x7F
     else if a \<in> {0x21, 0x24} then Some 0xFC
     else if a \<in> {0x22, 0x25, 0x26} then Some 0xFF
     else if a = 0x27 then Some (0xC0 OR 0x30 OR 0x0C OR 0x03)
     else if a = 0x28 then Some (0x78 OR 0x04 OR 0x03)
     else if a = 0x29 then Some 0xFF
     else if a \<in> {0x2A, 0x2B} then Some (0x80 OR 0x40 OR 0x20 OR 0x10 OR 0x08 OR 0x04 OR 0x02 OR 0x01)
     else if a = 0x2C then Some (0xC0 OR 0x20 OR 0x08 OR 0x07)
     else if a = 0x2D then Some (0x40 OR 0x30 OR 0x08 OR 0x04 OR 0x03)
     else if a = 0x2E then Some (0x02 OR 0x01)
     else if a \<in> {0x2F, 0x30, 0x31, 0x32} then Some 0xFF
     else if a \<in> {0x33, 0x34, 0x35} then Some 0x1F
     else if a \<in> {0x36, 0x37, 0x38} then Some 0x3F
     else if a = 0x39 then Some (0xC0 OR 0x1F)
     else if a \<in> {0x3A, 0x3B} then Some (0x80 OR 0x40 OR 0x10 OR 0x08 OR 0x04 OR 0x02 OR 0x01)
     else if a = 0x3C then Some (0xC0 OR 0x08 OR 0x02 OR 0x01)
     else if a = 0x3D then Some (0x80 OR 0x08 OR 0x02 OR 0x01)
     else if a \<in> {0x3E, 0x40} then Some 0x7F
     else if a \<in> {0x3F, 0x41} then Some 0xFC
     else if a = 0x42 then Some (0xF0 OR 0x0F)
     else if a = 0x43 then Some (0x30 OR 0x04 OR 0x02 OR 0x01)
     else if a = 0x49 then Some (0x04 OR 0x02 OR 0x01)
     else if a \<in> {0x4A, 0x4C} then Some 0x7F
     else if a \<in> {0x4B, 0x4D} then Some 0xFF
     else None)"

definition act_en :: "adxl \<Rightarrow> u8" where
  "act_en st = ax_reg st REG_ACT_INACT_CTL AND 0x03"

definition inact_en :: "adxl \<Rightarrow> u8" where
  "inact_en st = drop_bit 2 (ax_reg st REG_ACT_INACT_CTL AND 0x0C)"

text \<open>A value of 14 bits from its two registers.\<close>

definition high_low :: "u8 \<Rightarrow> u8 \<Rightarrow> u32" where
  "high_low hi lo = drop_bit 2 (ucast lo) OR push_bit 6 (ucast hi)"

definition odr_of :: "u8 \<Rightarrow> rat \<Rightarrow> rat" where
  "odr_of f hz =
    (let m = f AND 7 in
     if m = 0 then 25 / 2 else if m = 1 then 25 else if m = 2 then 50 else if m = 3 then 100
     else if m = 4 then 200 else if m = 5 then 400 else hz)"

text \<open>What storing a register entails, but for the pins.\<close>

definition write_effect :: "u8 \<Rightarrow> adxl \<Rightarrow> adxl option" where
  "write_effect a st =
    (let r = ax_reg st in
     if a = 0x21 then Some (st\<lparr>act_threshold := high_low (r 0x20) (r 0x21)\<rparr>)
     else if a = REG_TIME_ACT then
       (if act_en st = 1 \<or> act_en st = 3 then oneshot 1 (unat (r REG_TIME_ACT)) st else Some st)
     else if a = 0x24 then Some (st\<lparr>inact_threshold := high_low (r 0x23) (r 0x24)\<rparr>)
     else if a = 0x26 then
       let st = st\<lparr>time_inact := high_low (r 0x25) (r 0x26)\<rparr> in
       (if inact_en st = 1 \<or> inact_en st = 3 then oneshot 2 (unat (time_inact st)) st else Some st)
     else if a = REG_ACT_INACT_CTL then Some (st\<lparr>activity_mode := ucast (drop_bit 4 (r REG_ACT_INACT_CTL AND 0x30))\<rparr>)
     else if a = REG_FILTER_CTL then
       let st = st\<lparr>data_range := of_nat (filter_range st), odr := odr_of (r REG_FILTER_CTL) (odr st), timer_count := 0\<rparr> in
       timer_evt_set_frequency (odr st) st
     else if a = 0x3E then Some (st\<lparr>temp_threshold_h := push_bit 6 (ucast (r 0x3E))\<rparr>)
     else if a = 0x3F then Some (st\<lparr>temp_threshold_h := temp_threshold_h st OR ucast (drop_bit 2 (r 0x3F))\<rparr>)
     else if a = 0x40 then Some (st\<lparr>temp_threshold_l := push_bit 6 (ucast (r 0x40))\<rparr>)
     else if a = 0x41 then Some (st\<lparr>temp_threshold_l := temp_threshold_l st OR ucast (drop_bit 2 (r 0x41))\<rparr>)
     else if a = 0x42 then
       let st = st\<lparr>time_temp_inact := ucast (drop_bit 4 (r 0x42 AND 0xF0)), time_temp_act := ucast (r 0x42 AND 0x0F)\<rparr> in do {
         st \<leftarrow> (if r REG_TEMP_CTL AND 2 \<noteq> 0 then oneshot 4 (unat (time_temp_act st)) st else Some st);
         (if r REG_TEMP_CTL AND 8 \<noteq> 0 then oneshot 5 (unat (time_temp_inact st)) st else Some st) }
     else Some st)"

text \<open>An interrupt that is active low raises its pin.\<close>

definition write_pin :: "u8 \<Rightarrow> adxl host \<Rightarrow> adxl host option" where
  "write_pin a h =
    (if a \<in> {0x2A, 0x2B} \<and> ax_reg (h_usr h) a AND 0x80 \<noteq> 0 then adxl_set_pin (unat (a - 0x2A)) 3300 h else Some h)"

definition write_reg :: "u8 \<Rightarrow> u8 \<Rightarrow> adxl host \<Rightarrow> adxl host option" where
  "write_reg a b h =
    (case reg_mask a of
       None \<Rightarrow> Some h
     | Some m \<Rightarrow> do {
         st \<leftarrow> write_effect a (set_reg a (b AND m) (h_usr h));
         write_pin a (h\<lparr>h_usr := st\<rparr>) })"

fun adxl_write_loop :: "byte list \<Rightarrow> adxl host \<Rightarrow> adxl host option" where
  "adxl_write_loop [] h = Some h"
| "adxl_write_loop (b # bs) h =
    (if ax_count (h_usr h) = 0 then adxl_write_loop bs (h\<lparr>h_usr := (h_usr h)\<lparr>ax_addr := 0x7F AND b, ax_count := 1\<rparr>\<rparr>)
     else do {
       h \<leftarrow> write_reg (ax_addr (h_usr h)) b h;
       adxl_write_loop bs (h\<lparr>h_usr := (h_usr h)\<lparr>ax_count := ax_count (h_usr h) + 1, ax_addr := ax_addr (h_usr h) + 1\<rparr>\<rparr>) })"

definition adi_adxl36x_write :: "byte list \<Rightarrow> (int, adxl) step" where
  "adi_adxl36x_write data c h =
    (let st = timer_evt_stop (h_usr h) in do {
       h \<leftarrow> adxl_write_loop data (h\<lparr>h_usr := st\<lparr>tme_cnt := timer_count st\<rparr>\<rparr>);
       let st = h_usr h;
       let st = (if measuring st then timer_evt_start (st\<lparr>tme_init := 1\<rparr>) else st\<lparr>tme_init := 0\<rparr>);
       Some (int (length data), c, h\<lparr>h_usr := st\<rparr>) })"

section \<open>Reading\<close>

definition self_test_value :: "u16 list list" where
  "self_test_value = [[1440, 4320], [1440 * 2, 4320 * 2], [1440 * 4, 4320 * 4]]"

text \<open>A byte of the self test in place of \<open>b\<close>; the column is the count \<open>stc\<close>.\<close>

definition self_test :: "bool \<Rightarrow> u8 \<Rightarrow> adxl \<Rightarrow> u8 option" where
  "self_test hi b st =
    (if ax_reg st REG_SELF_TEST AND 1 = 0 then Some b
     else if filter_range st \<ge> length self_test_value \<or> ax_stc st > 1 then None
     else let v = self_test_value ! filter_range st ! unat (ax_stc st) in
       Some (if hi then ucast (drop_bit 8 (v AND 0xFF00)) else ucast (v AND 0xFF)))"

definition self_test_next :: "adxl \<Rightarrow> adxl" where
  "self_test_next st =
    (if ax_reg st REG_SELF_TEST AND 1 = 0 then st
     else st\<lparr>ax_stc := (if ax_stc st + 1 > 1 then 0 else ax_stc st + 1)\<rparr>)"

text \<open>
  Reading the status starts the timer for the opposite event and clears the event, by the mode
  of \<open>LINKLOOP\<close>. In linked mode only one event is handled.
\<close>

definition status_act :: "adxl \<Rightarrow> adxl option" where
  "status_act st =
    (if ax_reg st REG_ACT_INACT_CTL AND 0x0C \<noteq> 0 then oneshot 2 (unat (time_inact st)) st else Some st)"

definition status_inact :: "adxl \<Rightarrow> adxl option" where
  "status_inact st =
    (if ax_reg st REG_ACT_INACT_CTL AND 0x03 \<noteq> 0 then oneshot 1 (unat (ax_reg st REG_TIME_ACT)) st else Some st)"

definition read_status :: "adxl \<Rightarrow> adxl option" where
  "read_status st = do {
     st \<leftarrow> (if activity_mode st = 0 \<or> activity_mode st = 2 then do {
              st \<leftarrow> (if ax_reg st REG_STATUS AND 0x10 \<noteq> 0 then status_act (status_clear REG_STATUS 0x10 st) else Some st);
              (if ax_reg st REG_STATUS AND 0x20 \<noteq> 0 then status_inact (status_clear REG_STATUS 0x20 st) else Some st) }
            else if activity_mode st = 1 then
              (if ax_reg st REG_STATUS AND 0x10 \<noteq> 0 then status_act (status_set REG_STATUS 0x40 (status_clear REG_STATUS 0x10 st))
               else if ax_reg st REG_STATUS AND 0x20 \<noteq> 0 then status_inact (status_clear REG_STATUS (0x20 OR 0x40) st)
               else Some st)
            else if activity_mode st = 3 then Some (status_clear REG_STATUS (0x10 OR 0x20) st)
            else Some st);
     Some (status_clear REG_STATUS (0x01 OR 0x04 OR 0x08 OR 0x02 OR 0x80) st) }"

definition read_status_2 :: "adxl \<Rightarrow> adxl option" where
  "read_status_2 st = do {
     st \<leftarrow> (if ax_reg st REG_TEMP_CTL AND 2 \<noteq> 0 \<and> ax_reg st REG_STATUS_2 AND 8 \<noteq> 0
           then do { st \<leftarrow> oneshot 4 (unat (time_temp_act st)) st; Some (status_clear REG_STATUS_2 8 st) } else Some st);
     st \<leftarrow> (if ax_reg st REG_TEMP_CTL AND 8 \<noteq> 0 \<and> ax_reg st REG_STATUS_2 AND 4 \<noteq> 0
           then do { st \<leftarrow> oneshot 5 (unat (time_temp_inact st)) st; Some (status_clear REG_STATUS_2 4 st) } else Some st);
     Some (status_clear REG_STATUS_2 (2 OR 1) st) }"

definition fifo_head :: "adxl \<Rightarrow> u16" where
  "fifo_head st = sample_fifo st ! (unat (sample_fifo_rpt st) mod FIFO_SIZE)"

definition fifo_next :: "adxl \<Rightarrow> adxl" where
  "fifo_next st = st\<lparr>sample_fifo_rpt := sample_fifo_rpt st + 1, fifo_count := fifo_count st - 1\<rparr>"

text \<open>
  A byte of the FIFO in place of \<open>old\<close>, which stays when the FIFO is empty. The size of a sample is
  a divisor: zero is a division by zero.
\<close>

definition fifo_byte :: "adxl \<Rightarrow> u8 \<times> adxl" where
  "fifo_byte st =
    (let mode = drop_bit 6 (ax_reg st REG_ADC_CTL AND 0xC0); v = fifo_head st in
     if mode = 1 then (ucast v, fifo_next st)
     else if mode = 2 then
       (if read_count st mod 3 = 0 then (ucast (drop_bit 4 v), st)
        else if read_count st mod 3 = 1 then
          let st = fifo_next st in
          (ucast (push_bit 4 (v AND 0xF)) OR ucast (drop_bit 8 (fifo_head st AND 0xF00)), st)
        else (ucast (v AND 0xFF), fifo_next st))
     else if read_count st mod 2 = 0 then (ucast (drop_bit 8 v), st)
     else (ucast (v AND 0xFF), fifo_next st))"

definition read_fifo :: "u8 \<Rightarrow> adxl \<Rightarrow> (u8 \<times> adxl) option" where
  "read_fifo old st =
    (if fifo_count st = 0 then Some (old, st)
     else
       let (b, st) = fifo_byte st in
       if sample_size st = 0 then None
       else
         let st = (if fifo_count st mod sample_size st = 0 then st\<lparr>sample_count := sample_count st - 1\<rparr> else st) in
         Some (b, st\<lparr>read_count := read_count st + 1\<rparr>))"

text \<open>The registers that are read as they are.\<close>

definition plain_read :: "u8 \<Rightarrow> bool" where
  "plain_read a \<longleftrightarrow> a \<le> 0x07 \<and> a \<noteq> 0x04 \<or> a = 0x0C \<or> a = 0x0D \<or> 0x10 \<le> a \<and> a \<le> 0x17 \<or>
     0x1F \<le> a \<and> a \<le> 0x43 \<or> 0x46 \<le> a \<and> a \<le> 0x4D"

definition read_reg :: "u8 \<Rightarrow> u8 \<Rightarrow> adxl \<Rightarrow> (u8 \<times> adxl) option" where
  "read_reg a old st =
    (if plain_read a then Some (ax_reg st a, st)
     else if a = 0x08 then do { b \<leftarrow> self_test True (ax_reg st 0x0E) st; Some (b, self_test_next st) }
     else if a = 0x09 then Some (ax_reg st 0x10, st)
     else if a = 0x0A then Some (ax_reg st 0x12, st)
     else if a = REG_STATUS then do { st' \<leftarrow> read_status st; Some (ax_reg st REG_STATUS, st') }
     else if a = 0x0E then do { b \<leftarrow> self_test True (ax_reg st 0x0E) st; Some (b, st) }
     else if a = 0x0F then do { b \<leftarrow> self_test False (ax_reg st 0x0F) st; Some (b, self_test_next st) }
     else if a = REG_I2C_FIFO_DATA then read_fifo old st
     else if a = 0x44 then Some (ax_reg st REG_STATUS, st)
     else if a = REG_STATUS_2 then do { st' \<leftarrow> read_status_2 st; Some (ax_reg st REG_STATUS_2, st') }
     else Some (old, st))"

definition read_next :: "adxl \<Rightarrow> adxl" where
  "read_next st =
    (if ax_count st \<noteq> 0 \<and> ax_addr st \<noteq> REG_I2C_FIFO_DATA then
       let st = st\<lparr>ax_count := ax_count st + 1, ax_addr := ax_addr st + 1\<rparr> in
       if ax_addr st = REG_I2C_FIFO_DATA then st\<lparr>ax_addr := REG_SOFT_RESET\<rparr> else st
     else st)"

text \<open>The loop over the buffer, whose bytes before the call are \<open>data\<close>.\<close>

fun read_bytes :: "byte list \<Rightarrow> adxl \<Rightarrow> (byte list \<times> adxl) option" where
  "read_bytes [] st = Some ([], st)"
| "read_bytes (old # data) st = do {
     (b, st) \<leftarrow> read_reg (ax_addr st) old st;
     (bs, st) \<leftarrow> read_bytes data (read_next st);
     Some (b # bs, st) }"

definition adi_adxl36x_read :: "byte list \<Rightarrow> adxl \<Rightarrow> ((int \<times> byte list) \<times> adxl) option" where
  "adi_adxl36x_read data st = do { (bs, st) \<leftarrow> read_bytes data st; Some ((int (length bs), bs), st) }"

text \<open>The table of callbacks: the buffer of a read is part of the interface's \<open>rdbuf\<close>.\<close>

definition adi_adxl36x_func :: "adxl i2c_func" where
  "adi_adxl36x_func =
    \<lparr>i2_start = Some (\<lambda>_. pure_cb adi_adxl36x_start), i2_write = Some (\<lambda>_. adi_adxl36x_write),
     i2_read = Some (\<lambda>_ len c. pure_cb (adi_adxl36x_read (take (unat len) (drop (unat (c_offs c)) (c_rdbuf c)))) c),
     i2_stop = Some (\<lambda>_. pure_cb adi_adxl36x_stop)\<rparr>"

end
