(* ===== verification/AdxlTimer.thy ===== *)
theory AdxlTimer
  imports AdxlIo
begin

text \<open>
  \<open>examples/i2c-adxl36x/coremodel-adxl36x.c\<close>, the events of the timers: \<open>adi_adxl36x_comp_cb\<close>, one
  branch after the other, and \<open>process_cb\<close>; then the accelerometer as a state machine whose steps are
  the callbacks and the timers that run out, and what holds of its reachable states.
\<close>

section \<open>The code\<close>

text \<open>\<open>abs\<close> of a 64-bit value, which is truncated to \<open>int\<close> first.\<close>

definition c_abs :: "int \<Rightarrow> int" where
  "c_abs x = \<bar>sint (word_of_int x :: u32)\<bar>"

definition tap_axis :: "adxl \<Rightarrow> nat" where
  "tap_axis st = unat (drop_bit 4 (ax_reg st REG_AXIS_MASK AND 0x30))"

definition tap_check :: "adxl \<Rightarrow> int" where
  "tap_check st = (if tap_axis st < 3 then ax_accel st ! tap_axis st else 0)"

definition tap_thresh :: "adxl \<Rightarrow> int" where
  "tap_thresh st = uint (ax_reg st 0x2F)"

definition tap_start :: "adxl \<Rightarrow> adxl option" where
  "tap_start st = oneshot 3 (unat (ax_reg st 0x30)) (st\<lparr>tap_sample := 1\<rparr>)"

text \<open>Timer 0: a sample. The tap window is in ticks of this timer.\<close>

definition comp_tap :: "adxl \<Rightarrow> adxl option" where
  "comp_tap st =
    (if tap_thresh st \<noteq> 0 \<and> tap_sample st AND 1 = 0 then
       if tap_state st = 0 then (if c_abs (tap_check st) > tap_thresh st then tap_start st else Some st)
       else if tap_state st = 2 then
         (if tme_cnt st < tap_time st + ucast (ax_reg st 0x32)
          then (if c_abs (tap_check st) > tap_thresh st then tap_start st else Some st)
          else Some (st\<lparr>tap_time := 0, tap_state := 0\<rparr>))
       else Some st
     else Some st)"

definition comp_sample :: "adxl \<Rightarrow> adxl option" where
  "comp_sample st = do {
     st \<leftarrow> (if measuring st then do {
              st \<leftarrow> adi_adxl36x_accel_convert st;
              comp_tap (status_set REG_STATUS 1 st) } else Some st);
     let st = (if temp_enabled st then status_set REG_STATUS 1 (adi_adxl36x_temp_convert st) else st);
     Some (if ax_reg st REG_FIFO_CONTROL AND 3 \<noteq> 0 then adi_adxl36x_fifo_sample st else st) }"

text \<open>
  Timers 1 and 2: activity and inactivity, axis by axis. \<open>check\<close> keeps its value from one axis to the
  next when the event is not enabled, and is compared as a 64-bit unsigned number.
\<close>

definition axis_value :: "u8 \<Rightarrow> int \<Rightarrow> u32 \<Rightarrow> u64 \<Rightarrow> u64" where
  "axis_value en v ref check =
    (if en = 1 then word_of_int (c_abs (drop_bit 2 v))
     else if en = 3 then word_of_int (c_abs (drop_bit 2 v - uint ref))
     else check)"

fun comp_act :: "nat list \<Rightarrow> u64 \<Rightarrow> adxl \<Rightarrow> adxl option" where
  "comp_act [] check st = Some st"
| "comp_act (i # is) check st =
    (if bit (ax_reg st REG_AXIS_MASK) i then comp_act is check st
     else
       let v = ax_accel st ! i; check = axis_value (act_en st) v (act_ref st ! i) check in
       if check > ucast (act_threshold st) then do {
         let st = status_set REG_STATUS (0x10 OR 0x40) st;
         st \<leftarrow> (if activity_mode st = 3 then oneshot 2 (unat (time_inact st)) st else Some st);
         comp_act is check st }
       else comp_act is check (st\<lparr>act_ref := (act_ref st)[i := word_of_int (drop_bit 2 v)]\<rparr>))"

fun comp_inact :: "nat list \<Rightarrow> u64 \<Rightarrow> adxl \<Rightarrow> adxl option" where
  "comp_inact [] check st = Some st"
| "comp_inact (i # is) check st =
    (if bit (ax_reg st REG_AXIS_MASK) i then comp_inact is check st
     else
       let v = ax_accel st ! i; check = axis_value (inact_en st) v (inact_ref st ! i) check in
       if check < ucast (inact_threshold st) then do {
         let st = status_set REG_STATUS 0x20 st;
         st \<leftarrow> (if activity_mode st = 3 then do {
                  st \<leftarrow> oneshot 1 (unat (ax_reg st REG_TIME_ACT)) st;
                  Some (status_clear REG_STATUS 0x40 st) } else Some st);
         comp_inact is check st }
       else comp_inact is check (st\<lparr>inact_ref := (inact_ref st)[i := word_of_int (drop_bit 2 v)]\<rparr>))"

text \<open>Timer 3: the end of a tap or of the pause after it.\<close>

definition comp_tap_end :: "adxl \<Rightarrow> adxl option" where
  "comp_tap_end st =
    (if tap_state st = 0 then
       (if c_abs (tap_check st) < tap_thresh st then
          let st = status_set REG_STATUS_2 1 st in
          oneshot 3 (unat (ax_reg st 0x31)) (st\<lparr>tap_time := tme_cnt st + ucast (ax_reg st 0x31), tap_state := 1\<rparr>)
        else Some (st\<lparr>tap_sample := 0\<rparr>))
     else if tap_state st = 1 then Some (st\<lparr>tap_sample := 0, tap_state := 2\<rparr>)
     else if tap_state st = 2 then
       Some ((if c_abs (tap_check st) < tap_thresh st then status_set REG_STATUS_2 2 st else st)
         \<lparr>tap_time := 0, tap_state := 0, tap_sample := 0\<rparr>)
     else Some st)"

definition comp_event :: "nat \<Rightarrow> adxl \<Rightarrow> adxl option" where
  "comp_event icomp st =
    (if icomp = 0 then comp_sample st
     else if icomp = 1 then comp_act [0, 1, 2] 0 st
     else if icomp = 2 then comp_inact [0, 1, 2] 0 st
     else if icomp = 3 then comp_tap_end st
     else if icomp = 4 then
       Some (if ax_temp st \<ge> uint (temp_threshold_h st) then status_set REG_STATUS_2 8 st else st)
     else if icomp = 5 then
       Some (if ax_temp st \<le> uint (temp_threshold_l st) then status_set REG_STATUS_2 4 st else st)
     else Some st)"

definition adi_adxl36x_comp_cb :: "nat \<Rightarrow> adxl host \<Rightarrow> adxl host option" where
  "adi_adxl36x_comp_cb icomp h =
    (let st = timer_evt_stop (h_usr h) in do {
       st \<leftarrow> comp_event icomp (st\<lparr>tme_cnt := timer_count st\<rparr>);
       h \<leftarrow> adi_adxl36x_irq_update (h\<lparr>h_usr := st\<rparr>);
       Some (h\<lparr>h_usr := timer_evt_start (h_usr h)\<rparr>) })"

definition process_cb :: "nat \<Rightarrow> adxl host \<Rightarrow> adxl host option" where
  "process_cb idx h =
    adi_adxl36x_comp_cb idx (if idx = 0 then h\<lparr>h_usr := (h_usr h)\<lparr>timer_count := timer_count (h_usr h) + 1\<rparr>\<rparr> else h)"

section \<open>The state machine\<close>

text \<open>A timer is due when \<open>epoll\<close> watches it and the kernel's timer was set to run out.\<close>

definition due :: "nat \<Rightarrow> adxl \<Rightarrow> bool" where
  "due i st \<longleftrightarrow> i < length (tmevt st) \<and> te_polled (tmevt st ! i) \<and> fst (te_setting (tmevt st ! i)) \<noteq> 0"

inductive adxl_step :: "adxl host \<Rightarrow> adxl host \<Rightarrow> bool" where
  step_start: "adi_adxl36x_start (h_usr h) = Some (r, st) \<Longrightarrow> adxl_step h (h\<lparr>h_usr := st\<rparr>)"
| step_write: "adi_adxl36x_write data c h = Some (r, c', h') \<Longrightarrow> adxl_step h h'"
| step_read: "adi_adxl36x_read data (h_usr h) = Some (r, st) \<Longrightarrow> adxl_step h (h\<lparr>h_usr := st\<rparr>)"
| step_stop: "adi_adxl36x_stop (h_usr h) = Some (r, st) \<Longrightarrow> adxl_step h (h\<lparr>h_usr := st\<rparr>)"
| step_timer: "due i (h_usr h) \<Longrightarrow> process_cb i h = Some h' \<Longrightarrow> adxl_step h h'"
| step_notify: "adxl_gpio_notify i mvolt (h_usr h) = Some (u, st) \<Longrightarrow> adxl_step h (h\<lparr>h_usr := st\<rparr>)"

text \<open>The state \<open>main\<close> starts from: allocated with zeros, the timers made, and reset.\<close>

definition adxl_zero :: adxl where
  "adxl_zero = \<lparr>ax_reg = (\<lambda>_. 0), ax_addr = 0, ax_count = 0, ax_stc = 0, tap_sample = 0, tap_state = 0,
     activity_mode = 0, data_range = 0, tme_init = 0, act_threshold = 0, inact_threshold = 0,
     temp_threshold_h = 0, temp_threshold_l = 0, time_inact = 0, act_ref = replicate 3 0, inact_ref = replicate 3 0,
     time_temp_inact = 0, time_temp_act = 0, sample_count = 0, sample_fifo_wpt = 0, sample_fifo_rpt = 0,
     read_count = 0, sample_size = 0, fifo_count = 0, sample_fifo = replicate FIFO_SIZE 0, fifo_trig = 0,
     tme_cnt = 0, tap_time = 0, timer_count = 0, ax_accel = replicate 3 0, ax_temp = 0, odr = 0,
     irq_line = replicate 2 0, ax_pin = replicate 2 \<lparr>ap_handle = None, ap_mvolt = 0\<rparr>,
     tmevt = replicate MAX_TIMERS \<lparr>te_value = 0, te_interval = 0, te_setting = (0, 0), te_polled = False\<rparr>\<rparr>"

definition adxl_init :: "int \<Rightarrow> adxl" where
  "adxl_init epfd = adi_adxl36x_reset (timer_evt_init epfd adxl_zero)"

inductive adxl_reach :: "adxl host \<Rightarrow> bool" where
  reach_init: "h_usr h = adxl_init epfd \<Longrightarrow> epfd \<noteq> 0 \<Longrightarrow> adxl_reach h"
| reach_step: "adxl_reach h \<Longrightarrow> adxl_step h h' \<Longrightarrow> adxl_reach h'"

section \<open>The invariant\<close>

definition timers_ok :: "timer_evt list \<Rightarrow> bool" where
  "timers_ok ts \<longleftrightarrow> length ts = MAX_TIMERS \<and> (\<forall>i < MAX_TIMERS. 0 < i \<longrightarrow> fst (te_setting (ts ! i)) = 0)"

definition fifo_ok :: "u16 list \<Rightarrow> u32 \<Rightarrow> u32 \<Rightarrow> u32 \<Rightarrow> u32 \<Rightarrow> bool" where
  "fifo_ok buf wpt rpt count width \<longleftrightarrow> length buf = FIFO_SIZE \<and> count = wpt - rpt \<and> unat count \<le> FIFO_SIZE \<and>
     (count \<noteq> 0 \<longrightarrow> width \<noteq> 0)"

text \<open>No event has been reported; every array has its size; the rate is one of the device's.\<close>

definition quiet :: "u8 \<Rightarrow> u8 \<Rightarrow> bool" where
  "quiet status status2 \<longleftrightarrow> status AND 0x30 = 0 \<and> status2 = 0"

definition odr_ok :: "rat \<Rightarrow> bool" where
  "odr_ok hz \<longleftrightarrow> hz \<in> {25 / 2, 25, 50, 100, 200, 400}"

definition adxl_ok :: "adxl \<Rightarrow> bool" where
  "adxl_ok st \<longleftrightarrow> timers_ok (tmevt st) \<and>
     fifo_ok (sample_fifo st) (sample_fifo_wpt st) (sample_fifo_rpt st) (fifo_count st) (sample_size st) \<and>
     quiet (ax_reg st REG_STATUS) (ax_reg st REG_STATUS_2) \<and> odr_ok (odr st) \<and>
     length (ax_accel st) = 3 \<and> length (act_ref st) = 3 \<and> length (inact_ref st) = 3 \<and>
     length (irq_line st) = 2 \<and> length (ax_pin st) = 2 \<and> ax_stc st \<le> 1"

lemma timers_ok_update:
  assumes "timers_ok ts" "0 < i \<longrightarrow> fst (te_setting t) = 0"
  shows "timers_ok (ts[i := t])"
proof -
  have "fst (te_setting (ts[i := t] ! k)) = 0" if "k < MAX_TIMERS" "0 < k" for k
    using assms that by (cases "k = i") (auto simp: timers_ok_def)
  then show ?thesis using assms(1) by (simp add: timers_ok_def)
qed

text \<open>A one-shot timer is set with an interval and no value, which switches it off.\<close>

lemma settime_zero: "fst (te_setting (timer_zero t)) = 0"
  by (simp add: timer_zero_def timer_settime_def)

lemma oneshot_timer_off:
  "fst (te_setting (timer_settime ((timer_zero t)\<lparr>te_polled := True, te_interval := nsec\<rparr>))) = 0"
  using settime_zero [of t] by (simp add: timer_settime_def timer_zero_def)

lemma ok_on_timer:
  assumes "adxl_ok st" "0 < i \<longrightarrow> fst (te_setting (f (tmevt st ! i))) = 0"
  shows "adxl_ok (on_timer i f st)"
  using assms timers_ok_update [of "tmevt st" i "f (tmevt st ! i)"] by (simp add: adxl_ok_def on_timer_def)

lemma ok_stop_start: "adxl_ok st \<Longrightarrow> adxl_ok (timer_evt_stop st)" "adxl_ok st \<Longrightarrow> adxl_ok (timer_evt_start st)"
  by (simp_all add: timer_evt_stop_def timer_evt_start_def ok_on_timer)

lemma oneshot_ok:
  assumes "oneshot idx t st = Some st'" "adxl_ok st"
  shows "adxl_ok st'"
  using assms oneshot_timer_off
  by (auto simp: oneshot_def timer_evt_set_oneshot_def split: bind_split_asm intro!: ok_on_timer)

lemma set_frequency_ok:
  assumes "timer_evt_set_frequency hz st = Some st'" "adxl_ok st"
  shows "adxl_ok st'"
  using assms by (auto simp: timer_evt_set_frequency_def split: bind_split_asm intro!: ok_on_timer)

text \<open>Registers other than the two with events are free.\<close>

lemma ok_set_reg: "adxl_ok st \<Longrightarrow> a \<notin> {REG_STATUS, REG_STATUS_2} \<Longrightarrow> adxl_ok (set_reg a b st)"
  by (simp add: adxl_ok_def set_reg_def)

lemma quiet_clear: "quiet s t \<Longrightarrow> quiet (s AND NOT b) t" "quiet s t \<Longrightarrow> quiet s (t AND NOT b)"
  by (auto simp: quiet_def) (metis and.assoc and.commute and_zero_eq)

lemma quiet_set: "quiet s t \<Longrightarrow> b AND 0x30 = 0 \<Longrightarrow> quiet (s OR b) t"
  by (simp add: quiet_def bit.conj_disj_distrib2)

lemma ok_status_clear: "adxl_ok st \<Longrightarrow> adxl_ok (status_clear a b st)"
  by (auto simp: adxl_ok_def status_clear_def set_reg_def quiet_clear)

lemma ok_status_set: "adxl_ok st \<Longrightarrow> b AND 0x30 = 0 \<Longrightarrow> adxl_ok (status_set REG_STATUS b st)"
  by (simp add: adxl_ok_def status_set_def set_reg_def quiet_set)

section \<open>The operations keep the invariant\<close>

lemma ok_set_data: "adxl_ok st \<Longrightarrow> a \<in> {0x0E, 0x10, 0x12, 0x14} \<Longrightarrow> adxl_ok (set_data a v st)"
  unfolding set_data_def by (intro ok_set_reg) auto

lemma ok_accel:
  assumes "adi_adxl36x_accel_convert st = Some st'" "adxl_ok st"
  shows "adxl_ok st'"
proof -
  define v where "v = drop_bit 4 (((2509 * 256000000 + 32768) sdiv 2510502) sdiv (range_scale ! filter_range st))"
  have "adxl_ok (set_data 0x12 v (set_data 0x10 v (set_data 0x0E v st)))" using assms(2) by (simp add: ok_set_data)
  moreover have "st' = (set_data 0x12 v (set_data 0x10 v (set_data 0x0E v st)))\<lparr>ax_accel := replicate 3 (drop_bit 2 v)\<rparr>"
    using assms(1) by (simp add: adi_adxl36x_accel_convert_def Let_def v_def split: if_split_asm)
  ultimately show ?thesis by (simp add: adxl_ok_def)
qed

lemma ok_temp: "adxl_ok st \<Longrightarrow> adxl_ok (adi_adxl36x_temp_convert st)"
  using ok_set_data [of st "0x14"] by (simp add: adi_adxl36x_temp_convert_def Let_def adxl_ok_def)

lemma ok_start: "adi_adxl36x_start st = Some (r, st') \<Longrightarrow> adxl_ok st \<Longrightarrow> adxl_ok st'"
  by (auto simp: adi_adxl36x_start_def accel_if_measuring_def split: if_split_asm bind_split_asm intro: ok_accel ok_temp)

lemma ok_stop: "adi_adxl36x_stop st = Some (r, st') \<Longrightarrow> adxl_ok st \<Longrightarrow> adxl_ok st'"
  by (auto simp: adi_adxl36x_stop_def adxl_ok_def)

lemma ok_notify: "adxl_gpio_notify i v st = Some (r, st') \<Longrightarrow> adxl_ok st \<Longrightarrow> adxl_ok st'"
  by (auto simp: adxl_gpio_notify_def adxl_ok_def split: if_split_asm)

text \<open>Writing.\<close>

lemma adxl_ok_frame [simp]:
  "adxl_ok (st\<lparr>act_threshold := a\<rparr>) = adxl_ok st" "adxl_ok (st\<lparr>inact_threshold := a\<rparr>) = adxl_ok st"
  "adxl_ok (st\<lparr>time_inact := a\<rparr>) = adxl_ok st" "adxl_ok (st\<lparr>activity_mode := a\<rparr>) = adxl_ok st"
  "adxl_ok (st\<lparr>temp_threshold_h := a\<rparr>) = adxl_ok st" "adxl_ok (st\<lparr>temp_threshold_l := a\<rparr>) = adxl_ok st"
  "adxl_ok (st\<lparr>time_temp_inact := a, time_temp_act := b\<rparr>) = adxl_ok st"
  "adxl_ok (st\<lparr>ax_count := m\<rparr>) = adxl_ok st" "adxl_ok (st\<lparr>ax_addr := d\<rparr>) = adxl_ok st"
  "adxl_ok (st\<lparr>ax_addr := d, ax_count := m\<rparr>) = adxl_ok st"
  "adxl_ok (st\<lparr>ax_count := m, ax_addr := d\<rparr>) = adxl_ok st" "adxl_ok (st\<lparr>tme_init := a\<rparr>) = adxl_ok st"
  "adxl_ok (st\<lparr>tme_cnt := u\<rparr>) = adxl_ok st" "adxl_ok (st\<lparr>timer_count := u\<rparr>) = adxl_ok st"
  "adxl_ok (st\<lparr>tap_time := u\<rparr>) = adxl_ok st" "adxl_ok (st\<lparr>tap_state := m\<rparr>) = adxl_ok st"
  "adxl_ok (st\<lparr>tap_sample := m\<rparr>) = adxl_ok st" "adxl_ok (st\<lparr>sample_count := a\<rparr>) = adxl_ok st"
  "adxl_ok (st\<lparr>read_count := a\<rparr>) = adxl_ok st" "adxl_ok (st\<lparr>tap_time := u, tap_state := m\<rparr>) = adxl_ok st"
  by (simp_all add: adxl_ok_def)

lemma odr_ok_of: "odr_ok hz \<Longrightarrow> odr_ok (odr_of f hz)"
  by (simp add: odr_of_def odr_ok_def Let_def)

lemma oneshot_if_ok: "(if b then oneshot i t st else Some st) = Some st' \<Longrightarrow> adxl_ok st \<Longrightarrow> adxl_ok st'"
  by (auto split: if_split_asm intro: oneshot_ok)

lemma ok_write_effect:
  assumes "write_effect a st = Some st'" "adxl_ok st"
  shows "adxl_ok st'"
proof -
  consider (rate) "a = REG_FILTER_CTL" | (temp) "a = 0x42" | (other) "a \<notin> {REG_FILTER_CTL, 0x42}" by auto
  then show ?thesis
  proof cases
    case rate
    let ?st = "st\<lparr>data_range := of_nat (filter_range st), odr := odr_of (ax_reg st REG_FILTER_CTL) (odr st), timer_count := 0\<rparr>"
    have "adxl_ok ?st" using assms(2) odr_ok_of by (simp add: adxl_ok_def)
    with rate assms(1) set_frequency_ok show ?thesis by (auto simp: write_effect_def Let_def)
  next
    case temp
    let ?st = "st\<lparr>time_temp_inact := ucast (drop_bit 4 (ax_reg st 0x42 AND 0xF0)), time_temp_act := ucast (ax_reg st 0x42 AND 0x0F)\<rparr>"
    obtain st1 where st1: "(if ax_reg st REG_TEMP_CTL AND 2 \<noteq> 0 then oneshot 4 (unat (time_temp_act ?st)) ?st else Some ?st) = Some st1"
      "(if ax_reg st REG_TEMP_CTL AND 8 \<noteq> 0 then oneshot 5 (unat (time_temp_inact st1)) st1 else Some st1) = Some st'"
      using temp assms(1) unfolding write_effect_def Let_def by (auto split: bind_split_asm if_split_asm)
    show ?thesis by (rule oneshot_if_ok [OF st1(2) oneshot_if_ok [OF st1(1)]]) (use assms(2) in simp)
  next
    case other
    with assms show ?thesis
      by (auto simp: write_effect_def Let_def split: if_split_asm intro: oneshot_ok)
  qed
qed

text \<open>Setting a pin changes the transmit queue only.\<close>

lemma push_ignoring_usr: "push_ignoring p None h = Some h' \<Longrightarrow> h_usr h' = h_usr h"
  by (cases "calloc h") (auto simp: push_ignoring_def coremodel_push_packet_def Let_def calloc_frame split: if_split_asm bind_split_asm)

lemma set_pin_usr: "adxl_set_pin idx v h = Some h' \<Longrightarrow> h_usr h' = h_usr h"
  by (auto simp: adxl_set_pin_def coremodel_gpio_set_def split: option.split_asm intro: push_ignoring_usr)

lemma ok_write_reg:
  assumes "write_reg a b h = Some h'" "adxl_ok (h_usr h)"
  shows "adxl_ok (h_usr h')"
proof (cases "reg_mask a")
  case None
  then show ?thesis using assms by (simp add: write_reg_def)
next
  case (Some m)
  then have "a \<notin> {REG_STATUS, REG_STATUS_2}" by (auto simp: reg_mask_def)
  then have "adxl_ok (set_reg a (b AND m) (h_usr h))" using assms(2) by (rule ok_set_reg [rotated])
  moreover obtain st where "write_effect a (set_reg a (b AND m) (h_usr h)) = Some st" "write_pin a (h\<lparr>h_usr := st\<rparr>) = Some h'"
    using assms(1) Some by (auto simp: write_reg_def split: bind_split_asm)
  ultimately show ?thesis
    using ok_write_effect set_pin_usr by (fastforce simp: write_pin_def split: if_split_asm)
qed

lemma ok_write_loop: "adxl_write_loop data h = Some h' \<Longrightarrow> adxl_ok (h_usr h) \<Longrightarrow> adxl_ok (h_usr h')"
proof (induction data arbitrary: h)
  case (Cons b bs)
  show ?case
  proof (cases "ax_count (h_usr h) = 0")
    case True
    then show ?thesis using Cons by simp
  next
    case False
    then obtain h1 where h1: "write_reg (ax_addr (h_usr h)) b h = Some h1"
      "adxl_write_loop bs (h1\<lparr>h_usr := (h_usr h1)\<lparr>ax_count := ax_count (h_usr h1) + 1, ax_addr := ax_addr (h_usr h1) + 1\<rparr>\<rparr>) = Some h'"
      using Cons.prems(1) by (auto split: bind_split_asm)
    from Cons.IH [OF h1(2)] ok_write_reg [OF h1(1) Cons.prems(2)] show ?thesis by simp
  qed
qed simp

lemma ok_write:
  assumes "adi_adxl36x_write data c h = Some (r, c', h')" "adxl_ok (h_usr h)"
  shows "adxl_ok (h_usr h')"
proof -
  let ?st = "timer_evt_stop (h_usr h)"
  obtain h1 where h1: "adxl_write_loop data (h\<lparr>h_usr := ?st\<lparr>tme_cnt := timer_count ?st\<rparr>\<rparr>) = Some h1"
    "h_usr h' = (if measuring (h_usr h1) then timer_evt_start ((h_usr h1)\<lparr>tme_init := 1\<rparr>) else (h_usr h1)\<lparr>tme_init := 0\<rparr>)"
    using assms(1) by (auto simp: adi_adxl36x_write_def Let_def split: bind_split_asm)
  have "adxl_ok (h_usr h1)" using ok_write_loop [OF h1(1)] ok_stop_start(1) [OF assms(2)] by simp
  then show ?thesis using h1(2) by (simp add: ok_stop_start(2))
qed

text \<open>Reading.\<close>

lemma fifo_ok_pop:
  assumes "fifo_ok buf w r n sz" "n \<noteq> 0"
  shows "fifo_ok buf w (r + 1) (n - 1) sz"
proof -
  have "unat (n - 1) \<le> unat n" using assms(2) by (simp add: unat_minus_one)
  then have "unat (n - 1) \<le> FIFO_SIZE" using assms(1) unfolding fifo_ok_def by linarith
  moreover have "n - 1 = w - (r + 1)" using assms(1) by (simp add: fifo_ok_def)
  ultimately show ?thesis using assms unfolding fifo_ok_def by blast
qed

lemma ok_fifo_next: "adxl_ok st \<Longrightarrow> fifo_count st \<noteq> 0 \<Longrightarrow> adxl_ok (fifo_next st)"
  using fifo_ok_pop [of "sample_fifo st" "sample_fifo_wpt st" "sample_fifo_rpt st" "fifo_count st" "sample_size st"]
  by (simp add: adxl_ok_def fifo_next_def)

lemma ok_read_fifo:
  assumes "read_fifo old st = Some (b, st')" "adxl_ok st"
  shows "adxl_ok st'"
proof (cases "fifo_count st = 0")
  case True
  then show ?thesis using assms by (simp add: read_fifo_def)
next
  case False
  obtain b1 st1 where b1: "fifo_byte st = (b1, st1)" by (cases "fifo_byte st")
  then have "adxl_ok st1"
    using ok_fifo_next [OF assms(2) False] assms(2)
    by (auto simp: fifo_byte_def Let_def split: if_split_asm)
  then show ?thesis using assms(1) b1 False by (auto simp: read_fifo_def split: if_split_asm)
qed

text \<open>The size of a sample is never zero when there is one.\<close>

lemma read_fifo_some:
  assumes "adxl_ok st"
  shows "\<exists>b st'. read_fifo old st = Some (b, st')"
proof (cases "fifo_count st = 0")
  case False
  obtain b st1 where b: "fifo_byte st = (b, st1)" by (cases "fifo_byte st")
  then have "sample_size st1 = sample_size st"
    by (auto simp: fifo_byte_def Let_def fifo_next_def split: if_split_asm)
  moreover have "sample_size st \<noteq> 0" using assms False by (simp add: adxl_ok_def fifo_ok_def)
  ultimately show ?thesis using False b by (simp add: read_fifo_def)
qed (simp add: read_fifo_def)

lemma ok_read_status: "read_status st = Some st' \<Longrightarrow> adxl_ok st \<Longrightarrow> adxl_ok st'"
  by (auto simp: read_status_def status_act_def status_inact_def split: if_split_asm bind_split_asm
      intro!: ok_status_clear ok_status_set intro: oneshot_ok)

lemma ok_read_status_2:
  assumes "read_status_2 st = Some st'" "adxl_ok st"
  shows "adxl_ok st'"
proof -
  have "ax_reg st REG_STATUS_2 = 0" using assms(2) by (simp add: adxl_ok_def quiet_def)
  then have "st' = status_clear REG_STATUS_2 (2 OR 1) st" using assms(1) by (simp add: read_status_2_def)
  then show ?thesis using ok_status_clear [OF assms(2)] by simp
qed

lemma ok_self_test_next: "adxl_ok st \<Longrightarrow> adxl_ok (self_test_next st)"
  by (simp add: adxl_ok_def self_test_next_def not_less)

lemma ok_read_reg: "read_reg a old st = Some (b, st') \<Longrightarrow> adxl_ok st \<Longrightarrow> adxl_ok st'"
  by (auto simp: read_reg_def split: if_split_asm bind_split_asm
      intro: ok_self_test_next ok_read_status ok_read_status_2 ok_read_fifo)

lemma ok_read_next: "adxl_ok (read_next st) = adxl_ok st"
  by (simp add: read_next_def Let_def)

lemma ok_read_bytes: "read_bytes data st = Some (bs, st') \<Longrightarrow> adxl_ok st \<Longrightarrow> adxl_ok st'"
proof (induction data arbitrary: st bs)
  case (Cons old data)
  then obtain b st1 bs1 where st1: "read_reg (ax_addr st) old st = Some (b, st1)"
    "read_bytes data (read_next st1) = Some (bs1, st')"
    by (auto split: bind_split_asm)
  from Cons.IH [OF st1(2)] ok_read_reg [OF st1(1) Cons.prems(2)] show ?case by (simp add: ok_read_next)
qed simp

lemma ok_read: "adi_adxl36x_read data st = Some (r, st') \<Longrightarrow> adxl_ok st \<Longrightarrow> adxl_ok st'"
  by (auto simp: adi_adxl36x_read_def split: bind_split_asm intro: ok_read_bytes)

text \<open>A sample.\<close>

lemma fifo_put_shape:
  "\<exists>buf. fifo_put vs st = st\<lparr>sample_fifo := buf, sample_fifo_wpt := sample_fifo_wpt st + of_nat (length vs)\<rparr> \<and>
     length buf = length (sample_fifo st)"
proof (induction vs arbitrary: st)
  case Nil
  show ?case by (intro exI [of _ "sample_fifo st"]) simp
next
  case (Cons v vs)
  let ?st = "st\<lparr>sample_fifo := (sample_fifo st)[unat (sample_fifo_wpt st) mod FIFO_SIZE := v],
    sample_fifo_wpt := sample_fifo_wpt st + 1\<rparr>"
  obtain buf where "fifo_put vs ?st = ?st\<lparr>sample_fifo := buf, sample_fifo_wpt := sample_fifo_wpt ?st + of_nat (length vs)\<rparr>"
    "length buf = length (sample_fifo ?st)"
    using Cons.IH by blast
  then show ?case by (intro exI [of _ buf]) (simp add: add.assoc)
qed

lemma fifo_select_length: "fifo_select sel buf = Some vs \<Longrightarrow> 0 < length vs \<and> length vs \<le> 4"
  by (auto simp: fifo_select_def Let_def split: if_split_asm)

lemma ok_watermark: "adxl_ok st \<Longrightarrow> adxl_ok (watermark st)"
  by (simp add: watermark_def ok_status_set)

text \<open>There is room for the entries: the count of entries stays in the bounds of the buffer.\<close>

lemma fifo_room:
  assumes "fifo_ok buf w r n sz" "\<not> of_nat FIFO_SIZE - (w - r) < (of_nat k :: u32)" "k \<le> 4"
  shows "unat n + k \<le> FIFO_SIZE" "unat (n + of_nat k) = unat n + k"
proof -
  have n: "n = w - r" "unat n \<le> FIFO_SIZE" using assms(1) unfolding fifo_ok_def by blast+
  have k: "unat (of_nat k :: u32) = k" using assms(3) by (simp add: unat_of_nat)
  have "n \<le> of_nat FIFO_SIZE" using n(2) by (simp add: word_le_nat_alt)
  then have "unat (of_nat FIFO_SIZE - n) = FIFO_SIZE - unat n" by (simp add: unat_sub)
  moreover have "unat (of_nat k :: u32) \<le> unat (of_nat FIFO_SIZE - n)"
    using assms(2) n(1) by (simp add: not_less word_le_nat_alt)
  ultimately show "unat n + k \<le> FIFO_SIZE" using k n(2) by simp
  then show "unat (n + of_nat k) = unat n + k" using k by (simp add: unat_word_ariths)
qed

lemma fifo_ok_push:
  assumes "fifo_ok buf w r n sz" "\<not> of_nat FIFO_SIZE - (w - r) < (of_nat k :: u32)" "0 < k" "k \<le> 4" "length buf' = length buf"
  shows "fifo_ok buf' (w + of_nat k) r (n + of_nat k) (of_nat k)"
proof -
  have "n + of_nat k = w + of_nat k - r" using assms(1) by (simp add: fifo_ok_def)
  moreover have "unat (n + of_nat k) \<le> FIFO_SIZE" using fifo_room [OF assms(1,2,4)] by simp
  moreover have "unat (of_nat k :: u32) = k" using assms(4) by (simp add: unat_of_nat)
  then have "(of_nat k :: u32) \<noteq> 0" using assms(3) by (metis unat_0 less_irrefl)
  ultimately show ?thesis using assms(1,5) unfolding fifo_ok_def by simp
qed

lemma ok_fifo_store:
  assumes "adxl_ok st"
  shows "adxl_ok (fifo_store st)"
proof (cases "fifo_select (ax_reg st REG_FIFO_CONTROL AND 0x78) (temp_buf st)")
  case None
  then show ?thesis using assms by (simp add: fifo_store_def ok_watermark)
next
  case (Some vs)
  show ?thesis
  proof (cases "fifo_wsize st < of_nat (length vs)")
    case True
    then show ?thesis using Some assms by (simp add: fifo_store_def)
  next
    case False
    let ?p = "fifo_put vs (st\<lparr>sample_size := of_nat (length vs)\<rparr>)"
    obtain buf where p: "?p = st\<lparr>sample_size := of_nat (length vs), sample_fifo := buf,
        sample_fifo_wpt := sample_fifo_wpt st + of_nat (length vs)\<rparr>" "length buf = length (sample_fifo st)"
      using fifo_put_shape [of vs "st\<lparr>sample_size := of_nat (length vs)\<rparr>"] by auto
    have "fifo_ok buf (sample_fifo_wpt st + of_nat (length vs)) (sample_fifo_rpt st)
        (fifo_count st + of_nat (length vs)) (of_nat (length vs))"
      by (rule fifo_ok_push [OF _ False [unfolded fifo_wsize_def]])
        (use fifo_select_length [OF Some] assms p(2) in \<open>auto simp: adxl_ok_def\<close>)
    then have "adxl_ok (?p\<lparr>sample_count := sample_count st + 1, fifo_count := fifo_count st + of_nat (length vs)\<rparr>)"
      unfolding p(1) using assms by (simp add: adxl_ok_def)
    then show ?thesis using Some False by (simp add: fifo_store_def ok_watermark)
  qed
qed

lemma ok_fifo_sample: "adxl_ok st \<Longrightarrow> adxl_ok (adi_adxl36x_fifo_sample st)"
  by (simp add: adi_adxl36x_fifo_sample_def Let_def ok_status_set ok_fifo_store)

lemma ok_tap_start: "tap_start st = Some st' \<Longrightarrow> adxl_ok st \<Longrightarrow> adxl_ok st'"
  unfolding tap_start_def by (erule oneshot_ok) simp

lemma ok_comp_tap: "comp_tap st = Some st' \<Longrightarrow> adxl_ok st \<Longrightarrow> adxl_ok st'"
  by (auto simp: comp_tap_def split: if_split_asm intro: ok_tap_start)

lemma ok_comp_sample:
  assumes "comp_sample st = Some st'" "adxl_ok st"
  shows "adxl_ok st'"
proof -
  obtain st1 where st1: "(if measuring st then do {
      st \<leftarrow> adi_adxl36x_accel_convert st; comp_tap (status_set REG_STATUS 1 st) } else Some st) = Some st1"
    "st' = (let st = (if temp_enabled st1 then status_set REG_STATUS 1 (adi_adxl36x_temp_convert st1) else st1) in
       if ax_reg st REG_FIFO_CONTROL AND 3 \<noteq> 0 then adi_adxl36x_fifo_sample st else st)"
    using assms(1) unfolding comp_sample_def by (auto simp: Let_def split: bind_split_asm)
  have "adxl_ok st1"
    using st1(1) assms(2)
    by (auto split: if_split_asm bind_split_asm intro!: ok_status_set intro: ok_accel elim!: ok_comp_tap)
  then show ?thesis unfolding st1(2) by (simp add: Let_def ok_status_set ok_temp ok_fifo_sample)
qed

lemma ok_irq_pin:
  assumes "irq_pin idx h = Some h'" "adxl_ok (h_usr h)"
  shows "adxl_ok (h_usr h')"
proof (cases "irq_level (h_usr h) idx = irq_line (h_usr h) ! idx")
  case True
  then show ?thesis using assms by (simp add: irq_pin_def)
next
  case False
  then obtain v h1 where h1: "adxl_set_pin idx v h = Some h1"
    "h' = h1\<lparr>h_usr := (h_usr h1)\<lparr>irq_line := (irq_line (h_usr h1))[idx := irq_level (h_usr h) idx]\<rparr>\<rparr>"
    using assms(1) by (auto simp: irq_pin_def Let_def split: bind_split_asm)
  then show ?thesis using set_pin_usr [OF h1(1)] assms(2) by (simp add: adxl_ok_def)
qed

lemma ok_irq_update: "adi_adxl36x_irq_update h = Some h' \<Longrightarrow> adxl_ok (h_usr h) \<Longrightarrow> adxl_ok (h_usr h')"
  by (auto simp: adi_adxl36x_irq_update_def split: bind_split_asm intro: ok_irq_pin)

text \<open>Only timer 0 can be due.\<close>

lemma due_zero: "due i st \<Longrightarrow> adxl_ok st \<Longrightarrow> i = 0"
  by (auto simp: due_def adxl_ok_def timers_ok_def)

lemma ok_process:
  assumes "process_cb 0 h = Some h'" "adxl_ok (h_usr h)"
  shows "adxl_ok (h_usr h')"
proof -
  let ?st = "(h_usr h)\<lparr>timer_count := timer_count (h_usr h) + 1\<rparr>"
  obtain st1 h2 where c: "comp_sample ((timer_evt_stop ?st)\<lparr>tme_cnt := timer_count (timer_evt_stop ?st)\<rparr>) = Some st1"
    "adi_adxl36x_irq_update (h\<lparr>h_usr := st1\<rparr>) = Some h2" "h' = h2\<lparr>h_usr := timer_evt_start (h_usr h2)\<rparr>"
    using assms(1) by (auto simp: process_cb_def adi_adxl36x_comp_cb_def comp_event_def Let_def split: bind_split_asm)
  have "adxl_ok st1" by (rule ok_comp_sample [OF c(1)]) (simp add: ok_stop_start assms(2))
  then show ?thesis using ok_irq_update [OF c(2)] c(3) ok_stop_start(2) by simp
qed

lemma ok_step: "adxl_step h h' \<Longrightarrow> adxl_ok (h_usr h) \<Longrightarrow> adxl_ok (h_usr h')"
proof (induction rule: adxl_step.induct)
  case (step_timer i h h')
  then show ?case using due_zero ok_process by blast
qed (auto intro: ok_start ok_write ok_read ok_stop ok_notify)

lemma ok_init: "epfd \<noteq> 0 \<Longrightarrow> adxl_ok (adxl_init epfd)"
  by (simp add: adxl_init_def adi_adxl36x_reset_def timer_evt_reset_def timer_evt_init_def adxl_zero_def adxl_ok_def
      timers_ok_def settime_zero fifo_ok_def quiet_def odr_ok_def reset_reg_def)

lemma reach_ok: "adxl_reach h \<Longrightarrow> adxl_ok (h_usr h)"
  by (induction rule: adxl_reach.induct) (auto intro: ok_init ok_step)

end
