(* ===== verification/AdxlFifo.thy ===== *)
theory AdxlFifo
  imports AdxlTimer
begin

text \<open>
  The FIFO of the accelerometer as a queue: what a sample stores is appended when there is room for
  it, and what the bus reads is what was stored, in order. Then the registers: what is written to
  one is read back, and the values behind the settings of the rate and the range.
\<close>

section \<open>The queue\<close>

definition fifo_index :: "u32 \<Rightarrow> nat \<Rightarrow> nat" where
  "fifo_index p i = (unat p + i) mod FIFO_SIZE"

definition fifo_entries :: "adxl \<Rightarrow> u16 list" where
  "fifo_entries st = map (\<lambda>i. sample_fifo st ! fifo_index (sample_fifo_rpt st) i) [0..<unat (fifo_count st)]"

lemma fifo_index_add: "fifo_index (p + of_nat k) i = fifo_index p (k + i)"
proof -
  have d: "a mod 4294967296 mod 2048 = a mod 2048" for a :: nat by (rule mod_mod_cancel) simp
  have "unat (p + of_nat k) = (unat p + k mod 4294967296) mod 4294967296"
    by (simp add: unat_word_ariths unat_of_nat del: of_nat_add)
  then have "unat (p + of_nat k) mod 2048 = (unat p + k mod 4294967296) mod 2048" by (simp only: d)
  also have "\<dots> = (unat p + k) mod 2048" by (metis d mod_add_right_eq)
  finally have "unat (p + of_nat k) mod 2048 = (unat p + k) mod 2048" .
  then have "(unat (p + of_nat k) + i) mod 2048 = (unat p + k + i) mod 2048" by (metis mod_add_left_eq)
  then show ?thesis by (simp add: fifo_index_def add.assoc)
qed

lemma fifo_index_inj:
  assumes "i < FIFO_SIZE" "j < FIFO_SIZE" "fifo_index p i = fifo_index p j"
  shows "i = j"
proof -
  have le: "a = b" if "b \<le> a" "a < FIFO_SIZE" "fifo_index p a = fifo_index p b" for a b
  proof -
    have "(unat p + a) mod 2048 = (unat p + b) mod 2048" using that(3) by (simp only: fifo_index_def)
    then have "2048 dvd (unat p + a) - (unat p + b)" by (rule mod_eq_dvd_iff_nat [THEN iffD1, rotated]) (use that(1) in simp)
    then have "2048 dvd a - b" by simp
    moreover have "a - b < 2048" using that(2) by simp
    ultimately have "\<not> 0 < a - b" using nat_dvd_not_less by blast
    then show ?thesis using that(1) by simp
  qed
  show ?thesis
  proof (cases "i \<le> j")
    case True
    from le [OF this assms(2) assms(3) [symmetric]] show ?thesis by simp
  next
    case False
    then have "j \<le> i" by simp
    from le [OF this assms(1,3)] show ?thesis .
  qed
qed

text \<open>Storing entries after the last one.\<close>

lemma fifo_put_entries:
  assumes "length (sample_fifo st) = FIFO_SIZE" "sample_fifo_wpt st = rpt + of_nat n" "n + length vs \<le> FIFO_SIZE"
  shows "map (\<lambda>i. sample_fifo (fifo_put vs st) ! fifo_index rpt i) [0..<n + length vs] =
    map (\<lambda>i. sample_fifo st ! fifo_index rpt i) [0..<n] @ vs"
  using assms
proof (induction vs arbitrary: st n)
  case Nil
  then show ?case by simp
next
  case (Cons v vs)
  let ?st = "st\<lparr>sample_fifo := (sample_fifo st)[unat (sample_fifo_wpt st) mod FIFO_SIZE := v],
    sample_fifo_wpt := sample_fifo_wpt st + 1\<rparr>"
  have w: "unat (sample_fifo_wpt st) mod FIFO_SIZE = fifo_index rpt n"
    using fifo_index_add [of rpt n 0] Cons.prems(2) by (simp add: fifo_index_def)
  have l: "fifo_index rpt n < length (sample_fifo st)" using Cons.prems(1) by (simp add: fifo_index_def)
  have "sample_fifo ?st ! fifo_index rpt i = sample_fifo st ! fifo_index rpt i" if "i < n" for i
  proof -
    have "fifo_index rpt i \<noteq> fifo_index rpt n" using fifo_index_inj [of i n rpt] that Cons.prems(3) by auto
    then show ?thesis by (simp add: w)
  qed
  then have old: "map (\<lambda>i. sample_fifo ?st ! fifo_index rpt i) [0..<Suc n] =
      map (\<lambda>i. sample_fifo st ! fifo_index rpt i) [0..<n] @ [v]"
    using l by (simp add: w)
  have "sample_fifo_wpt ?st = rpt + of_nat (Suc n)" using Cons.prems(2) by simp
  moreover have "Suc n + length vs \<le> FIFO_SIZE" "length (sample_fifo ?st) = FIFO_SIZE"
    using Cons.prems(1,3) by simp_all
  ultimately have "map (\<lambda>i. sample_fifo (fifo_put vs ?st) ! fifo_index rpt i) [0..<Suc n + length vs] =
      map (\<lambda>i. sample_fifo ?st ! fifo_index rpt i) [0..<Suc n] @ vs"
    by (intro Cons.IH)
  with old show ?case by simp
qed

lemma entries_store:
  assumes ok: "adxl_ok st" and vs: "fifo_select (ax_reg st REG_FIFO_CONTROL AND 0x78) (temp_buf st) = Some vs"
  shows "fifo_entries (fifo_store st) =
    (if unat (fifo_count st) + length vs \<le> FIFO_SIZE then fifo_entries st @ vs else fifo_entries st)"
proof -
  let ?n = "unat (fifo_count st)" and ?k = "length vs"
  have f: "fifo_ok (sample_fifo st) (sample_fifo_wpt st) (sample_fifo_rpt st) (fifo_count st) (sample_size st)"
    using ok by (simp add: adxl_ok_def)
  have k: "?k \<le> 4" using fifo_select_length [OF vs] by simp
  have n: "fifo_count st = sample_fifo_wpt st - sample_fifo_rpt st" "?n \<le> FIFO_SIZE" "length (sample_fifo st) = FIFO_SIZE"
    using f unfolding fifo_ok_def by blast+
  have kk: "unat (of_nat ?k :: u32) = ?k" using k by (simp add: unat_of_nat)
  have "fifo_count st \<le> of_nat FIFO_SIZE" using n(2) by (simp add: word_le_nat_alt)
  then have "unat (of_nat FIFO_SIZE - fifo_count st) = FIFO_SIZE - ?n" by (simp add: unat_sub)
  then have room: "fifo_wsize st < of_nat ?k \<longleftrightarrow> \<not> ?n + ?k \<le> FIFO_SIZE"
    unfolding fifo_wsize_def n(1) [symmetric] word_less_nat_alt kk using n(2) by linarith
  show ?thesis
  proof (cases "?n + ?k \<le> FIFO_SIZE")
    case False
    then show ?thesis using vs room by (simp add: fifo_store_def)
  next
    case True
    let ?s = "st\<lparr>sample_size := of_nat ?k\<rparr>"
    have w: "sample_fifo_wpt ?s = sample_fifo_rpt st + of_nat ?n" using n(1) by simp
    have u: "unat (fifo_count st + of_nat ?k) = ?n + ?k" using True kk by (simp add: unat_word_ariths)
    obtain buf where p: "fifo_put vs ?s = ?s\<lparr>sample_fifo := buf, sample_fifo_wpt := sample_fifo_wpt st + of_nat ?k\<rparr>"
      using fifo_put_shape [of vs ?s] by auto
    have "fifo_entries (fifo_store st) =
        map (\<lambda>i. sample_fifo (fifo_put vs ?s) ! fifo_index (sample_fifo_rpt st) i) [0..<?n + ?k]"
      using vs room True u
      by (simp add: fifo_store_def fifo_entries_def watermark_def status_set_def set_reg_def p)
    also have "\<dots> = fifo_entries st @ vs"
      using fifo_put_entries [of ?s "sample_fifo_rpt st" ?n vs] n(3) w True by (simp add: fifo_entries_def)
    finally show ?thesis using True by simp
  qed
qed

text \<open>
  Taking a sample in each mode of the FIFO: the oldest samples are kept, or a stream is (here the same, as a full
  ring takes nothing), or a trigger is waited for, of which no code sets the flag.
\<close>

lemma fifo_full:
  assumes "adxl_ok st"
  shows "fifo_wsize st = 0 \<longleftrightarrow> unat (fifo_count st) = FIFO_SIZE"
proof -
  have "fifo_ok (sample_fifo st) (sample_fifo_wpt st) (sample_fifo_rpt st) (fifo_count st) (sample_size st)"
    using assms by (simp add: adxl_ok_def)
  then have "fifo_count st = sample_fifo_wpt st - sample_fifo_rpt st" unfolding fifo_ok_def by blast
  then have "fifo_wsize st = 0 \<longleftrightarrow> fifo_count st = of_nat FIFO_SIZE" by (auto simp: fifo_wsize_def)
  then show ?thesis by (simp add: word_unat_eq_iff)
qed

lemma sample_entries:
  assumes ok: "adxl_ok st" and vs: "fifo_select (ax_reg st REG_FIFO_CONTROL AND 0x78) (temp_buf st) = Some vs"
  defines "mode \<equiv> ax_reg st REG_FIFO_CONTROL AND 3" and "st' \<equiv> adi_adxl36x_fifo_sample st"
  shows "fifo_entries st' =
      (if unat (fifo_count st) + length vs \<le> FIFO_SIZE \<and>
          (mode = 3 \<longrightarrow> fifo_trig st \<noteq> 0 \<and> sample_count st \<noteq> fifo_samples st)
       then fifo_entries st @ vs else fifo_entries st) \<and>
    (mode = 1 \<and> unat (fifo_count st) = FIFO_SIZE \<longrightarrow> bit (ax_reg st' REG_STATUS) 3)"
proof -
  have v: "0 < length vs" using fifo_select_length [OF vs] by auto
  have se: "fifo_entries (status_set REG_STATUS 8 st) = fifo_entries st"
    by (simp add: fifo_entries_def status_set_def set_reg_def)
  have sb: "bit (ax_reg (status_set REG_STATUS 8 st) REG_STATUS) 3"
    by (simp add: status_set_def set_reg_def bit_simps)
  note full = fifo_full [OF ok] and es = entries_store [OF ok vs]
  show ?thesis
    using v full es se sb unfolding st'_def mode_def by (auto simp: adi_adxl36x_fifo_sample_def Let_def)
qed

lemma entries_next:
  assumes "fifo_count st \<noteq> 0"
  shows "fifo_entries st = fifo_head st # fifo_entries (fifo_next st)"
proof -
  have n: "unat (fifo_count st) = Suc (unat (fifo_count st - 1))"
    using assms by (simp add: unat_minus_one unat_gt_0)
  have "fifo_index (sample_fifo_rpt st + 1) i = fifo_index (sample_fifo_rpt st) (Suc i)" for i
    using fifo_index_add [of "sample_fifo_rpt st" 1 i] by simp
  then have "fifo_entries (fifo_next st) =
      map (\<lambda>i. sample_fifo st ! fifo_index (sample_fifo_rpt st) (Suc i)) [0..<unat (fifo_count st - 1)]"
    by (simp add: fifo_entries_def fifo_next_def)
  also have "\<dots> = map (\<lambda>i. sample_fifo st ! fifo_index (sample_fifo_rpt st) i) [Suc 0..<unat (fifo_count st)]"
    unfolding n by (simp add: map_Suc_upt [symmetric] comp_def del: upt_Suc map_Suc_upt)
  finally show ?thesis
    by (simp add: fifo_entries_def n upt_conv_Cons fifo_head_def fifo_index_def del: upt_Suc)
qed

section \<open>Reading samples of 16 bits\<close>

definition mode16 :: "adxl \<Rightarrow> bool" where
  "mode16 st \<longleftrightarrow> drop_bit 6 (ax_reg st REG_ADC_CTL AND 0xC0) \<notin> {1, 2}"

definition entry_bytes :: "u16 \<Rightarrow> byte list" where
  "entry_bytes v = [ucast (drop_bit 8 v), ucast (v AND 0xFF)]"

text \<open>
  The two bytes of an entry. After each byte, a number of entries that is a multiple of the size
  of a sample counts one sample less: for the first byte as well as for the second.
\<close>

definition count_down :: "adxl \<Rightarrow> adxl" where
  "count_down st = (if fifo_count st mod sample_size st = 0 then st\<lparr>sample_count := sample_count st - 1\<rparr> else st)"

lemma read_entry:
  assumes "adxl_ok st" "mode16 st" "read_count st mod 2 = 0" "fifo_count st \<noteq> 0" "ax_addr st = REG_I2C_FIFO_DATA"
  shows "\<exists>st'. read_bytes (o1 # o2 # data) st = (case read_bytes data st' of
      None \<Rightarrow> None | Some (bs, st'') \<Rightarrow> Some (entry_bytes (fifo_head st) @ bs, st'')) \<and>
    st' = (count_down (fifo_next ((count_down st)\<lparr>read_count := read_count st + 1\<rparr>)))\<lparr>read_count := read_count st + 2\<rparr>"
proof -
  have s: "sample_size st \<noteq> 0" using assms(1,4) by (simp add: adxl_ok_def fifo_ok_def)
  have m: "drop_bit 6 (ax_reg st REG_ADC_CTL AND 0xC0) \<noteq> 1" "drop_bit 6 (ax_reg st REG_ADC_CTL AND 0xC0) \<noteq> 2"
    using assms(2) by (simp_all add: mode16_def)
  let ?s1 = "(count_down st)\<lparr>read_count := read_count st + 1\<rparr>"
  have r1: "read_reg REG_I2C_FIFO_DATA o1 st = Some (ucast (drop_bit 8 (fifo_head st)), ?s1)"
    using assms(3,4) s m by (simp add: read_reg_def plain_read_def read_fifo_def fifo_byte_def count_down_def Let_def)
  have odd: "(read_count st + 1) mod 2 \<noteq> 0"
  proof -
    have "even (read_count st)" using assms(3) by (simp add: even_iff_mod_2_eq_zero)
    then have "odd (read_count st + 1)" by simp
    then show ?thesis by (simp add: even_iff_mod_2_eq_zero)
  qed
  have f1: "fifo_head ?s1 = fifo_head st" "fifo_count ?s1 = fifo_count st" "ax_reg ?s1 = ax_reg st" "read_count ?s1 = read_count st + 1"
    "sample_size ?s1 = sample_size st" "ax_addr ?s1 = ax_addr st"
    by (simp_all add: count_down_def fifo_head_def)
  have r2: "read_reg REG_I2C_FIFO_DATA o2 ?s1 =
      Some (ucast (fifo_head st AND 0xFF), (count_down (fifo_next ?s1))\<lparr>read_count := read_count st + 2\<rparr>)"
    using odd assms(4) s m f1
    by (simp add: read_reg_def plain_read_def read_fifo_def fifo_byte_def count_down_def Let_def fifo_next_def)
  have n: "read_next ?s1 = ?s1"
    "read_next ((count_down (fifo_next ?s1))\<lparr>read_count := read_count st + 2\<rparr>) = (count_down (fifo_next ?s1))\<lparr>read_count := read_count st + 2\<rparr>"
    using assms(5) by (simp_all add: read_next_def count_down_def fifo_next_def)
  show ?thesis
    using r1 r2 n f1(6) assms(5)
    by (simp add: entry_bytes_def split: option.split Option.bind_split)
qed

lemma count_down_frame [simp]:
  "adxl_ok (count_down st) = adxl_ok st" "fifo_count (count_down st) = fifo_count st" "ax_reg (count_down st) = ax_reg st"
  "ax_addr (count_down st) = ax_addr st" "sample_size (count_down st) = sample_size st"
  "fifo_entries (count_down st) = fifo_entries st" "mode16 (count_down st) = mode16 st"
  by (simp_all add: count_down_def fifo_entries_def mode16_def)

lemma fifo_next_frame [simp]:
  "fifo_count (fifo_next st) = fifo_count st - 1" "ax_reg (fifo_next st) = ax_reg st" "ax_addr (fifo_next st) = ax_addr st"
  "sample_size (fifo_next st) = sample_size st" "mode16 (fifo_next st) = mode16 st"
  by (simp_all add: fifo_next_def mode16_def)

lemma entries_read_count [simp]: "fifo_entries (st\<lparr>read_count := n\<rparr>) = fifo_entries st"
  "fifo_entries (fifo_next (st\<lparr>read_count := n\<rparr>)) = fifo_entries (fifo_next st)"
  "fifo_entries (fifo_next (count_down st)) = fifo_entries (fifo_next st)"
  "mode16 (st\<lparr>read_count := n\<rparr>) = mode16 st"
  by (simp_all add: fifo_entries_def fifo_next_def count_down_def mode16_def)

lemma read_entries:
  "adxl_ok st \<Longrightarrow> mode16 st \<Longrightarrow> read_count st mod 2 = 0 \<Longrightarrow> ax_addr st = REG_I2C_FIFO_DATA \<Longrightarrow>
     length data = 2 * n \<Longrightarrow> n \<le> unat (fifo_count st) \<Longrightarrow>
     \<exists>st'. read_bytes data st = Some (concat (map entry_bytes (take n (fifo_entries st))), st') \<and>
       fifo_entries st' = drop n (fifo_entries st) \<and>
       (sample_size st = 1 \<longrightarrow> sample_count st' = sample_count st - of_nat (2 * n))"
proof (induction n arbitrary: st data)
  case 0
  then show ?case by simp
next
  case (Suc n)
  have c: "fifo_count st \<noteq> 0" using Suc.prems(6) by auto
  obtain o1 o2 ds where d: "data = o1 # o2 # ds" "length ds = 2 * n"
  proof -
    have "length data = Suc (Suc (2 * n))" using Suc.prems(5) by simp
    then show thesis using that by (auto simp: length_Suc_conv)
  qed
  obtain st1 where st1: "read_bytes (o1 # o2 # ds) st = (case read_bytes ds st1 of
      None \<Rightarrow> None | Some (bs, st'') \<Rightarrow> Some (entry_bytes (fifo_head st) @ bs, st''))"
    "st1 = (count_down (fifo_next ((count_down st)\<lparr>read_count := read_count st + 1\<rparr>)))\<lparr>read_count := read_count st + 2\<rparr>"
    using read_entry [OF Suc.prems(1-3) c Suc.prems(4), of o1 o2 ds] by blast
  have e: "fifo_entries st = fifo_head st # fifo_entries st1" using entries_next [OF c] by (simp add: st1(2))
  have ok: "adxl_ok st1"
    using ok_fifo_next [of "(count_down st)\<lparr>read_count := read_count st + 1\<rparr>"] Suc.prems(1) c by (simp add: st1(2))
  have m: "mode16 st1" "ax_addr st1 = REG_I2C_FIFO_DATA" "fifo_count st1 = fifo_count st - 1" "sample_size st1 = sample_size st"
    using Suc.prems(2,4) by (simp_all add: st1(2))
  have "even (read_count st)" using Suc.prems(3) by (simp add: even_iff_mod_2_eq_zero)
  then have rc: "read_count st1 mod 2 = 0" by (simp add: st1(2) even_iff_mod_2_eq_zero [symmetric])
  have "n \<le> unat (fifo_count st1)" using Suc.prems(6) c m(3) by (simp add: unat_minus_one)
  with Suc.IH [OF ok m(1) rc m(2) d(2)] obtain st' where st':
    "read_bytes ds st1 = Some (concat (map entry_bytes (take n (fifo_entries st1))), st')"
    "fifo_entries st' = drop n (fifo_entries st1)"
    "sample_size st1 = 1 \<longrightarrow> sample_count st' = sample_count st1 - of_nat (2 * n)"
    by blast
  have "sample_count st1 = sample_count st - 2" if "sample_size st = 1"
    using that by (simp add: st1(2) count_down_def fifo_next_def)
  then have "sample_size st = 1 \<longrightarrow> sample_count st' = sample_count st - of_nat (2 * Suc n)"
    using st'(3) m(4) by simp
  then show ?case using st1(1) st'(1,2) d(1) e by simp
qed

section \<open>Registers\<close>

text \<open>The registers that only keep what is written.\<close>

definition store_only :: "u8 \<Rightarrow> bool" where
  "store_only a \<longleftrightarrow> a \<in> {0x1F, 0x20, 0x23, 0x25, 0x28, 0x29, 0x2D, 0x2E, 0x2F, 0x30, 0x31, 0x32, 0x33, 0x34, 0x35,
     0x36, 0x37, 0x38, 0x39, 0x3A, 0x3B, 0x3C, 0x3D, 0x43, 0x49, 0x4A, 0x4B, 0x4C, 0x4D}"

lemma store_only_effect:
  assumes "store_only a"
  shows "write_effect a st = Some st" "write_pin a h = Some h" "plain_read a" "a \<noteq> 0x18"
proof -
  have n: "a \<notin> {0x21, 0x22, 0x24, 0x26, 0x27, 0x2A, 0x2B, 0x2C, 0x3E, 0x3F, 0x40, 0x41, 0x42}"
    using assms unfolding store_only_def by auto
  then show "write_effect a st = Some st" by (simp add: write_effect_def Let_def)
  from n show "write_pin a h = Some h" by (simp add: write_pin_def)
  show "plain_read a" "a \<noteq> 0x18" using assms unfolding store_only_def plain_read_def by (elim insertE emptyE; simp)+
qed

lemma store_only_reg:
  assumes "store_only a"
  shows "\<exists>m. reg_mask a = Some m \<and> write_reg a b h = Some (h\<lparr>h_usr := set_reg a (b AND m) (h_usr h)\<rparr>)"
proof -
  have "reg_mask a \<noteq> None" using assms unfolding store_only_def reg_mask_def by (elim insertE emptyE; simp)
  then show ?thesis using store_only_effect [OF assms] by (auto simp: write_reg_def)
qed

fun store_regs :: "u8 \<Rightarrow> byte list \<Rightarrow> (u8 \<Rightarrow> u8) \<Rightarrow> u8 \<Rightarrow> u8" where
  "store_regs a [] r = r"
| "store_regs a (b # bs) r = store_regs (a + 1) bs (r(a := b AND the (reg_mask a)))"

lemma write_burst:
  "ax_count (h_usr h) \<noteq> 0 \<Longrightarrow> unat (ax_count (h_usr h)) + length bs < 256 \<Longrightarrow>
     \<forall>i < length bs. store_only (ax_addr (h_usr h) + of_nat i) \<Longrightarrow>
     adxl_write_loop bs h = Some (h\<lparr>h_usr := (h_usr h)\<lparr>ax_reg := store_regs (ax_addr (h_usr h)) bs (ax_reg (h_usr h)),
       ax_count := ax_count (h_usr h) + of_nat (length bs), ax_addr := ax_addr (h_usr h) + of_nat (length bs)\<rparr>\<rparr>)"
proof (induction bs arbitrary: h)
  case Nil
  then show ?case by simp
next
  case (Cons b bs)
  let ?st = "h_usr h" and ?a = "ax_addr (h_usr h)"
  have "store_only ?a" using Cons.prems(3) [rule_format, of 0] by simp
  then obtain m where m: "reg_mask ?a = Some m" "write_reg ?a b h = Some (h\<lparr>h_usr := set_reg ?a (b AND m) ?st\<rparr>)"
    using store_only_reg [of ?a b h] by blast
  let ?st1 = "(set_reg ?a (b AND m) ?st)\<lparr>ax_count := ax_count ?st + 1, ax_addr := ?a + 1\<rparr>"
  let ?h = "h\<lparr>h_usr := ?st1\<rparr>"
  have u: "unat (ax_count ?st + 1) = unat (ax_count ?st) + 1" using Cons.prems(2) by (simp add: unat_word_ariths)
  then have "ax_count (h_usr ?h) \<noteq> 0" by auto
  moreover have "unat (ax_count (h_usr ?h)) + length bs < 256" using u Cons.prems(2) by simp
  moreover have "\<forall>i < length bs. store_only (ax_addr (h_usr ?h) + of_nat i)"
  proof (intro allI impI)
    fix i assume "i < length bs"
    then have "store_only (?a + of_nat (Suc i))" using Cons.prems(3) [rule_format, of "Suc i"] by simp
    then show "store_only (ax_addr (h_usr ?h) + of_nat i)" by (simp add: add.assoc)
  qed
  ultimately have "adxl_write_loop bs ?h = Some (?h\<lparr>h_usr := (h_usr ?h)\<lparr>ax_reg := store_regs (ax_addr (h_usr ?h)) bs (ax_reg (h_usr ?h)),
       ax_count := ax_count (h_usr ?h) + of_nat (length bs), ax_addr := ax_addr (h_usr ?h) + of_nat (length bs)\<rparr>\<rparr>)"
    by (rule Cons.IH)
  then show ?case using Cons.prems(1) m by (simp add: set_reg_def algebra_simps)
qed

lemma read_burst:
  "ax_count st \<noteq> 0 \<Longrightarrow> unat (ax_count st) + length data < 256 \<Longrightarrow> \<forall>i < length data. store_only (ax_addr st + of_nat i) \<Longrightarrow>
     \<exists>st'. read_bytes data st = Some (map (\<lambda>i. ax_reg st (ax_addr st + of_nat i)) [0..<length data], st')"
proof (induction data arbitrary: st)
  case Nil
  then show ?case by simp
next
  case (Cons b data)
  let ?a = "ax_addr st"
  have a: "store_only ?a" using Cons.prems(3) [rule_format, of 0] by simp
  have "?a + 1 \<noteq> 0x18" using a unfolding store_only_def by (elim insertE emptyE; simp)
  then have n: "read_next st = st\<lparr>ax_count := ax_count st + 1, ax_addr := ?a + 1\<rparr>"
    using Cons.prems(1) store_only_effect(4) [OF a] by (simp add: read_next_def Let_def)
  let ?st1 = "st\<lparr>ax_count := ax_count st + 1, ax_addr := ?a + 1\<rparr>"
  have u: "unat (ax_count st + 1) = unat (ax_count st) + 1" using Cons.prems(2) by (simp add: unat_word_ariths)
  have "\<forall>i < length data. store_only (ax_addr ?st1 + of_nat i)"
  proof (intro allI impI)
    fix i assume "i < length data"
    then have "store_only (?a + of_nat (Suc i))" using Cons.prems(3) [rule_format, of "Suc i"] by simp
    then show "store_only (ax_addr ?st1 + of_nat i)" by (simp add: add.assoc)
  qed
  moreover have "ax_count ?st1 \<noteq> 0" "unat (ax_count ?st1) + length data < 256" using u Cons.prems(2) by auto
  ultimately obtain st' where "read_bytes data ?st1 =
      Some (map (\<lambda>i. ax_reg ?st1 (ax_addr ?st1 + of_nat i)) [0..<length data], st')"
    using Cons.IH [of ?st1] by blast
  moreover have "map (\<lambda>i. ax_reg st (?a + of_nat i)) [0..<Suc (length data)] =
      ax_reg st ?a # map (\<lambda>i. ax_reg st (?a + 1 + of_nat i)) [0..<length data]"
    by (simp add: upt_conv_Cons map_Suc_upt [symmetric] comp_def add.assoc del: upt_Suc map_Suc_upt)
  ultimately show ?case using n store_only_effect(3) [OF a] by (simp add: read_reg_def del: upt_Suc)
qed

lemma store_regs_other:
  "\<forall>i < length bs. c \<noteq> a + of_nat i \<Longrightarrow> store_regs a bs r c = r c"
proof (induction bs arbitrary: a r)
  case (Cons b bs)
  have "c \<noteq> a + 1 + of_nat i" if "i < length bs" for i
    using Cons.prems [rule_format, of "Suc i"] that by (simp add: add.assoc)
  moreover have "c \<noteq> a" using Cons.prems [rule_format, of 0] by simp
  ultimately show ?case using Cons.IH [of "a + 1"] by simp
qed simp

lemma store_regs_nth:
  "i < length bs \<Longrightarrow> length bs \<le> 256 \<Longrightarrow> store_regs a bs r (a + of_nat i) = bs ! i AND the (reg_mask (a + of_nat i))"
proof (induction bs arbitrary: a r i)
  case (Cons b bs)
  show ?case
  proof (cases i)
    case 0
    have "a \<noteq> a + 1 + of_nat k" if "k < length bs" for k
    proof
      assume "a = a + 1 + of_nat k"
      then have "of_nat (Suc k) = (0 :: u8)" by (simp add: algebra_simps)
      moreover have "Suc k < 256" using that Cons.prems(2) by simp
      ultimately show False using unat_of_nat [where 'a = 8, of "Suc k"] by (simp del: of_nat_Suc)
    qed
    then show ?thesis using 0 store_regs_other [of bs a "a + 1"] by simp
  next
    case (Suc k)
    then show ?thesis using Cons.IH [of k "a + 1"] Cons.prems by (simp add: add.assoc)
  qed
qed simp

lemma set_data_frame [simp]:
  "ax_count (set_data a v st) = ax_count st" "ax_addr (set_data a v st) = ax_addr st"
  "r \<noteq> a \<Longrightarrow> r \<noteq> a + 1 \<Longrightarrow> ax_reg (set_data a v st) r = ax_reg st r"
  by (simp_all add: set_data_def set_reg_def)

text \<open>A START takes samples; the registers that only store are left alone.\<close>

lemma start_samples:
  assumes "filter_range st < 3"
  shows "\<exists>st'. adi_adxl36x_start st = Some (1, st') \<and> ax_count st' = ax_count st \<and> ax_addr st' = ax_addr st \<and>
    (\<forall>r. store_only r \<longrightarrow> ax_reg st' r = ax_reg st r)"
proof -
  have r: "r \<notin> {0x0E, 0x0F, 0x10, 0x11, 0x12, 0x13, 0x14, 0x15}" if "store_only r" for r
    using that unfolding store_only_def by (elim insertE emptyE; simp)
  show ?thesis
    using assms r
    by (auto simp: adi_adxl36x_start_def accel_if_measuring_def adi_adxl36x_accel_convert_def adi_adxl36x_temp_convert_def
        range_scale_def Let_def)
qed

lemma timer_frame [simp]:
  "ax_reg (timer_evt_stop st) = ax_reg st" "ax_count (timer_evt_stop st) = ax_count st" "ax_addr (timer_evt_stop st) = ax_addr st"
  "ax_reg (timer_evt_start st) = ax_reg st" "ax_count (timer_evt_start st) = ax_count st" "ax_addr (timer_evt_start st) = ax_addr st"
  by (simp_all add: timer_evt_stop_def timer_evt_start_def on_timer_def)

text \<open>A write of the address and \<open>bs\<close> to registers that only store, as it leaves the registers.\<close>

lemma write_stores:
  assumes "ax_count (h_usr h) = 0" "a < 0x80" "length bs < 255" "\<forall>i < length bs. store_only (a + of_nat i)"
  shows "\<exists>st'. adi_adxl36x_write (a # bs) c h = Some (int (Suc (length bs)), c, h\<lparr>h_usr := st'\<rparr>) \<and>
    ax_reg st' = store_regs a bs (ax_reg (h_usr h)) \<and> ax_addr st' = a + of_nat (length bs) \<and> ax_count st' = 1 + of_nat (length bs)"
proof -
  let ?st = "(timer_evt_stop (h_usr h))\<lparr>tme_cnt := timer_count (timer_evt_stop (h_usr h)), ax_addr := 0x7F AND a, ax_count := 1\<rparr>"
  have a: "0x7F AND a = a"
  proof -
    have "take_bit 7 a = a"
    proof (rule word_unat_eq_iff [THEN iffD2])
      have "unat a < 128" using assms(2) by (simp add: word_less_nat_alt)
      then show "unat (take_bit 7 a) = unat a" by (simp add: unsigned_take_bit_eq take_bit_nat_eq_self)
    qed
    then show ?thesis by (simp add: take_bit_eq_mask mask_eq_exp_minus_1 and.commute)
  qed
  let ?st' = "?st\<lparr>ax_reg := store_regs a bs (ax_reg (h_usr h)), ax_count := 1 + of_nat (length bs), ax_addr := a + of_nat (length bs)\<rparr>"
  have "adxl_write_loop bs (h\<lparr>h_usr := ?st\<rparr>) = Some (h\<lparr>h_usr := ?st\<lparr>ax_reg := store_regs a bs (ax_reg (h_usr h)),
       ax_count := 1 + of_nat (length bs), ax_addr := a + of_nat (length bs)\<rparr>\<rparr>)"
    using write_burst [of "h\<lparr>h_usr := ?st\<rparr>" bs] assms(3,4) a by simp
  then show ?thesis using assms(1)
    by (intro exI [of _ "if measuring ?st' then timer_evt_start (?st'\<lparr>tme_init := 1\<rparr>) else ?st'\<lparr>tme_init := 0\<rparr>"])
      (simp add: adi_adxl36x_write_def Let_def)
qed

text \<open>Written in one transaction, read back in the next.\<close>

lemma registers_read_back:
  assumes "ax_count (h_usr h) = 0" "a < 0x80" "length bs < 255" "\<forall>i < length bs. store_only (a + of_nat i)"
    "filter_range (h_usr h) < 3" "length data = length bs"
  shows "\<exists>h1 st2 st3 h4 st5.
    adi_adxl36x_write (a # bs) c h = Some (int (Suc (length bs)), c, h1) \<and>
    adi_adxl36x_stop (h_usr h1) = Some ((), st2) \<and> adi_adxl36x_start st2 = Some (1, st3) \<and>
    adi_adxl36x_write [a] c (h1\<lparr>h_usr := st3\<rparr>) = Some (1, c, h4) \<and>
    adi_adxl36x_read data (h_usr h4) =
      Some ((int (length bs), map (\<lambda>i. bs ! i AND the (reg_mask (a + of_nat i))) [0..<length bs]), st5)"
proof -
  obtain st1 where w1: "adi_adxl36x_write (a # bs) c h = Some (int (Suc (length bs)), c, h\<lparr>h_usr := st1\<rparr>)"
    "ax_reg st1 = store_regs a bs (ax_reg (h_usr h))"
    using write_stores [OF assms(1-4)] by blast
  let ?st2 = "st1\<lparr>ax_count := 0, ax_addr := 0\<rparr>"
  have "\<not> store_only 0x2C" by (simp add: store_only_def)
  then have "\<forall>i < length bs. 0x2C \<noteq> a + of_nat i" using assms(4) by metis
  then have "filter_range ?st2 < 3" using assms(5) w1(2) store_regs_other [of bs "0x2C" a] by (simp add: filter_range_def)
  then obtain st3 where s3: "adi_adxl36x_start ?st2 = Some (1, st3)" "ax_count st3 = 0"
    "\<forall>r. store_only r \<longrightarrow> ax_reg st3 r = ax_reg st1 r"
    using start_samples [of ?st2] by auto
  obtain st4 where w4: "adi_adxl36x_write [a] c (h\<lparr>h_usr := st3\<rparr>) = Some (1, c, h\<lparr>h_usr := st4\<rparr>)"
    "ax_reg st4 = ax_reg st3" "ax_addr st4 = a" "ax_count st4 = 1"
    using write_stores [of "h\<lparr>h_usr := st3\<rparr>" a "[]" c] s3(2) assms(2) by auto
  obtain st5 where r: "read_bytes data st4 = Some (map (\<lambda>i. ax_reg st4 (a + of_nat i)) [0..<length bs], st5)"
    using read_burst [of st4 data] w4(3,4) assms(3,4,6) by auto
  have "map (\<lambda>i. ax_reg st4 (a + of_nat i)) [0..<length bs] =
      map (\<lambda>i. bs ! i AND the (reg_mask (a + of_nat i))) [0..<length bs]"
    using assms(3,4) s3(3) w1(2) w4(2) store_regs_nth by simp
  then show ?thesis
    using w1(1) s3(1) w4(1) r
    by (intro exI [of _ "h\<lparr>h_usr := st1\<rparr>"] exI [of _ ?st2] exI [of _ st3] exI [of _ "h\<lparr>h_usr := st4\<rparr>"] exI [of _ st5])
      (simp add: adi_adxl36x_stop_def adi_adxl36x_read_def)
qed

section \<open>Rates and ranges\<close>

text \<open>The period of each rate in nanoseconds, through single precision.\<close>

lemma frequency_values:
  "frequency_nsec (25 / 2) = Some 80000000" "frequency_nsec 25 = Some 40000000" "frequency_nsec 50 = Some 20000000"
  "frequency_nsec 100 = Some 10000000" "frequency_nsec 200 = Some 5000000" "frequency_nsec 400 = Some 2500000"
  by (simp_all add: frequency_nsec_def float_eval)

definition rate_nsec :: "u8 \<Rightarrow> u32" where
  "rate_nsec b = [80000000, 40000000, 20000000, 10000000, 5000000, 2500000] ! unat (b AND 7)"

lemma and_7_cases:
  assumes "b AND 7 < (6 :: u8)"
  shows "b AND 7 \<in> {0, 1, 2, 3, 4, 5}"
proof -
  have "unat (b AND 7) < 6" using assms by (simp add: word_less_nat_alt)
  then have "unat (b AND 7) \<in> {0, 1, 2, 3, 4, 5}" by auto
  then show ?thesis by (auto simp: word_unat_eq_iff)
qed

lemma rate_values: "b AND 7 < 6 \<Longrightarrow> frequency_nsec (odr_of b hz) = Some (rate_nsec b) \<and> odr_of b hz \<noteq> 0"
  using and_7_cases [of b] by (auto simp: odr_of_def rate_nsec_def frequency_values)

text \<open>
  Writing \<open>FILTER_CTL\<close> with one of the six rates: the sample timer has the period of the rate, and
  when the device measures the timer runs with it.
\<close>

lemma rate_written:
  assumes "ax_count (h_usr h) = 0" "b AND 7 < 6" "0 < length (tmevt (h_usr h))"
  shows "\<exists>st'. adi_adxl36x_write [REG_FILTER_CTL, b] c h = Some (2, c, h\<lparr>h_usr := st'\<rparr>) \<and>
    te_value (tmevt st' ! 0) = rate_nsec b \<and> te_interval (tmevt st' ! 0) = rate_nsec b \<and>
    (measuring (h_usr h) \<longrightarrow> te_setting (tmevt st' ! 0) = (rate_nsec b, rate_nsec b) \<and> due 0 st') \<and>
    (\<not> measuring (h_usr h) \<longrightarrow> \<not> due 0 st')"
proof -
  let ?m = "0xEF :: u8"
  have m: "reg_mask REG_FILTER_CTL = Some ?m" by (simp add: reg_mask_def)
  have b: "(b AND ?m) AND 7 = b AND 7" by (simp add: and.assoc)
  have r: "frequency_nsec (odr_of (b AND ?m) hz) = Some (rate_nsec b)" for hz
    using rate_values [of "b AND ?m" hz] assms(2) by (simp add: b rate_nsec_def and.assoc)
  have n: "\<not> 1000000000 \<le> rate_nsec b" "rate_nsec b \<noteq> 0"
    using and_7_cases [OF assms(2)] by (auto simp: rate_nsec_def)
  let ?s0 = "(timer_evt_stop (h_usr h))\<lparr>tme_cnt := timer_count (timer_evt_stop (h_usr h)), ax_addr := 0x2C, ax_count := 1\<rparr>"
  let ?s1 = "set_reg REG_FILTER_CTL (b AND ?m) ?s0"
  let ?s2 = "?s1\<lparr>data_range := of_nat (filter_range ?s1), odr := odr_of (b AND ?m) (odr ?s1), timer_count := 0\<rparr>"
  let ?s3 = "on_timer 0 (\<lambda>t. (timer_zero t)\<lparr>te_polled := True, te_value := rate_nsec b, te_interval := rate_nsec b\<rparr>) ?s2"
  let ?s4 = "?s3\<lparr>ax_count := ax_count ?s3 + 1, ax_addr := ax_addr ?s3 + 1\<rparr>"
  have e: "write_effect REG_FILTER_CTL ?s1 = Some ?s3"
    using r by (simp add: write_effect_def set_reg_def timer_evt_set_frequency_def Let_def)
  have w: "adxl_write_loop [REG_FILTER_CTL, b] (h\<lparr>h_usr := (timer_evt_stop (h_usr h))\<lparr>tme_cnt := timer_count (timer_evt_stop (h_usr h))\<rparr>\<rparr>) =
      Some (h\<lparr>h_usr := ?s4\<rparr>)"
  proof -
    have "write_reg REG_FILTER_CTL b (h\<lparr>h_usr := ?s0\<rparr>) = Some (h\<lparr>h_usr := ?s3\<rparr>)"
      unfolding write_reg_def m using e by (simp add: write_pin_def)
    then show ?thesis using assms(1) by simp
  qed
  have ms: "measuring ?s4 = measuring (h_usr h)" by (simp add: measuring_def on_timer_def set_reg_def)
  let ?s5 = "if measuring (h_usr h) then timer_evt_start (?s4\<lparr>tme_init := 1\<rparr>) else ?s4\<lparr>tme_init := 0\<rparr>"
  have "adi_adxl36x_write [REG_FILTER_CTL, b] c h = Some (2, c, h\<lparr>h_usr := ?s5\<rparr>)"
    using w ms by (simp add: adi_adxl36x_write_def Let_def)
  moreover have z: "fst (te_setting (timer_zero t)) = 0" for t by (rule settime_zero)
  have "te_value (tmevt ?s5 ! 0) = rate_nsec b \<and> te_interval (tmevt ?s5 ! 0) = rate_nsec b \<and>
    (measuring (h_usr h) \<longrightarrow> te_setting (tmevt ?s5 ! 0) = (rate_nsec b, rate_nsec b) \<and> due 0 ?s5) \<and>
    (\<not> measuring (h_usr h) \<longrightarrow> \<not> due 0 ?s5)"
    using n assms(3) z
    by (simp add: timer_evt_start_def on_timer_def timer_settime_def due_def set_reg_def timer_evt_stop_def)
  ultimately show ?thesis by blast
qed

text \<open>The range 3, which the register can hold, is outside the table of factors.\<close>

lemma range_overruns:
  assumes "filter_range st = 3" "measuring st" "ax_count st = 0"
  shows "adi_adxl36x_start st = None" "comp_sample st = None"
  using assms
  by (simp_all add: adi_adxl36x_start_def comp_sample_def accel_if_measuring_def adi_adxl36x_accel_convert_def range_scale_def)

text \<open>A time of activity above 4.29 seconds does not fit into the nanoseconds of a timer.\<close>

lemma oneshot_overflows: "oneshot_nsec 255 (25 / 2) = None"
  by (simp add: oneshot_nsec_def float_eval)

section \<open>Events are never reported\<close>

text \<open>
  No reachable state has a one-shot timer that is due, and so none reports activity, inactivity,
  a tap or a temperature.
\<close>

lemma reach_no_event:
  assumes "adxl_reach h"
  shows "0 < i \<Longrightarrow> \<not> due i (h_usr h)" "ax_reg (h_usr h) REG_STATUS AND 0x30 = 0" "ax_reg (h_usr h) REG_STATUS_2 = 0"
  using reach_ok [OF assms] due_zero [of i "h_usr h"] by (auto simp: adxl_ok_def quiet_def)

end
