(* ===== verification/AdxlRegs.thy ===== *)
theory AdxlRegs
  imports AdxlIo
begin

text \<open>
  \<open>examples/i2c-adxl36x/adxl36x_registers.c\<close>: the names of the accelerometer's registers and the
  text of their fields, as tables in the order of the code, and their agreement with the bits
  that \<open>coremodel-adxl36x.c\<close> lets be written. The function that prints is the identity on text.
\<close>

section \<open>Numbers as text\<close>

definition digit :: "nat \<Rightarrow> char" where
  "digit d = ''0123456789abcdef'' ! d"

fun show_nat :: "nat \<Rightarrow> string" where
  "show_nat n = (if n < 10 then [digit n] else show_nat (n div 10) @ [digit (n mod 10)])"

declare show_nat.simps [simp del]

fun show_hex :: "nat \<Rightarrow> string" where
  "show_hex n = (if n < 16 then [digit n] else show_hex (n div 16) @ [digit (n mod 16)])"

declare show_hex.simps [simp del]

text \<open>\<open>%08lx\<close>\<close>

definition show_hex8 :: "nat \<Rightarrow> string" where
  "show_hex8 n = (let s = show_hex n in replicate (8 - length s) (digit 0) @ s)"

section \<open>Names\<close>

definition reg_names :: "(u32 \<times> string) list" where
  "reg_names = [
    (0x00, ''devid_ad''), (0x01, ''devid_mst''), (0x02, ''part_id''), (0x03, ''rev_id''), (0x05, ''serial_number_2''),
    (0x06, ''serial_number_1''), (0x07, ''serial_number_0''), (0x08, ''xdata''), (0x09, ''ydata''), (0x0A, ''zdata''),
    (0x0B, ''status''), (0x0C, ''fifo_entries_l''), (0x0D, ''fifo_entries_h''), (0x0E, ''xdata_h''),
    (0x0F, ''xdata_l''), (0x10, ''ydata_h''), (0x11, ''ydata_l''), (0x12, ''zdata_h''), (0x13, ''zdata_l''),
    (0x14, ''temp_h''), (0x15, ''temp_l''), (0x16, ''ex_adc_h''), (0x17, ''ex_adc_l''), (0x18, ''i2c_fifo_data''),
    (0x1F, ''soft_reset''), (0x20, ''thresh_act_h''), (0x21, ''thresh_act_l''), (0x22, ''time_act''),
    (0x23, ''thresh_inact_h''), (0x24, ''thresh_inact_l''), (0x25, ''time_inact_h''), (0x26, ''time_inact_l''),
    (0x27, ''act_inact_ctl''), (0x28, ''fifo_control''), (0x29, ''fifo_samples''), (0x2A, ''intmap1_lower''),
    (0x2B, ''intmap2_lower''), (0x2C, ''filter_ctl''), (0x2D, ''power_ctl''), (0x2E, ''self_test''),
    (0x2F, ''tap_thresh''), (0x30, ''tap_dur''), (0x31, ''tap_latent''), (0x32, ''tap_window''), (0x33, ''x_offset''),
    (0x34, ''y_offset''), (0x35, ''z_offset''), (0x36, ''x_sens''), (0x37, ''y_sens''), (0x38, ''z_sens''),
    (0x39, ''timer_ctl''), (0x3A, ''intmap1_upper''), (0x3B, ''intmaps2_upper''), (0x3C, ''adc_ctl''),
    (0x3D, ''temp_ctl''), (0x3E, ''temp_adc_over_thrsh_h''), (0x3F, ''temp_adc_over_thrsh_l''),
    (0x40, ''temp_adc_under_thrsh_h''), (0x41, ''temp_adc_under_thrsh_l''), (0x42, ''temp_adc_timer''),
    (0x43, ''axis_mask''), (0x44, ''status_copy''), (0x45, ''status_2''), (0x46, ''status_3''),
    (0x47, ''pedometer_step_cnt_h''), (0x48, ''pedometer_step_cnt_l''), (0x49, ''pedometer_ctl''),
    (0x4A, ''pedometer_thres_h''), (0x4B, ''pedometer_thres_l''), (0x4C, ''pedometer_sens_h''),
    (0x4D, ''pedometer_sens_l'')]"

definition adi_adxl36x_reg_name :: "u32 \<Rightarrow> string option" where
  "adi_adxl36x_reg_name = map_of reg_names"

section \<open>Fields\<close>

text \<open>
  A register is printed in hexadecimal or as its fields, separated by commas: a number, or one of
  several words, with the number when there is none for it. A field has a shift and a mask.
\<close>

datatype field = HexF | NumF string nat u64 | EnumF string nat u64 "string list"

definition field_value :: "nat \<Rightarrow> u64 \<Rightarrow> u64 \<Rightarrow> nat" where
  "field_value s m v = unat (drop_bit s v AND m)"

fun show_field :: "u64 \<Rightarrow> field \<Rightarrow> string" where
  "show_field v HexF = ''0x'' @ show_hex8 (unat v)"
| "show_field v (NumF name s m) = name @ '':'' @ show_nat (field_value s m v)"
| "show_field v (EnumF name s m words) = name @ '':'' @
     (let i = field_value s m v in if i < length words then words ! i else show_nat i)"

definition fields_data :: "(u32 \<times> field list) list" where
  "fields_data = [
    (0x00, [HexF]), (0x01, [HexF]), (0x02, [HexF]), (0x03, [HexF]), (0x05, [NumF ''bit16'' 0 1]), (0x06, [HexF]),
    (0x07, [HexF]), (0x08, [HexF]), (0x09, [HexF]), (0x0A, [HexF]),
    (0x0B, [NumF ''err_user_regs'' 7 1, NumF ''awake'' 6 1, NumF ''inact'' 5 1, NumF ''act'' 4 1,
      NumF ''fifo_over_run'' 3 1, NumF ''fifo_water_mark'' 2 1, NumF ''fifo_ready'' 1 1, NumF ''data_ready'' 0 1]),
    (0x0C, [HexF]), (0x0D, [HexF]), (0x0E, [HexF]), (0x0F, [NumF ''data'' 2 63]), (0x10, [HexF]),
    (0x11, [NumF ''data'' 2 63]), (0x12, [HexF]), (0x13, [NumF ''data'' 2 63]), (0x14, [HexF]),
    (0x15, [NumF ''data'' 2 63]), (0x16, [HexF]), (0x17, [NumF ''data'' 2 63]), (0x18, [HexF]),
    (0x1F, [NumF ''soft_reset'' 1 1])]"

definition fields_control :: "(u32 \<times> field list) list" where
  "fields_control = [
    (0x20, [NumF ''data'' 0 127]), (0x21, [NumF ''data'' 2 63]), (0x22, [HexF]), (0x23, [NumF ''data'' 0 127]),
    (0x24, [NumF ''data'' 2 63]), (0x25, [HexF]), (0x26, [HexF]),
    (0x27, [NumF ''reg_readback'' 6 3, EnumF ''linkloop'' 4 3 [''default1'', ''linked'', ''default2'',
      ''looped''], NumF ''intact_en'' 2 3, NumF ''act_en'' 0 3]),
    (0x28, [EnumF ''channel_select'' 3 15 [''xyz'', ''x'', ''y'', ''z'', ''xyzt'', ''xt'', ''yt'', ''zt'',
      ''xyza'', ''xa'', ''ya'', ''za''], NumF ''fifo_samples'' 2 1, EnumF ''fifo_mode'' 0 3 [''disabled'',
      ''oldest'', ''stream'', ''trigger'']]),
    (0x29, [HexF]),
    (0x2A, [NumF ''int_low_int'' 7 1, NumF ''awake_int'' 6 1, NumF ''inact_int'' 5 1, NumF ''act_int'' 4 1,
      NumF ''fifo_overrun_int'' 3 1, NumF ''fifo_water_mark_int'' 2 1, NumF ''fifo_rdy_int'' 1 1,
      NumF ''data_rdy_int'' 0 1]),
    (0x2B, [NumF ''int_low_int'' 7 1, NumF ''awake_int'' 6 1, NumF ''inact_int'' 5 1, NumF ''act_int'' 4 1,
      NumF ''fifo_overrun_int'' 3 1, NumF ''fifo_water_mark_int'' 2 1, NumF ''fifo_rdy_int'' 1 1,
      NumF ''data_rdy_int'' 0 1])]"

definition fields_config :: "(u32 \<times> field list) list" where
  "fields_config = [
    (0x2C, [NumF ''range'' 6 3, NumF ''i2c_hs'' 5 1, NumF ''ext_sample'' 3 1, NumF ''odr'' 0 7]),
    (0x2D, [NumF ''ext_clk'' 6 1, NumF ''noise'' 4 3, NumF ''wakeup'' 3 1, NumF ''autosleep'' 2 1,
      NumF ''measure'' 0 3]),
    (0x2E, [NumF ''st_force'' 1 1, NumF ''st'' 0 1]), (0x2F, [HexF]), (0x30, [HexF]), (0x31, [HexF]), (0x32, [HexF]),
    (0x33, [NumF ''user_offset'' 0 31]), (0x34, [NumF ''user_offset'' 0 31]), (0x35, [NumF ''user_offset'' 0 31]),
    (0x36, [NumF ''user_sens'' 0 63]), (0x37, [NumF ''user_sens'' 0 63]), (0x38, [NumF ''user_sens'' 0 63]),
    (0x39, [NumF ''wakeup_rate'' 6 3, NumF ''timer_keep_alive'' 0 31]),
    (0x3A, [NumF ''err_fuse_int'' 7 1, NumF ''err_user_regs_int'' 6 1, NumF ''kplav_timer_int'' 4 1,
      NumF ''temp_adc_hi_int'' 3 1, NumF ''temp_adc_low_int'' 2 1, NumF ''tap_two_int'' 1 1,
      NumF ''tap_one_int'' 0 1]),
    (0x3B, [NumF ''err_fuse_int'' 7 1, NumF ''err_user_regs_int'' 6 1, NumF ''kplav_timer_int'' 4 1,
      NumF ''temp_adc_hi_int'' 3 1, NumF ''temp_adc_low_int'' 2 1, NumF ''tap_two_int'' 1 1,
      NumF ''tap_one_int'' 0 1])]"

definition fields_temp :: "(u32 \<times> field list) list" where
  "fields_temp = [
    (0x3C, [NumF ''fifo_8_12BIT'' 6 3, NumF ''adc_inact_en'' 3 1, NumF ''adc_act_en'' 1 1, NumF ''adc_en'' 0 1]),
    (0x3D, [NumF ''nl_comp_en'' 7 1, NumF ''temp_inact_en'' 3 1, NumF ''temp_act_en'' 1 1, NumF ''temp_en'' 0 1]),
    (0x3E, [NumF ''thresh'' 0 127]), (0x3F, [NumF ''thresh'' 2 63]), (0x40, [NumF ''thresh'' 0 127]),
    (0x41, [NumF ''thresh'' 2 63]), (0x42, [NumF ''timer_temp_adc_inact'' 4 15, NumF ''timer_temp_adc_act'' 0 15]),
    (0x43, [NumF ''tap_axis'' 4 3, NumF ''act_inact_z'' 2 1, NumF ''act_inact_y'' 1 1, NumF ''act_inact_x'' 0 1])]"

definition fields_status :: "(u32 \<times> field list) list" where
  "fields_status = [
    (0x44, [NumF ''err_user_regs'' 7 1, NumF ''awake'' 6 1, NumF ''inact'' 5 1, NumF ''act'' 4 1,
      NumF ''fifo_over_run'' 3 1, NumF ''fifo_water_mark'' 2 1, NumF ''fifo_ready'' 1 1, NumF ''data_ready'' 0 1]),
    (0x45, [NumF ''err_fuse_regs'' 7 1, NumF ''fuse_refresh'' 6 1, NumF ''timer'' 4 1, NumF ''temp_adc_hi'' 3 1,
      NumF ''temp_adc_low'' 2 1, NumF ''tap_two'' 1 1, NumF ''tap_one'' 0 1]),
    (0x46, [NumF ''pedometer_overflow'' 0 1]), (0x47, [HexF]), (0x48, [HexF]),
    (0x49, [NumF ''reset_step'' 2 1, NumF ''reset_of'' 1 1, NumF ''en'' 0 1]), (0x4A, [NumF ''threshold'' 0 127]),
    (0x4B, [NumF ''threshold'' 0 255]), (0x4C, [NumF ''sensitivity'' 0 127]), (0x4D, [NumF ''sensitivity'' 0 255])]"

definition fields_of :: "u32 \<Rightarrow> field list option" where
  "fields_of = map_of (fields_data @ fields_control @ fields_config @ fields_temp @ fields_status)"

fun join :: "string list \<Rightarrow> string" where
  "join [] = []"
| "join [s] = s"
| "join (s # ss) = s @ '','' @ join ss"

definition adi_adxl36x_print_fields :: "u32 \<Rightarrow> u64 \<Rightarrow> string" where
  "adi_adxl36x_print_fields addr v =
    (case fields_of addr of None \<Rightarrow> [] | Some fs \<Rightarrow> join (map (show_field v) fs))"

section \<open>The bits that are written and the fields that are shown\<close>

fun field_bits :: "field \<Rightarrow> u64" where
  "field_bits HexF = 0xFF"
| "field_bits (NumF name s m) = push_bit s m"
| "field_bits (EnumF name s m words) = push_bit s m"

definition fields_bits :: "field list \<Rightarrow> u64" where
  "fields_bits fs = foldr (\<lambda>f w. field_bits f OR w) fs 0"

text \<open>The bits a field shows of a value.\<close>

fun field_part :: "u64 \<Rightarrow> field \<Rightarrow> u64" where
  "field_part v HexF = v AND 0xFF"
| "field_part v (NumF name s m) = push_bit s (of_nat (field_value s m v))"
| "field_part v (EnumF name s m words) = push_bit s (of_nat (field_value s m v))"

lemma field_part_bits: "field_part v f = v AND field_bits f"
proof -
  have "push_bit s (of_nat (field_value s m v)) = v AND push_bit s m" for s m
    by (rule bit_word_eqI) (auto simp: field_value_def bit_simps)
  then show ?thesis by (cases f) simp_all
qed

lemma fields_parts: "foldr (\<lambda>f w. field_part v f OR w) fs 0 = v AND fields_bits fs"
  by (induction fs) (simp_all add: fields_bits_def field_part_bits bit.conj_disj_distrib)

lemmas field_tables = fields_data_def fields_control_def fields_config_def fields_temp_def fields_status_def

text \<open>Row by row, the fields are the bits of the register's mask; from \<open>0x1F\<close> on no register is left out.\<close>

definition row_agrees :: "u32 \<times> field list \<Rightarrow> bool" where
  "row_agrees row = (case reg_mask (ucast (fst row)) of None \<Rightarrow> True | Some m \<Rightarrow> fields_bits (snd row) = ucast m)"

lemma rows_agree:
  "list_all row_agrees fields_data" "list_all row_agrees fields_control" "list_all row_agrees fields_config"
  "list_all row_agrees fields_temp" "list_all row_agrees fields_status"
  by (simp_all add: field_tables row_agrees_def reg_mask_def fields_bits_def)

definition all_fields :: "(u32 \<times> field list) list" where
  "all_fields = fields_data @ fields_control @ fields_config @ fields_temp @ fields_status"

lemma fields_complete: "drop 24 (map fst all_fields) = map of_nat [0x1F..<0x4E]"
  by (simp add: all_fields_def field_tables)

lemma same_registers: "map fst reg_names = map fst all_fields"
  by (simp add: reg_names_def all_fields_def field_tables)

lemma field_row: "fields_of a = Some fs \<Longrightarrow> row_agrees (a, fs)"
  using rows_agree map_of_SomeD [of all_fields a fs]
  by (auto simp: fields_of_def all_fields_def list_all_iff)

lemma reg_mask_listed:
  assumes "reg_mask a \<noteq> None"
  shows "ucast a \<in> set (map of_nat [0x1F..<0x4E] :: u32 list)"
proof -
  have "0x1F \<le> a \<and> a \<le> 0x4D" using assms by (auto simp: reg_mask_def split: if_split_asm)
  then have "unat a \<in> {0x1F..<0x4E}" by (simp add: word_le_nat_alt)
  moreover have "ucast a = (of_nat (unat a) :: u32)" by (simp add: unsigned_ucast_eq)
  ultimately show ?thesis unfolding set_map set_upt by (rule rev_image_eqI)
qed

text \<open>
  A register that can be written has a name, and the fields that are shown of it put together are
  exactly the bits that were kept.
\<close>

lemma shown_fields:
  assumes "reg_mask a = Some m"
  shows "\<exists>name fs. adi_adxl36x_reg_name (ucast a) = Some name \<and> fields_of (ucast a) = Some fs \<and>
    foldr (\<lambda>f w. field_part (ucast b) f OR w) fs 0 = ucast (b AND m)"
proof -
  have "ucast a \<in> set (drop 24 (map fst all_fields))"
    unfolding fields_complete using reg_mask_listed [of a] assms by blast
  then have k: "ucast a \<in> fst ` set all_fields" using in_set_dropD by fastforce
  then obtain fs where fs: "fields_of (ucast a) = Some fs"
    unfolding fields_of_def all_fields_def [symmetric] by (metis map_of_eq_None_iff not_None_eq)
  have "ucast a \<in> fst ` set reg_names" using k same_registers by (metis list.set_map)
  then obtain name where "adi_adxl36x_reg_name (ucast a) = Some name"
    unfolding adi_adxl36x_reg_name_def by (metis map_of_eq_None_iff not_None_eq)
  moreover have "fields_bits fs = ucast m"
  proof -
    have "ucast (ucast a :: u32) = a" by (simp add: word_unat_eq_iff unsigned_ucast_eq take_bit_word_eq_self)
    then show ?thesis using field_row [OF fs] assms by (simp add: row_agrees_def)
  qed
  then have "foldr (\<lambda>f w. field_part (ucast b) f OR w) fs 0 = ucast (b AND m)"
    by (simp add: fields_parts unsigned_and_eq)
  ultimately show ?thesis using fs by blast
qed

end
