(* ===== verification/SwitchTuple.thy ===== *)
theory SwitchTuple
  imports Connect
begin

text \<open>
  \<open>examples/eth-switch/eth-switch.c\<close>, the argument \<open>remote/port/interface\<close> of the option \<open>-c\<close>:
  \<open>switch_parse_tuple\<close>, which cuts it into its fields, and \<open>coremodel_mktarget\<close>, which makes the
  target of the connection from them. Strings are the bytes of C strings without their zeros.
  \<open>oom\<close> is the script of the coming allocations, where \<open>True\<close> is one that fails.
\<close>

abbreviation (input) TUPLE_IP_IDX :: nat where "TUPLE_IP_IDX \<equiv> 0"
abbreviation (input) TUPLE_PORT_IDX :: nat where "TUPLE_PORT_IDX \<equiv> 1"
abbreviation (input) TUPLE_NAME_IDX :: nat where "TUPLE_NAME_IDX \<equiv> 2"
abbreviation (input) TUPLE_NELM :: nat where "TUPLE_NELM \<equiv> 3"

section \<open>The code\<close>

definition alloc :: "bool list \<Rightarrow> bool \<times> bool list" where
  "alloc oom = (case oom of [] \<Rightarrow> (True, []) | b # bs \<Rightarrow> (\<not> b, bs))"

text \<open>
  The first loop: the places of the separators outside quotes, in an array of \<open>len\<close> elements whose
  bound is not tested.
\<close>

fun parse_scan :: "byte \<Rightarrow> nat \<Rightarrow> bool \<Rightarrow> nat \<Rightarrow> nat list \<Rightarrow> byte list \<Rightarrow> nat list option" where
  "parse_scan sep len q k seps [] = Some seps"
| "parse_scan sep len q k seps (b # bs) =
    (let q = (q \<noteq> (b = 0x22)) in
     if \<not> q \<and> b = sep then
       if length seps < len then parse_scan sep len q (Suc k) (seps @ [k]) bs else None
     else parse_scan sep len q (Suc k) seps bs)"

text \<open>The C string at an offset of a buffer.\<close>

definition c_str :: "byte list \<Rightarrow> nat \<Rightarrow> byte list" where
  "c_str buf s = takeWhile (\<lambda>b. b \<noteq> 0) (drop s buf)"

text \<open>
  A field, \<open>Inr\<close> with the copy or with NULL when there was no memory for it; a quoted field is copied
  without its quotes over that copy. \<open>Inl\<close> is the error of a missing quote.
\<close>

definition parse_field :: "byte list \<Rightarrow> bool \<Rightarrow> (unit + byte list option) option" where
  "parse_field s ok =
    (case s of
       b # rest \<Rightarrow>
         if b = 0x22 then
           if 0x22 \<notin> set rest then Some (Inl ())
           else if ok then Some (Inr (Some (takeWhile (\<lambda>b. b \<noteq> 0x22) rest))) else None
         else Some (Inr (if ok then Some s else None))
     | [] \<Rightarrow> Some (Inr (if ok then Some s else None)))"

text \<open>
  The fields one after the other. After the last one C also computes the start of another from an
  element of the array that was never set, and does not use it; that is left out.
\<close>

fun parse_fields :: "byte list \<Rightarrow> nat list \<Rightarrow> bool list \<Rightarrow> (byte list option list option) option" where
  "parse_fields buf [] oom = Some (Some [])"
| "parse_fields buf (s # ss) oom =
    (let (ok, oom) = alloc oom in do {
       f \<leftarrow> parse_field (c_str buf s) ok;
       (case f of
          Inl _ \<Rightarrow> Some None
        | Inr v \<Rightarrow> do { vs \<leftarrow> parse_fields buf ss oom; Some (map_option (Cons v) vs) }) })"

definition switch_parse_tuple :: "byte list \<Rightarrow> nat \<Rightarrow> byte \<Rightarrow> bool list \<Rightarrow> (byte list option list option) option" where
  "switch_parse_tuple tuple len sep oom =
    (let (ok, oom) = alloc oom in
     if \<not> ok then Some None
     else let (ok, oom) = alloc oom in
       if \<not> ok then Some None
       else do {
         seps \<leftarrow> parse_scan sep len False 0 [] tuple;
         let buf = foldl (\<lambda>t k. t[k := 0]) tuple seps;
         if length seps + 1 \<noteq> len then Some None
         else parse_fields buf (0 # map Suc seps) oom })"

text \<open>
  The target. A field is NULL only when there was no memory for it. The macro \<open>str\<close> does not expand its
  argument, so the default port is the text \<open>COREMODEL_DFLT_PORT\<close>.
\<close>

definition mktarget_localhost :: "byte list" where
  "mktarget_localhost = [0x6C, 0x6F, 0x63, 0x61, 0x6C, 0x68, 0x6F, 0x73, 0x74]"

definition mktarget_port :: "byte list" where
  "mktarget_port = [0x43, 0x4F, 0x52, 0x45, 0x4D, 0x4F, 0x44, 0x45, 0x4C, 0x5F, 0x44, 0x46, 0x4C, 0x54, 0x5F,
     0x50, 0x4F, 0x52, 0x54]"

definition coremodel_mktarget :: "byte list option list \<Rightarrow> byte list" where
  "coremodel_mktarget tuple =
    (let ip = (case tuple ! TUPLE_IP_IDX of Some s \<Rightarrow> s | None \<Rightarrow> mktarget_localhost);
         port = (case tuple ! TUPLE_PORT_IDX of Some s \<Rightarrow> s | None \<Rightarrow> mktarget_port) in
     take 255 (ip @ 0x3A # port))"

section \<open>Texts made of fields\<close>

fun join :: "byte \<Rightarrow> byte list list \<Rightarrow> byte list" where
  "join sep [] = []"
| "join sep [t] = t"
| "join sep (t # u # ts) = t @ sep # join sep (u # ts)"

text \<open>A field as it is written: in quotes when it has a separator.\<close>

definition field_text :: "byte \<Rightarrow> byte list \<Rightarrow> byte list" where
  "field_text sep f = (if sep \<in> set f then 0x22 # f @ [0x22] else f)"

definition plain_field :: "byte list \<Rightarrow> bool" where
  "plain_field f \<longleftrightarrow> 0 \<notin> set f \<and> 0x22 \<notin> set f"

text \<open>The places of the separators, from offset \<open>k\<close> on.\<close>

fun places :: "nat \<Rightarrow> byte list list \<Rightarrow> nat list" where
  "places k [] = []"
| "places k [t] = []"
| "places k (t # u # ts) = (k + length t) # places (Suc (k + length t)) (u # ts)"

lemma length_places: "length (places k ts) = length ts - 1"
  by (induction k ts rule: places.induct) auto

text \<open>A text in which the scan finds no separator and which closes its quotes.\<close>

fun closed_text :: "byte \<Rightarrow> bool \<Rightarrow> byte list \<Rightarrow> bool" where
  "closed_text sep q [] \<longleftrightarrow> \<not> q"
| "closed_text sep q (b # bs) \<longleftrightarrow> (let q = (q \<noteq> (b = 0x22)) in \<not> (\<not> q \<and> b = sep) \<and> closed_text sep q bs)"

lemma closed_unquoted: "0x22 \<notin> set f \<Longrightarrow> sep \<notin> set f \<Longrightarrow> closed_text sep False f"
  by (induction f) auto

lemma closed_quoted: "0x22 \<notin> set f \<Longrightarrow> sep \<noteq> 0x22 \<Longrightarrow> closed_text sep True (f @ [0x22])"
  by (induction f) auto

lemma closed_field: "plain_field f \<Longrightarrow> sep \<noteq> 0x22 \<Longrightarrow> closed_text sep False (field_text sep f)"
  using closed_quoted [of f sep] closed_unquoted [of f sep] by (auto simp: field_text_def plain_field_def)

lemma scan_closed:
  "closed_text sep q t \<Longrightarrow>
     parse_scan sep len q k seps (t @ rest) = parse_scan sep len False (k + length t) seps rest"
  by (induction t arbitrary: q k) (auto simp: Let_def split: if_split_asm)

lemma scan_join:
  "\<forall>t \<in> set ts. closed_text sep False t \<Longrightarrow> sep \<noteq> 0x22 \<Longrightarrow> length seps \<le> len \<Longrightarrow>
     parse_scan sep len False k seps (join sep ts) = (if length seps + (length ts - 1) \<le> len then Some (seps @ places k ts) else None)"
proof (induction sep ts arbitrary: k seps rule: join.induct)
  case (2 sep t)
  then show ?case using scan_closed [of sep False t len k seps "[]"] by simp
next
  case (3 sep t u ts)
  have s: "parse_scan sep len False k seps (join sep (t # u # ts)) =
      parse_scan sep len False (k + length t) seps (sep # join sep (u # ts))"
    using scan_closed [of sep False t len k seps "sep # join sep (u # ts)"] 3(2) by simp
  show ?case
  proof (cases "length seps < len")
    case True
    then show ?thesis using s 3(1) [of "seps @ [k + length t]" "Suc (k + length t)"] 3(2-4) by (simp add: Let_def)
  next
    case False
    then show ?thesis using s 3(3,4) by (simp add: Let_def)
  qed
qed simp

lemma zeros_join:
  "foldl (\<lambda>t k. t[k := 0]) (pre @ join sep ts) (places (length pre) ts) = pre @ join 0 ts"
proof (induction sep ts arbitrary: pre rule: join.induct)
  case (3 sep t u ts)
  have "(pre @ t @ sep # join sep (u # ts))[length pre + length t := 0] = (pre @ t @ [0]) @ join sep (u # ts)"
    by (simp add: list_update_append)
  then show ?case using 3 [of "pre @ t @ [0]"] by simp
qed simp_all

lemma c_str_at: "0 \<notin> set t \<Longrightarrow> rest = [] \<or> hd rest = 0 \<Longrightarrow> c_str (pre @ t @ rest) (length pre) = t"
  by (cases rest) (auto simp: c_str_def takeWhile_append takeWhile_eq_all_conv)

lemma fields_join:
  "ts \<noteq> [] \<Longrightarrow> \<forall>t \<in> set ts. 0 \<notin> set t \<Longrightarrow>
     map (c_str (pre @ join 0 ts)) (length pre # map Suc (places (length pre) ts)) = ts"
proof (induction "0 :: byte" ts arbitrary: pre rule: join.induct)
  case (2 t)
  then show ?case using c_str_at [of t "[]" pre] by simp
next
  case (3 t u ts)
  have "c_str (pre @ t @ 0 # join 0 (u # ts)) (length pre) = t" using c_str_at [of t "0 # join 0 (u # ts)" pre] 3(3) by simp
  moreover have "map (c_str (pre @ t @ 0 # join 0 (u # ts))) (Suc (length pre + length t) #
      map Suc (places (Suc (length pre + length t)) (u # ts))) = u # ts"
    using 3(1) [of "pre @ t @ [0]"] 3(3) by simp
  ultimately show ?case by simp
qed simp

lemma field_copied: "plain_field f \<Longrightarrow> parse_field (field_text sep f) True = Some (Inr (Some f))"
  by (cases f) (auto simp: parse_field_def field_text_def plain_field_def takeWhile_append)

lemma fields_copied:
  "map (c_str buf) ss = map (field_text sep) fs \<Longrightarrow> \<forall>f \<in> set fs. plain_field f \<Longrightarrow>
     parse_fields buf ss [] = Some (Some (map Some fs))"
proof (induction ss arbitrary: fs)
  case (Cons s ss)
  then obtain f fs' where f: "fs = f # fs'" by (cases fs) auto
  then show ?case using Cons.IH [of fs'] Cons.prems field_copied [of f sep] by (simp add: alloc_def)
qed simp

lemma zero_text: "plain_field f \<Longrightarrow> 0 \<notin> set (field_text sep f)"
  by (auto simp: field_text_def plain_field_def)

text \<open>
  The fields of a text with as many fields as asked for are found; one more or fewer is an error,
  and with more the array of places is overrun.
\<close>

lemma parse_tuple_text:
  assumes "fs \<noteq> []" "\<forall>f \<in> set fs. plain_field f" "sep \<noteq> 0x22" "sep \<noteq> 0"
  shows "switch_parse_tuple (join sep (map (field_text sep) fs)) len sep [] =
    (if length fs = len then Some (Some (map Some fs)) else if length fs \<le> len + 1 then Some None else None)"
proof -
  let ?ts = "map (field_text sep) fs"
  have c: "\<forall>t \<in> set ?ts. closed_text sep False t" using closed_field assms(2,3) by simp
  have s: "parse_scan sep len False 0 [] (join sep ?ts) = (if length fs \<le> len + 1 then Some (places 0 ?ts) else None)"
    using scan_join [OF c assms(3), of "[]" len 0] by auto
  have z: "foldl (\<lambda>t k. t[k := 0]) (join sep ?ts) (places 0 ?ts) = join 0 ?ts" using zeros_join [of "[]" sep ?ts] by simp
  have "map (c_str (join 0 ?ts)) (0 # map Suc (places 0 ?ts)) = ?ts"
    using fields_join [of ?ts "[]"] assms(1,2) zero_text by simp
  then have "parse_fields (join 0 ?ts) (0 # map Suc (places 0 ?ts)) [] = Some (Some (map Some fs))"
    using fields_copied assms(2) by blast
  moreover have "length (places 0 ?ts) + 1 = length fs" using assms(1) length_places [of 0 ?ts] by (cases fs) auto
  ultimately show ?thesis using s z by (simp add: switch_parse_tuple_def alloc_def Let_def)
qed

text \<open>A target with a decimal port is taken apart again when the connection is opened.\<close>

lemma mktarget_parts:
  assumes "0x3A \<notin> set host" "n < 65536" "length host < 250"
  shows "coremodel_mktarget [Some host, Some (decimal n), x] = host @ 0x3A # decimal n"
proof -
  have "length (decimal n) \<le> 5" using assms(2)
    by (simp add: decimal.simps [of n] decimal.simps [of "n div 10"] decimal.simps [of "n div 10 div 10"]
        decimal.simps [of "n div 10 div 10 div 10"] decimal.simps [of "n div 10 div 10 div 10 div 10"])
  then show ?thesis using assms(3) by (simp add: coremodel_mktarget_def)
qed

end
