(* ===== verification/EthSwitch.thy ===== *)
theory EthSwitch
  imports Eth
begin

text \<open>
  \<open>examples/eth-switch/eth-switch.c\<close>, the forwarding: clients and their tables of MAC addresses as
  linked lists, \<open>switch_cli_locate\<close>, \<open>switch_cli_add_mac\<close> and the callback \<open>switch_eth_tx\<close>. Clients
  and table entries live on two heaps; \<open>None\<close> there is memory that was freed or never allocated.
  The callback runs on the interface and the host of the client the frame comes from; those of the
  other clients, each with a connection of its own, are in the client objects. \<open>now\<close> is the time,
  which does not change while a frame is handled. The loops that follow pointers are partial
  functions: \<open>None\<close> also stands for a loop that does not end.
\<close>

section \<open>State\<close>

record mac_entry =
  me_next :: "nat option"
  me_mac :: u64
  me_ts :: int

record client =
  cl_conn :: "unit host option"
  cl_name :: "byte list option"
  cl_next :: "nat option"
  cl_tuple :: "byte list option list option"
  cl_handle :: "core option"
  cl_me :: "nat option"
  cl_nme :: int

record switch_state =
  sw_run :: u32
  sw_reload :: u32
  sw_head :: "nat option"
  sw_nclients :: u32
  sw_client :: "nat \<Rightarrow> client option"
  sw_mac :: "nat \<Rightarrow> mac_entry option"
  sw_next :: nat

abbreviation (input) SWITCH_MAC_PURGE_SECONDS :: int where "SWITCH_MAC_PURGE_SECONDS \<equiv> 60"
abbreviation (input) MAC_BROADCAST :: u64 where "MAC_BROADCAST \<equiv> 0xFFFFFFFFFFFF"

definition set_client :: "nat \<Rightarrow> client \<Rightarrow> switch_state \<Rightarrow> switch_state" where
  "set_client i c st = st\<lparr>sw_client := (sw_client st)(i \<mapsto> c)\<rparr>"

definition set_mac :: "nat \<Rightarrow> mac_entry \<Rightarrow> switch_state \<Rightarrow> switch_state" where
  "set_mac a e st = st\<lparr>sw_mac := (sw_mac st)(a \<mapsto> e)\<rparr>"

section \<open>The code\<close>

text \<open>Six bytes into the low end of a word whose other bytes are not initialised, but masked.\<close>

definition buf2mac :: "byte list \<Rightarrow> u64" where
  "buf2mac data = of_le (take 6 data) AND NOT 0xFFFF000000000000"

text \<open>
  Purging the entry \<open>a\<close> of client \<open>i\<close>: the entry before it is linked to the one after it, and the
  count goes down. The flag tells whether the table is now empty.
\<close>

definition purge_mac :: "nat \<Rightarrow> nat option \<Rightarrow> nat \<Rightarrow> mac_entry \<Rightarrow> switch_state \<Rightarrow> (bool \<times> switch_state) option" where
  "purge_mac i pme a e st = do {
     st \<leftarrow> (case pme of
              Some b \<Rightarrow> do { f \<leftarrow> sw_mac st b; Some (set_mac b (f\<lparr>me_next := me_next e\<rparr>) st) }
            | None \<Rightarrow> Some st);
     let st = st\<lparr>sw_mac := (sw_mac st)(a := None)\<rparr>;
     c \<leftarrow> sw_client st i;
     let c = c\<lparr>cl_nme := cl_nme c - 1\<rparr>;
     if cl_nme c = 0 then Some (True, set_client i (c\<lparr>cl_me := None\<rparr>) st)
     else Some (False, set_client i c st) }"

text \<open>
  One client's table from \<open>me\<close> on, with the entry \<open>pme\<close> before it, which is the last entry of the
  client before at the start. The results are the entry found and the last one passed.
\<close>

partial_function (option) cli_scan ::
  "u64 \<Rightarrow> int \<Rightarrow> nat \<Rightarrow> nat option \<Rightarrow> nat option \<Rightarrow> switch_state \<Rightarrow> (nat option \<times> nat option \<times> switch_state) option" where
  "cli_scan mac now i pme me st =
    (case me of
       None \<Rightarrow> Some (None, pme, st)
     | Some a \<Rightarrow> do {
         e \<leftarrow> sw_mac st a;
         if me_mac e = mac then Some (Some a, pme, set_mac a (e\<lparr>me_ts := now\<rparr>) st)
         else if now - me_ts e > SWITCH_MAC_PURGE_SECONDS then do {
           (empty, st) \<leftarrow> purge_mac i pme a e st;
           if empty then Some (None, None, st)
           else do {
             b \<leftarrow> pme;
             f \<leftarrow> sw_mac st b;
             cli_scan mac now i (Some b) (me_next f) st } }
         else cli_scan mac now i (Some a) (me_next e) st })"

partial_function (option) cli_locate ::
  "u64 \<Rightarrow> int \<Rightarrow> nat option \<Rightarrow> nat option \<Rightarrow> switch_state \<Rightarrow> (nat option \<times> switch_state) option" where
  "cli_locate mac now pme cli st =
    (case cli of
       None \<Rightarrow> Some (None, st)
     | Some i \<Rightarrow> do {
         c \<leftarrow> sw_client st i;
         (me, pme, st) \<leftarrow> cli_scan mac now i pme (cl_me c) st;
         if me \<noteq> None then Some (Some i, st)
         else do { c \<leftarrow> sw_client st i; cli_locate mac now pme (cl_next c) st } })"

definition switch_cli_locate :: "u64 \<Rightarrow> int \<Rightarrow> switch_state \<Rightarrow> (nat option \<times> switch_state) option" where
  "switch_cli_locate mac now st = cli_locate mac now None (sw_head st) st"

definition switch_cli_add_mac :: "nat \<Rightarrow> u64 \<Rightarrow> int \<Rightarrow> switch_state host \<Rightarrow> switch_state host option" where
  "switch_cli_add_mac i mac now h =
    (let (ok, h) = calloc h; st = h_usr h; a = sw_next st in
     if \<not> ok then Some h
     else do {
       c \<leftarrow> sw_client st i;
       let st = set_mac a \<lparr>me_next = cl_me c, me_mac = mac, me_ts = now\<rparr> st;
       let st = set_client i (c\<lparr>cl_me := Some a, cl_nme := cl_nme c + 1\<rparr>) st;
       Some (h\<lparr>h_usr := st\<lparr>sw_next := Suc a\<rparr>\<rparr>) })"

text \<open>Sending to client \<open>j\<close>, from the callback of client \<open>i\<close>.\<close>

definition switch_send :: "nat \<Rightarrow> byte list \<Rightarrow> nat \<Rightarrow> (unit, switch_state) step" where
  "switch_send i data j c h =
    (if j = i then do {
       (_, c', h) \<leftarrow> coremodel_eth_rx (Some c) (of_nat (length data)) data h;
       c \<leftarrow> c';
       Some ((), c, h) }
     else do {
       cl \<leftarrow> sw_client (h_usr h) j;
       hj \<leftarrow> cl_conn cl;
       (_, handle, hj) \<leftarrow> coremodel_eth_rx (cl_handle cl) (of_nat (length data)) data hj;
       Some ((), c, h\<lparr>h_usr := set_client j (cl\<lparr>cl_handle := handle, cl_conn := Some hj\<rparr>) (h_usr h)\<rparr>) })"

partial_function (option) switch_flood :: "nat \<Rightarrow> byte list \<Rightarrow> nat option \<Rightarrow> (unit, switch_state) step" where
  "switch_flood i data cli c h =
    (case cli of
       None \<Rightarrow> Some ((), c, h)
     | Some j \<Rightarrow> do {
         (_, c, h) \<leftarrow> (if j \<noteq> i then switch_send i data j c h else Some ((), c, h));
         cl \<leftarrow> sw_client (h_usr h) j;
         switch_flood i data (cl_next cl) c h })"

definition switch_eth_tx :: "int \<Rightarrow> nat \<Rightarrow> byte list \<Rightarrow> (int, switch_state) step" where
  "switch_eth_tx now i data c h =
    (let len = int (length data) in
     if length data < 12 then Some (len, c, h)
     else do {
       let smac = buf2mac (drop 6 data);
       let dmac = buf2mac data;
       (found, st) \<leftarrow> switch_cli_locate smac now (h_usr h);
       let h = h\<lparr>h_usr := st\<rparr>;
       h \<leftarrow> (if found \<noteq> Some i then switch_cli_add_mac i smac now h else Some h);
       (dcli, st) \<leftarrow> (if dmac = MAC_BROADCAST then Some (None, h_usr h) else switch_cli_locate dmac now (h_usr h));
       let h = h\<lparr>h_usr := st\<rparr>;
       (_, c, h) \<leftarrow> (case dcli of
            None \<Rightarrow> switch_flood i data (sw_head (h_usr h)) c h
          | Some j \<Rightarrow> switch_send i data j c h);
       Some (len, c, h) })"

definition switch_eth_func :: "int \<Rightarrow> switch_state eth_func" where
  "switch_eth_func now = \<lparr>ef_tx = Some (switch_eth_tx now), ef_rxrdy = None\<rparr>"

section \<open>Linked lists\<close>

fun chain :: "('a \<Rightarrow> 'e option) \<Rightarrow> ('e \<Rightarrow> 'a option) \<Rightarrow> 'a option \<Rightarrow> 'a list \<Rightarrow> bool" where
  "chain H next p [] \<longleftrightarrow> p = None"
| "chain H next p (a # as) \<longleftrightarrow> p = Some a \<and> (\<exists>e. H a = Some e \<and> chain H next (next e) as)"

lemma chain_cong:
  "chain H next p as \<Longrightarrow> \<forall>a \<in> set as. map_option next (H' a) = map_option next (H a) \<Longrightarrow> chain H' next p as"
proof (induction as arbitrary: p)
  case (Cons a as)
  then obtain e where e: "p = Some a" "H a = Some e" "chain H next (next e) as" by auto
  moreover from this Cons.prems(2) obtain e' where "H' a = Some e'" "next e' = next e" by auto
  ultimately show ?case using Cons.IH [OF e(3)] Cons.prems(2) by simp
qed simp

lemma chain_live: "chain H next p as \<Longrightarrow> a \<in> set as \<Longrightarrow> H a \<noteq> None"
  by (induction as arbitrary: p) auto

text \<open>
  The switch with the clients \<open>is\<close>, in the order of the list, and the table \<open>tab i\<close> of client \<open>i\<close>;
  no entry is old enough to be purged.
\<close>

definition switch_ok :: "nat list \<Rightarrow> (nat \<Rightarrow> nat list) \<Rightarrow> switch_state \<Rightarrow> bool" where
  "switch_ok is tab st \<longleftrightarrow> distinct is \<and> chain (sw_client st) cl_next (sw_head st) is \<and>
     (\<forall>i \<in> set is. \<forall>c. sw_client st i = Some c \<longrightarrow> chain (sw_mac st) me_next (cl_me c) (tab i) \<and> cl_nme c = int (length (tab i))) \<and>
     (\<forall>a \<ge> sw_next st. sw_mac st a = None)"

definition all_fresh :: "int \<Rightarrow> switch_state \<Rightarrow> bool" where
  "all_fresh now st \<longleftrightarrow> (\<forall>a e. sw_mac st a = Some e \<longrightarrow> now - me_ts e \<le> SWITCH_MAC_PURGE_SECONDS)"

definition mac_at :: "switch_state \<Rightarrow> nat \<Rightarrow> u64" where
  "mac_at st a = (case sw_mac st a of Some e \<Rightarrow> me_mac e | None \<Rightarrow> 0)"

definition knows :: "(nat \<Rightarrow> nat list) \<Rightarrow> switch_state \<Rightarrow> u64 \<Rightarrow> nat \<Rightarrow> bool" where
  "knows tab st mac i \<longleftrightarrow> (\<exists>a \<in> set (tab i). mac_at st a = mac)"

text \<open>States that differ in the times of entries only.\<close>

definition mac_shape :: "switch_state \<Rightarrow> nat \<Rightarrow> (nat option \<times> u64) option" where
  "mac_shape st a = map_option (\<lambda>e. (me_next e, me_mac e)) (sw_mac st a)"

definition same_but_times :: "switch_state \<Rightarrow> switch_state \<Rightarrow> bool" where
  "same_but_times st st' \<longleftrightarrow> st' = st\<lparr>sw_mac := sw_mac st'\<rparr> \<and> mac_shape st' = mac_shape st"

lemma same_but_times_refl: "same_but_times st st"
  by (simp add: same_but_times_def)

lemma same_but_times_trans: "same_but_times st st1 \<Longrightarrow> same_but_times st1 st2 \<Longrightarrow> same_but_times st st2"
  by (cases st; cases st1; cases st2) (simp add: same_but_times_def)

lemma same_but_times_frame:
  assumes "same_but_times st st'"
  shows "sw_client st' = sw_client st" "sw_head st' = sw_head st" "sw_next st' = sw_next st"
    "sw_nclients st' = sw_nclients st" "mac_shape st' = mac_shape st"
  using assms by (cases st; cases st'; simp add: same_but_times_def)+

lemma mac_at_shape: "mac_shape st' = mac_shape st \<Longrightarrow> mac_at st' a = mac_at st a"
  by (drule fun_cong [of _ _ a]) (auto simp: mac_shape_def mac_at_def split: option.split)

lemma mac_none_shape: "mac_shape st' = mac_shape st \<Longrightarrow> sw_mac st' a = None \<longleftrightarrow> sw_mac st a = None"
  by (drule fun_cong [of _ _ a]) (auto simp: mac_shape_def)

lemma chain_shape:
  assumes "mac_shape st' = mac_shape st" "chain (sw_mac st) me_next p as"
  shows "chain (sw_mac st') me_next p as"
proof (rule chain_cong [OF assms(2)], rule ballI)
  fix a
  have "map_option fst (mac_shape st' a) = map_option fst (mac_shape st a)" using assms(1) by simp
  then show "map_option me_next (sw_mac st' a) = map_option me_next (sw_mac st a)"
    by (simp add: mac_shape_def option.map_comp comp_def)
qed

lemma scan_fresh:
  assumes "chain (sw_mac st) me_next me as" "all_fresh now st"
  shows "\<exists>pme' st'. cli_scan mac now i pme me st =
      Some (find (\<lambda>a. mac_at st a = mac) as, pme', st') \<and> same_but_times st st' \<and> all_fresh now st'"
  using assms(1)
proof (induction as arbitrary: pme me)
  case Nil
  with assms(2) same_but_times_refl [of st] show ?case by (simp add: cli_scan.simps [of mac now i pme None st])
next
  case (Cons a as)
  then obtain e where e: "me = Some a" "sw_mac st a = Some e" "chain (sw_mac st) me_next (me_next e) as" by auto
  have f: "\<not> now - me_ts e > SWITCH_MAC_PURGE_SECONDS" using assms(2) e(2) by (simp add: all_fresh_def not_less)
  have m: "mac_at st a = me_mac e" using e(2) by (simp add: mac_at_def)
  show ?case
  proof (cases "me_mac e = mac")
    case True
    let ?st = "set_mac a (e\<lparr>me_ts := now\<rparr>) st"
    have "mac_shape ?st = mac_shape st" using e(2) by (simp add: mac_shape_def set_mac_def fun_eq_iff)
    then have "same_but_times st ?st" by (simp add: same_but_times_def set_mac_def)
    moreover have "all_fresh now ?st" using assms(2) by (simp add: all_fresh_def set_mac_def)
    ultimately show ?thesis using e True m by (simp add: cli_scan.simps [of mac now i pme "Some a" st])
  next
    case False
    then show ?thesis using Cons.IH [OF e(3), of "Some a"] e(1,2) f m
      by (simp add: cli_scan.simps [of mac now i pme "Some a" st])
  qed
qed

lemma switch_ok_times:
  assumes "switch_ok is tab st" "same_but_times st st'"
  shows "switch_ok is tab st'"
  using assms(1) same_but_times_frame [OF assms(2)] chain_shape [of st' st] mac_none_shape [of st' st]
  by (simp add: switch_ok_def)

lemma switch_ok_client:
  assumes "switch_ok is tab st" "i \<in> set is"
  shows "\<exists>c. sw_client st i = Some c \<and> chain (sw_mac st) me_next (cl_me c) (tab i)"
proof -
  have "sw_client st i \<noteq> None"
    using assms chain_live [of "sw_client st" cl_next "sw_head st" "is" i] by (simp add: switch_ok_def)
  then show ?thesis using assms by (simp add: switch_ok_def) blast
qed

lemma tab_live: "switch_ok is tab st \<Longrightarrow> i \<in> set is \<Longrightarrow> a \<in> set (tab i) \<Longrightarrow> sw_mac st a \<noteq> None"
  using switch_ok_client [of "is" tab st i] chain_live [of "sw_mac st" me_next _ "tab i" a] by blast

lemma knows_times:
  assumes "same_but_times st st'"
  shows "knows tab st' mac i = knows tab st mac i"
  using mac_at_shape [OF same_but_times_frame(5) [OF assms]] by (simp add: knows_def)

lemma knows_image: "knows tab st mac i \<longleftrightarrow> mac \<in> mac_at st ` set (tab i)"
  by (auto simp: knows_def)

lemma find_None_knows: "find (\<lambda>a. mac_at st a = mac) (tab i) \<noteq> None \<longleftrightarrow> knows tab st mac i"
  unfolding knows_def find_None_iff by blast

lemma locate_from:
  assumes "switch_ok is tab st0"
  shows "chain (sw_client st0) cl_next cli js \<Longrightarrow> set js \<subseteq> set is \<Longrightarrow> same_but_times st0 st \<Longrightarrow> all_fresh now st \<Longrightarrow>
     \<exists>st'. cli_locate mac now pme cli st = Some (find (knows tab st0 mac) js, st') \<and> same_but_times st0 st' \<and> all_fresh now st'"
proof (induction js arbitrary: pme cli st)
  case Nil
  then show ?case by (simp add: cli_locate.simps [of mac now pme None st])
next
  case (Cons j js)
  have ok: "switch_ok is tab st" using switch_ok_times [OF assms Cons.prems(3)] .
  obtain c where c: "cli = Some j" "sw_client st0 j = Some c" "chain (sw_client st0) cl_next (cl_next c) js"
    using Cons.prems(1) by auto
  then have cs: "sw_client st j = Some c" using same_but_times_frame(1) [OF Cons.prems(3)] by simp
  have j: "j \<in> set is" using Cons.prems(2) by simp
  have ch: "chain (sw_mac st) me_next (cl_me c) (tab j)" using switch_ok_client [OF ok j] cs by simp
  obtain pme' st1 where s: "cli_scan mac now j pme (cl_me c) st = Some (find (\<lambda>a. mac_at st a = mac) (tab j), pme', st1)"
    "same_but_times st st1" "all_fresh now st1"
    using scan_fresh [OF ch Cons.prems(4)] by blast
  have t: "same_but_times st0 st1" by (rule same_but_times_trans [OF Cons.prems(3) s(2)])
  have k: "find (\<lambda>a. mac_at st a = mac) (tab j) \<noteq> None \<longleftrightarrow> knows tab st0 mac j"
    using find_None_knows [of st mac tab j] knows_times [OF Cons.prems(3)] by simp
  show ?case
  proof (cases "knows tab st0 mac j")
    case True
    then show ?thesis using s t k c(1) cs by (simp add: cli_locate.simps [of mac now pme "Some j" st])
  next
    case False
    have "sw_client st1 j = Some c" using same_but_times_frame(1) [OF s(2)] cs by simp
    then show ?thesis
      using Cons.IH [OF c(3) _ t s(3), of pme'] Cons.prems(2) s(1) k c(1) cs False
      by (simp add: cli_locate.simps [of mac now pme "Some j" st])
  qed
qed

text \<open>The first client of the list that knows the address; nothing but times changes.\<close>

lemma locate_fresh:
  assumes "switch_ok is tab st" "all_fresh now st"
  shows "\<exists>st'. switch_cli_locate mac now st = Some (find (knows tab st mac) is, st') \<and> same_but_times st st' \<and> all_fresh now st'"
  using locate_from [OF assms(1) _ _ same_but_times_refl assms(2), of "sw_head st" "is"] assms(1)
  by (simp add: switch_cli_locate_def switch_ok_def)

section \<open>Learning\<close>

lemma add_mac_learns:
  assumes "switch_ok is tab (h_usr h)" "all_fresh now (h_usr h)" "i \<in> set is" "h_oom h = []"
  shows "\<exists>st'. switch_cli_add_mac i mac now h = Some (h\<lparr>h_usr := st'\<rparr>) \<and> all_fresh now st' \<and>
    switch_ok is (tab(i := sw_next (h_usr h) # tab i)) st' \<and>
    (\<forall>m. \<forall>j \<in> set is. knows (tab(i := sw_next (h_usr h) # tab i)) st' m j \<longleftrightarrow> knows tab (h_usr h) m j \<or> (j = i \<and> m = mac)) \<and>
    (\<forall>j. map_option (\<lambda>c. (cl_name c, cl_next c, cl_conn c, cl_handle c)) (sw_client st' j) =
         map_option (\<lambda>c. (cl_name c, cl_next c, cl_conn c, cl_handle c)) (sw_client (h_usr h) j)) \<and>
    sw_head st' = sw_head (h_usr h)"
proof -
  let ?st = "h_usr h"
  let ?a = "sw_next ?st"
  obtain c where c: "sw_client ?st i = Some c" "chain (sw_mac ?st) me_next (cl_me c) (tab i)"
    using switch_ok_client [OF assms(1,3)] by blast
  let ?c = "c\<lparr>cl_me := Some ?a, cl_nme := cl_nme c + 1\<rparr>"
  let ?m = "(sw_mac ?st)(?a \<mapsto> \<lparr>me_next = cl_me c, me_mac = mac, me_ts = now\<rparr>)"
  let ?st' = "(set_client i ?c (set_mac ?a \<lparr>me_next = cl_me c, me_mac = mac, me_ts = now\<rparr> ?st))\<lparr>sw_next := Suc ?a\<rparr>"
  let ?tab = "tab(i := ?a # tab i)"
  have f: "sw_mac ?st ?a = None" using assms(1) by (simp add: switch_ok_def)
  have st': "sw_mac ?st' = ?m" "sw_client ?st' = (sw_client ?st)(i \<mapsto> ?c)" "sw_head ?st' = sw_head ?st" "sw_next ?st' = Suc ?a"
    by (simp_all add: set_client_def set_mac_def)
  have ch: "chain ?m me_next p as" if "chain (sw_mac ?st) me_next p as" for p as
  proof (rule chain_cong [OF that], rule ballI)
    fix a assume "a \<in> set as"
    with chain_live [OF that] f have "a \<noteq> ?a" by metis
    then show "map_option me_next (?m a) = map_option me_next (sw_mac ?st a)" by simp
  qed
  have na: "?a \<notin> set (tab j)" if "j \<in> set is" for j using tab_live [OF assms(1) that] f by blast
  have "switch_cli_add_mac i mac now h = Some (h\<lparr>h_usr := ?st'\<rparr>)"
    using c(1) assms(4) by (simp add: switch_cli_add_mac_def calloc_def set_mac_def Let_def)
  moreover have "all_fresh now ?st'" using assms(2) by (simp add: all_fresh_def st')
  moreover have "switch_ok is ?tab ?st'"
    unfolding switch_ok_def st'
  proof (intro conjI ballI allI impI)
    show "distinct is" "chain ((sw_client ?st)(i \<mapsto> ?c)) cl_next (sw_head ?st) is"
      using assms(1) c(1) chain_cong [of "sw_client ?st" cl_next "sw_head ?st" "is" "(sw_client ?st)(i \<mapsto> ?c)"]
      by (auto simp: switch_ok_def)
    show "chain ?m me_next (cl_me d) (?tab j)" if "j \<in> set is" "((sw_client ?st)(i \<mapsto> ?c)) j = Some d" for j d
      using that ch [OF c(2)] ch assms(1) by (cases "j = i") (auto simp: switch_ok_def)
    show "cl_nme d = int (length (?tab j))" if "j \<in> set is" "((sw_client ?st)(i \<mapsto> ?c)) j = Some d" for j d
      using that assms(1) c(1) by (cases "j = i") (auto simp: switch_ok_def)
    show "?m a = None" if "Suc ?a \<le> a" for a using that assms(1) by (simp add: switch_ok_def)
  qed
  moreover have "knows ?tab ?st' m j \<longleftrightarrow> knows tab ?st m j \<or> (j = i \<and> m = mac)" if "j \<in> set is" for m j
  proof -
    have m: "mac_at ?st' a = (if a = ?a then mac else mac_at ?st a)" for a by (simp add: mac_at_def st')
    have "mac_at ?st' ` set (tab j) = mac_at ?st ` set (tab j)"
      using na [OF that] m by (intro image_cong) auto
    then show ?thesis using m [of ?a] by (auto simp: knows_image)
  qed
  moreover have "map_option (\<lambda>c. (cl_name c, cl_next c, cl_conn c, cl_handle c)) (sw_client ?st' j) =
      map_option (\<lambda>c. (cl_name c, cl_next c, cl_conn c, cl_handle c)) (sw_client ?st j)" for j
    using c(1) by (simp add: st')
  ultimately show ?thesis using st'(3) by blast
qed

section \<open>Sending to the other clients\<close>

text \<open>What becomes of a client's interface and its connection when a frame is sent to it.\<close>

type_synonym port = "core option \<times> unit host option"

definition port_send :: "byte list \<Rightarrow> port \<Rightarrow> port" where
  "port_send d p = (case p of
     (Some c, Some h) \<Rightarrow>
       if c_cred c = 0 then p
       else (Some (c\<lparr>c_cred := c_cred c - 1\<rparr>), Some (host_push (eth_rx_packet c d) h))
   | _ \<Rightarrow> p)"

definition port_of :: "client \<Rightarrow> port" where
  "port_of cl = (cl_handle cl, cl_conn cl)"

definition port_up :: "port \<Rightarrow> bool" where
  "port_up p \<longleftrightarrow> (\<exists>c h. p = (Some c, Some h) \<and> h_oom h = [])"

definition client_send :: "byte list \<Rightarrow> client \<Rightarrow> client" where
  "client_send d cl = cl\<lparr>cl_handle := fst (port_send d (port_of cl)), cl_conn := snd (port_send d (port_of cl))\<rparr>"

definition sw_port :: "switch_state \<Rightarrow> nat \<Rightarrow> port option" where
  "sw_port st j = map_option port_of (sw_client st j)"

lemma client_send_simps [simp]:
  "cl_next (client_send d cl) = cl_next cl" "cl_me (client_send d cl) = cl_me cl" "cl_nme (client_send d cl) = cl_nme cl"
  "port_of (client_send d cl) = port_send d (port_of cl)"
  by (simp_all add: client_send_def port_of_def)

lemma send_other:
  assumes "j \<noteq> i" "sw_client (h_usr h) j = Some cl" "port_up (port_of cl)" "length d \<le> 65527"
  shows "switch_send i d j c h = Some ((), c, h\<lparr>h_usr := set_client j (client_send d cl) (h_usr h)\<rparr>)"
proof -
  obtain cj hj where p: "cl_handle cl = Some cj" "cl_conn cl = Some hj" "h_oom hj = []"
    using assms(3) by (auto simp: port_up_def port_of_def)
  have u: "unat (of_nat (length d) :: u32) = length d" using assms(4) by (simp add: unat_of_nat)
  have a: "calloc hj = (True, hj)" using p(3) by (simp add: calloc_def)
  show ?thesis
  proof (cases "c_cred cj = 0")
    case True
    then show ?thesis using assms(1,2) p
      by (simp add: switch_send_def eth_rx_no_credit client_send_def port_send_def port_of_def)
  next
    case False
    then have "coremodel_eth_rx (Some cj) (of_nat (length d)) d hj =
        Some (0, Some (cj\<lparr>c_cred := c_cred cj - 1\<rparr>), host_push (eth_rx_packet cj d) hj)"
      using eth_rx_sends [OF False, of "of_nat (length d)" d hj hj] u a assms(4) by simp
    then show ?thesis using assms(1,2) p False
      by (simp add: switch_send_def client_send_def port_send_def port_of_def)
  qed
qed

lemma flood_sends:
  "chain (sw_client (h_usr h)) cl_next cli js \<Longrightarrow> distinct js \<Longrightarrow>
     \<forall>j \<in> set js. j \<noteq> i \<longrightarrow> (\<forall>cl. sw_client (h_usr h) j = Some cl \<longrightarrow> port_up (port_of cl)) \<Longrightarrow> length d \<le> 65527 \<Longrightarrow>
     switch_flood i d cli c h = Some ((), c, h\<lparr>h_usr := (h_usr h)\<lparr>sw_client :=
       (\<lambda>j. if j \<in> set js \<and> j \<noteq> i then map_option (client_send d) (sw_client (h_usr h) j) else sw_client (h_usr h) j)\<rparr>\<rparr>)"
proof (induction js arbitrary: cli h)
  case Nil
  then show ?case by (simp add: switch_flood.simps [of i d None c h])
next
  case (Cons j js)
  obtain cl where cl: "cli = Some j" "sw_client (h_usr h) j = Some cl" "chain (sw_client (h_usr h)) cl_next (cl_next cl) js"
    using Cons.prems(1) by auto
  show ?case
  proof (cases "j = i")
    case True
    have "switch_flood i d (cl_next cl) c h = Some ((), c, h\<lparr>h_usr := (h_usr h)\<lparr>sw_client :=
       (\<lambda>j. if j \<in> set js \<and> j \<noteq> i then map_option (client_send d) (sw_client (h_usr h) j) else sw_client (h_usr h) j)\<rparr>\<rparr>)"
      using Cons.IH [OF cl(3)] Cons.prems by simp
    moreover have "x \<in> set js \<and> x \<noteq> i \<longleftrightarrow> x \<in> set (j # js) \<and> x \<noteq> i" for x using True by auto
    ultimately show ?thesis using cl True by (simp add: switch_flood.simps [of i d "Some i" c h])
  next
    case False
    let ?h = "h\<lparr>h_usr := set_client j (client_send d cl) (h_usr h)\<rparr>"
    have s: "switch_send i d j c h = Some ((), c, ?h)"
      using send_other [OF False cl(2)] Cons.prems(3,4) False cl(2) by simp
    have "chain (sw_client (h_usr ?h)) cl_next (cl_next cl) js"
      by (rule chain_cong [OF cl(3)]) (use cl(2) in \<open>auto simp: set_client_def\<close>)
    then have "switch_flood i d (cl_next cl) c ?h = Some ((), c, ?h\<lparr>h_usr := (h_usr ?h)\<lparr>sw_client :=
       (\<lambda>x. if x \<in> set js \<and> x \<noteq> i then map_option (client_send d) (sw_client (h_usr ?h) x) else sw_client (h_usr ?h) x)\<rparr>\<rparr>)"
    proof (rule Cons.IH)
      show "distinct js" "length d \<le> 65527" using Cons.prems(2,4) by simp_all
      show "\<forall>x \<in> set js. x \<noteq> i \<longrightarrow> (\<forall>cl. sw_client (h_usr ?h) x = Some cl \<longrightarrow> port_up (port_of cl))"
        using Cons.prems(2,3) by (auto simp: set_client_def)
    qed
    moreover have "(\<lambda>x. if x \<in> set js \<and> x \<noteq> i then map_option (client_send d) (sw_client (h_usr ?h) x) else sw_client (h_usr ?h) x) =
       (\<lambda>x. if x \<in> set (j # js) \<and> x \<noteq> i then map_option (client_send d) (sw_client (h_usr h) x) else sw_client (h_usr h) x)"
      using Cons.prems(2) cl(2) False by (auto simp: set_client_def fun_eq_iff)
    ultimately show ?thesis
      using cl(1) False s by (simp add: switch_flood.simps [of i d "Some j" c h] set_client_def)
  qed
qed

section \<open>A frame\<close>

lemma switch_ok_ports:
  assumes "switch_ok is tab st"
    and c: "\<And>j. map_option (\<lambda>c. (cl_next c, cl_me c, cl_nme c)) (f j) =
      map_option (\<lambda>c. (cl_next c, cl_me c, cl_nme c)) (sw_client st j)"
  shows "switch_ok is tab (st\<lparr>sw_client := f\<rparr>)"
proof -
  have n: "map_option cl_next (f j) = map_option cl_next (sw_client st j)" for j
    using arg_cong [OF c [of j], of "map_option fst"] by (simp add: option.map_comp comp_def)
  have "chain f cl_next (sw_head st) is"
    using chain_cong [of "sw_client st" cl_next "sw_head st" "is" f] assms(1) n by (simp add: switch_ok_def)
  moreover have "\<exists>c'. sw_client st j = Some c' \<and> cl_me c' = cl_me d \<and> cl_nme c' = cl_nme d" if "f j = Some d" for j d
    using c [of j] that by (cases "sw_client st j") auto
  ultimately show ?thesis using assms(1) by (fastforce simp: switch_ok_def)
qed

text \<open>The tables after a frame from client \<open>i\<close>, and where the frame goes.\<close>

definition learned :: "nat list \<Rightarrow> (nat \<Rightarrow> nat list) \<Rightarrow> switch_state \<Rightarrow> nat \<Rightarrow> u64 \<Rightarrow> u64 \<Rightarrow> nat \<Rightarrow> bool" where
  "learned is tab st i smac m j \<longleftrightarrow>
     knows tab st m j \<or> (j = i \<and> m = smac \<and> find (knows tab st smac) is \<noteq> Some i)"

definition destination :: "nat list \<Rightarrow> (nat \<Rightarrow> nat list) \<Rightarrow> switch_state \<Rightarrow> nat \<Rightarrow> byte list \<Rightarrow> nat option" where
  "destination is tab st i d =
    (if buf2mac d = MAC_BROADCAST then None else find (learned is tab st i (buf2mac (drop 6 d)) (buf2mac d)) is)"

lemma find_cong_set: "(\<And>x. x \<in> set xs \<Longrightarrow> P x = Q x) \<Longrightarrow> find P xs = find Q xs"
  by (induction xs) auto

lemma find_in: "find P xs = Some x \<Longrightarrow> x \<in> set xs \<and> P x"
  by (auto simp: find_Some_iff)

text \<open>The first half of the callback: the source is looked up and learned.\<close>

lemma source_learned:
  assumes "switch_ok is tab (h_usr h)" "all_fresh now (h_usr h)" "i \<in> set is" "h_oom h = []"
  shows "\<exists>found st1 tab' st2. switch_cli_locate smac now (h_usr h) = Some (found, st1) \<and>
    (if found \<noteq> Some i then switch_cli_add_mac i smac now (h\<lparr>h_usr := st1\<rparr>) else Some (h\<lparr>h_usr := st1\<rparr>)) =
      Some (h\<lparr>h_usr := st2\<rparr>) \<and>
    switch_ok is tab' st2 \<and> all_fresh now st2 \<and> sw_head st2 = sw_head (h_usr h) \<and> (\<forall>j. sw_port st2 j = sw_port (h_usr h) j) \<and>
    (\<forall>m. \<forall>j \<in> set is. knows tab' st2 m j = learned is tab (h_usr h) i smac m j)"
proof -
  let ?st = "h_usr h"
  obtain st1 where l: "switch_cli_locate smac now ?st = Some (find (knows tab ?st smac) is, st1)"
    "same_but_times ?st st1" "all_fresh now st1"
    using locate_fresh [OF assms(1,2)] by blast
  note fr = same_but_times_frame [OF l(2)]
  have ok1: "switch_ok is tab st1" by (rule switch_ok_times [OF assms(1) l(2)])
  have k1: "knows tab st1 m j = knows tab ?st m j" for m j by (rule knows_times [OF l(2)])
  have p1: "sw_port st1 j = sw_port ?st j" for j by (simp add: sw_port_def fr(1))
  show ?thesis
  proof (cases "find (knows tab ?st smac) is = Some i")
    case True
    then show ?thesis using l ok1 k1 p1 fr(2)
      by (intro exI [of _ "Some i"] exI [of _ st1] exI [of _ tab]) (auto simp: learned_def)
  next
    case False
    obtain st2 where st2: "switch_cli_add_mac i smac now (h\<lparr>h_usr := st1\<rparr>) = Some (h\<lparr>h_usr := st2\<rparr>)" "all_fresh now st2"
      "switch_ok is (tab(i := sw_next st1 # tab i)) st2"
      "\<forall>m. \<forall>j \<in> set is. knows (tab(i := sw_next st1 # tab i)) st2 m j \<longleftrightarrow> knows tab st1 m j \<or> (j = i \<and> m = smac)"
      "\<forall>j. map_option (\<lambda>c. (cl_name c, cl_next c, cl_conn c, cl_handle c)) (sw_client st2 j) =
         map_option (\<lambda>c. (cl_name c, cl_next c, cl_conn c, cl_handle c)) (sw_client st1 j)" "sw_head st2 = sw_head st1"
      using add_mac_learns [of "is" tab "h\<lparr>h_usr := st1\<rparr>" now i smac] ok1 l(3) assms(3,4) by auto
    have "sw_port st2 j = sw_port st1 j" for j
      using arg_cong [OF st2(5) [rule_format, of j], of "map_option (\<lambda>(n, x, c, hd). (hd, c))"]
      by (simp add: sw_port_def port_of_def [abs_def] option.map_comp comp_def)
    moreover have "knows (tab(i := sw_next st1 # tab i)) st2 m j = learned is tab ?st i smac m j" if "j \<in> set is" for m j
      using st2(4) k1 False that by (auto simp: learned_def)
    ultimately show ?thesis using l(1) st2(1-3,6) p1 fr(2) False
      by (intro exI [of _ "find (knows tab ?st smac) is"] exI [of _ st1] exI [of _ "tab(i := sw_next st1 # tab i)"] exI [of _ st2]) simp
  qed
qed

text \<open>
  The callback on a frame that is not for its own client: the switch learns the source, and the
  frame goes to the one client that knows the destination, or to all others when none does.
\<close>

lemma frame_switched:
  assumes ok: "switch_ok is tab (h_usr h)" "all_fresh now (h_usr h)" "i \<in> set is" "h_oom h = []"
    and d: "12 \<le> length d" "length d \<le> 65527" "destination is tab (h_usr h) i d \<noteq> Some i"
    and up: "\<forall>j \<in> set is. j \<noteq> i \<longrightarrow> (\<exists>p. sw_port (h_usr h) j = Some p \<and> port_up p)"
  shows "\<exists>st' tab'. switch_eth_tx now i d c h = Some (int (length d), c, h\<lparr>h_usr := st'\<rparr>) \<and>
    switch_ok is tab' st' \<and> all_fresh now st' \<and>
    (\<forall>m. \<forall>j \<in> set is. knows tab' st' m j = learned is tab (h_usr h) i (buf2mac (drop 6 d)) m j) \<and>
    (\<forall>j \<in> set is. sw_port st' j =
      (if (case destination is tab (h_usr h) i d of None \<Rightarrow> j \<noteq> i | Some k \<Rightarrow> j = k)
       then map_option (port_send d) (sw_port (h_usr h) j) else sw_port (h_usr h) j))"
proof -
  let ?st = "h_usr h" and ?smac = "buf2mac (drop 6 d)" and ?dmac = "buf2mac d"
  let ?dst = "destination is tab ?st i d"
  obtain found st1 tab' st2 where s: "switch_cli_locate ?smac now ?st = Some (found, st1)"
    "(if found \<noteq> Some i then switch_cli_add_mac i ?smac now (h\<lparr>h_usr := st1\<rparr>) else Some (h\<lparr>h_usr := st1\<rparr>)) =
      Some (h\<lparr>h_usr := st2\<rparr>)"
    "switch_ok is tab' st2" "all_fresh now st2" "sw_head st2 = sw_head ?st" "\<forall>j. sw_port st2 j = sw_port ?st j"
    "\<forall>m. \<forall>j \<in> set is. knows tab' st2 m j = learned is tab ?st i ?smac m j"
    using source_learned [OF ok, of ?smac] by blast
  have fc: "find (knows tab' st2 ?dmac) is = find (learned is tab ?st i ?smac ?dmac) is"
    using s(7) by (intro find_cong_set) simp
  have "\<exists>st3. (if ?dmac = MAC_BROADCAST then Some (None, st2) else switch_cli_locate ?dmac now st2) = Some (?dst, st3) \<and>
    same_but_times st2 st3 \<and> all_fresh now st3"
  proof (cases "?dmac = MAC_BROADCAST")
    case True
    then show ?thesis using same_but_times_refl [of st2] s(4) by (simp add: destination_def)
  next
    case False
    then show ?thesis using locate_fresh [OF s(3,4), of ?dmac] fc by (simp add: destination_def)
  qed
  then obtain st3 where l: "(if ?dmac = MAC_BROADCAST then Some (None, st2) else switch_cli_locate ?dmac now st2) = Some (?dst, st3)"
    "same_but_times st2 st3" "all_fresh now st3"
    by blast
  note fr = same_but_times_frame [OF l(2)]
  have ok3: "switch_ok is tab' st3" by (rule switch_ok_times [OF s(3) l(2)])
  have k3: "knows tab' st3 m j = learned is tab ?st i ?smac m j" if "j \<in> set is" for m j
    using knows_times [OF l(2)] s(7) that by simp
  have p3: "sw_port st3 j = sw_port ?st j" for j using s(6) fr(1) by (simp add: sw_port_def)
  let ?S = "\<lambda>j. if (case ?dst of None \<Rightarrow> j \<in> set is \<and> j \<noteq> i | Some k \<Rightarrow> j = k)
    then map_option (client_send d) (sw_client st3 j) else sw_client st3 j"
  let ?st' = "st3\<lparr>sw_client := ?S\<rparr>"
  have e: "(case ?dst of None \<Rightarrow> switch_flood i d (sw_head st3) c (h\<lparr>h_usr := st3\<rparr>)
      | Some j \<Rightarrow> switch_send i d j c (h\<lparr>h_usr := st3\<rparr>)) = Some ((), c, h\<lparr>h_usr := ?st'\<rparr>)"
  proof (cases ?dst)
    case None
    have "port_up (port_of cl)" if "j \<in> set is" "j \<noteq> i" "sw_client st3 j = Some cl" for j cl
      using up that p3 [of j] by (auto simp: sw_port_def)
    then show ?thesis
      using flood_sends [of "h\<lparr>h_usr := st3\<rparr>" "sw_head st3" "is" i d c] ok3 d(2) None
      by (simp add: switch_ok_def cong: if_cong)
  next
    case (Some k)
    have k: "k \<in> set is" "k \<noteq> i" using Some d(3) by (auto simp: destination_def split: if_split_asm dest: find_in)
    obtain cl where cl: "sw_client st3 k = Some cl" "port_up (port_of cl)"
    proof -
      obtain p where p: "sw_port st3 k = Some p" "port_up p" using up k p3 [of k] by force
      then show thesis using that by (auto simp: sw_port_def)
    qed
    have "set_client k (client_send d cl) st3 = ?st'"
      using cl(1) Some by (simp add: set_client_def fun_eq_iff fun_upd_def)
    then show ?thesis using send_other [OF k(2), of "h\<lparr>h_usr := st3\<rparr>" cl d c] cl d(2) Some by simp
  qed
  have tx: "switch_eth_tx now i d c h = Some (int (length d), c, h\<lparr>h_usr := ?st'\<rparr>)"
    using d(1) s(1,2) l(1) e by (simp add: switch_eth_tx_def Let_def split del: if_split cong: if_cong option.case_cong)
  have "switch_ok is tab' ?st'"
    by (rule switch_ok_ports [OF ok3]) (simp add: option.map_comp comp_def)
  moreover have "all_fresh now ?st'" using l(3) by (simp add: all_fresh_def)
  moreover have "knows tab' ?st' m j = knows tab' st3 m j" for m j by (simp add: knows_def mac_at_def)
  moreover have "sw_port ?st' j = (if (case ?dst of None \<Rightarrow> j \<noteq> i | Some k \<Rightarrow> j = k)
      then map_option (port_send d) (sw_port ?st j) else sw_port ?st j)" if "j \<in> set is" for j
    using that p3 [of j]
    by (cases "sw_client st3 j"; cases "sw_client ?st j") (auto simp: sw_port_def split: option.split)
  ultimately show ?thesis using tx k3 by (intro exI [of _ ?st'] exI [of _ tab']) simp
qed

text \<open>
  A frame for an address that the switch knows on the client it came from is not dropped: it is
  sent back to that client.
\<close>

lemma frame_reflected:
  assumes ok: "switch_ok is tab (h_usr h)" "all_fresh now (h_usr h)" "i \<in> set is" "h_oom h = []"
    and d: "12 \<le> length d" "length d \<le> 65527" "destination is tab (h_usr h) i d = Some i" and c: "c_cred c \<noteq> 0"
  shows "\<exists>st'. switch_eth_tx now i d c h =
    Some (int (length d), c\<lparr>c_cred := c_cred c - 1\<rparr>, host_push (eth_rx_packet c d) (h\<lparr>h_usr := st'\<rparr>))"
proof -
  let ?st = "h_usr h" and ?smac = "buf2mac (drop 6 d)" and ?dmac = "buf2mac d"
  obtain found st1 tab' st2 where s: "switch_cli_locate ?smac now ?st = Some (found, st1)"
    "(if found \<noteq> Some i then switch_cli_add_mac i ?smac now (h\<lparr>h_usr := st1\<rparr>) else Some (h\<lparr>h_usr := st1\<rparr>)) =
      Some (h\<lparr>h_usr := st2\<rparr>)"
    "switch_ok is tab' st2" "all_fresh now st2"
    "\<forall>m. \<forall>j \<in> set is. knows tab' st2 m j = learned is tab ?st i ?smac m j"
    using source_learned [OF ok, of ?smac] by blast
  have nb: "?dmac \<noteq> MAC_BROADCAST" using d(3) by (auto simp: destination_def split: if_split_asm)
  have "find (knows tab' st2 ?dmac) is = find (learned is tab ?st i ?smac ?dmac) is"
    using s(5) by (intro find_cong_set) simp
  then obtain st3 where l: "switch_cli_locate ?dmac now st2 = Some (Some i, st3)"
    using locate_fresh [OF s(3,4), of ?dmac] d(3) nb by (auto simp: destination_def)
  have u: "unat (of_nat (length d) :: u32) = length d" using d(2) by (simp add: unat_of_nat)
  let ?h = "h\<lparr>h_usr := st3\<rparr>"
  have a: "calloc ?h = (True, ?h)" using ok(4) by (simp add: calloc_def)
  have "coremodel_eth_rx (Some c) (of_nat (length d)) d ?h =
      Some (0, Some (c\<lparr>c_cred := c_cred c - 1\<rparr>), host_push (eth_rx_packet c d) ?h)"
    using eth_rx_sends [OF c, of "of_nat (length d)" d ?h ?h] u a d(2) by simp
  then have "switch_send i d i c ?h = Some ((), c\<lparr>c_cred := c_cred c - 1\<rparr>, host_push (eth_rx_packet c d) ?h)"
    by (simp add: switch_send_def)
  then show ?thesis using d(1) nb s(1,2) l
    by (intro exI [of _ st3]) (simp add: switch_eth_tx_def Let_def split del: if_split cong: if_cong option.case_cong)
qed

section \<open>Purging\<close>

lemma purge_only:
  assumes "sw_mac st a = Some e" "me_mac e \<noteq> mac" "now - me_ts e > SWITCH_MAC_PURGE_SECONDS"
    "sw_client st i = Some c" "cl_nme c = 1"
  shows "cli_scan mac now i None (Some a) st =
    Some (None, None, set_client i (c\<lparr>cl_nme := 0, cl_me := None\<rparr>) (st\<lparr>sw_mac := (sw_mac st)(a := None)\<rparr>))"
  using assms by (simp add: cli_scan.simps [of mac now i None "Some a" st] purge_mac_def Let_def)

text \<open>
  Purging the first entry of the first client's table follows a null pointer, unless it is the
  only one: the variable that walks the table is set to the entry before, which there is not.
\<close>

lemma purge_first_crashes:
  assumes "sw_head st = Some i" "sw_client st i = Some c" "cl_me c = Some a" "sw_mac st a = Some e"
    and "me_mac e \<noteq> mac" "now - me_ts e > SWITCH_MAC_PURGE_SECONDS" "cl_nme c \<noteq> 1"
  shows "switch_cli_locate mac now st = None"
proof -
  have "cli_scan mac now i None (Some a) st = None"
    using assms by (simp add: cli_scan.simps [of mac now i None "Some a" st] purge_mac_def Let_def)
  then show ?thesis using assms
    by (simp add: switch_cli_locate_def cli_locate.simps [of mac now None "Some i" st])
qed

end
