(* ===== verification/SwitchLoop.thy ===== *)
theory SwitchLoop
  imports SwitchTuple EthSwitch Handshake
begin

text \<open>
  \<open>examples/eth-switch/eth-switch.c\<close>, the clients: adding one from its argument, freeing one, the
  rounds over all of them and the service loop. Each client has a connection of its own.
  While the code runs on the connection of one client, that connection has the state of the switch
  as the state its callbacks reach, and its host and interface are those of the connection; otherwise
  they are in the client object, where the callbacks of the other clients use them.
\<close>

section \<open>State\<close>

text \<open>
  Beside the state of the switch: for each client its connection and the place of its interface there, the
  next client object, the time, and what the process holds.
\<close>

record switch_world =
  ww_state :: switch_state
  ww_conn :: "nat \<Rightarrow> (ring \<times> switch_state cm) option"
  ww_if :: "nat \<Rightarrow> nat option"
  ww_next :: nat
  ww_now :: int
  ww_proc :: proc

definition host_put :: "'b \<Rightarrow> 'a host \<Rightarrow> 'b host" where
  "host_put d h = \<lparr>h_txbufs = h_txbufs h, h_txflag = h_txflag h, h_need_wake = h_need_wake h, h_wake = h_wake h,
     h_oom = h_oom h, h_usr = d\<rparr>"

text \<open>
  Taking the connection of client \<open>i\<close> to run on it, and putting it back. The connection is \<open>None\<close>
  when the client object or its connection does not exist. The callbacks see the present time.
\<close>

definition client_enter :: "nat \<Rightarrow> switch_world \<Rightarrow> (ring \<times> switch_state cm) option" where
  "client_enter i w = do {
     cl \<leftarrow> sw_client (ww_state w) i;
     h \<leftarrow> cl_conn cl;
     (r, cm) \<leftarrow> ww_conn w i;
     let cm = cm\<lparr>cm_host := host_put (ww_state w) h\<rparr>;
     (case ww_if w i of
        None \<Rightarrow> Some (r, cm)
      | Some x \<Rightarrow> do {
          c \<leftarrow> cl_handle cl;
          cif \<leftarrow> cm_heap cm x;
          Some (r, cm\<lparr>cm_heap := (cm_heap cm)(x \<mapsto>
            cif\<lparr>if_core := c, if_func := EthF (switch_eth_func (ww_now w))\<rparr>)\<rparr>) }) }"

definition client_leave :: "nat \<Rightarrow> ring \<times> switch_state cm \<Rightarrow> switch_world \<Rightarrow> switch_world option" where
  "client_leave i s w =
    (case s of (r, cm) \<Rightarrow> let st = h_usr (cm_host cm) in do {
       cl \<leftarrow> sw_client st i;
       let handle = (case ww_if w i of None \<Rightarrow> None | Some x \<Rightarrow> map_option if_core (cm_heap cm x));
       Some (w\<lparr>ww_state := set_client i (cl\<lparr>cl_conn := Some (host_put () (cm_host cm)), cl_handle := handle\<rparr>) st,
               ww_conn := (ww_conn w)(i \<mapsto> (r, cm))\<rparr>) })"

section \<open>Freeing a client\<close>

text \<open>The list is walked by the place of the pointer: the head, or \<open>next\<close> of the client \<open>j\<close>.\<close>

definition get_link :: "nat option \<Rightarrow> switch_state \<Rightarrow> nat option option" where
  "get_link pcli st = (case pcli of None \<Rightarrow> Some (sw_head st) | Some j \<Rightarrow> map_option cl_next (sw_client st j))"

definition set_link :: "nat option \<Rightarrow> nat option \<Rightarrow> switch_state \<Rightarrow> switch_state option" where
  "set_link pcli n st =
    (case pcli of
       None \<Rightarrow> Some (st\<lparr>sw_head := n\<rparr>)
     | Some j \<Rightarrow> map_option (\<lambda>c. set_client j (c\<lparr>cl_next := n\<rparr>) st) (sw_client st j))"

partial_function (option) unlink_client :: "nat option \<Rightarrow> nat option \<Rightarrow> switch_state \<Rightarrow> switch_state option" where
  "unlink_client cli pcli st = do {
     cur \<leftarrow> get_link pcli st;
     (case cur of
        None \<Rightarrow> Some st
      | Some x \<Rightarrow>
          if cur = cli then do {
            c \<leftarrow> sw_client st x;
            st \<leftarrow> set_link pcli (cl_next c) st;
            unlink_client cli pcli st }
          else unlink_client cli (Some x) st) }"

partial_function (option) free_macs :: "nat \<Rightarrow> switch_state \<Rightarrow> switch_state option" where
  "free_macs i st = do {
     cl \<leftarrow> sw_client st i;
     (case cl_me cl of
        None \<Rightarrow> Some st
      | Some a \<Rightarrow> do {
          e \<leftarrow> sw_mac st a;
          free_macs i (set_client i (cl\<lparr>cl_me := me_next e, cl_nme := cl_nme cl - 1\<rparr>)
            (st\<lparr>sw_mac := (sw_mac st)(a := None)\<rparr>)) }) }"

definition client_detach :: "nat \<Rightarrow> switch_world \<Rightarrow> switch_world option" where
  "client_detach i w = do {
     cl \<leftarrow> sw_client (ww_state w) i;
     if cl_handle cl = None then Some w
     else do {
       (r, cm) \<leftarrow> client_enter i w;
       cm \<leftarrow> coremodel_detach (ww_if w i) cm;
       client_leave i (r, cm) (w\<lparr>ww_if := (ww_if w)(i := None)\<rparr>) } }"

definition client_disconnect :: "nat \<Rightarrow> switch_world \<Rightarrow> switch_world option" where
  "client_disconnect i w = do {
     cl \<leftarrow> sw_client (ww_state w) i;
     if cl_conn cl = None then Some w
     else do {
       s \<leftarrow> client_enter i w;
       s \<leftarrow> coremodel_disconnect s;
       Some (w\<lparr>ww_state := h_usr (cm_host (snd s)), ww_conn := (ww_conn w)(i := None)\<rparr>) } }"

text \<open>The argument may be NULL, whose list of addresses is then read.\<close>

definition client_free :: "nat option \<Rightarrow> switch_world \<Rightarrow> switch_world option" where
  "client_free cli w = do {
     st \<leftarrow> unlink_client cli None (ww_state w);
     i \<leftarrow> cli;
     st \<leftarrow> free_macs i st;
     w \<leftarrow> client_detach i (w\<lparr>ww_state := st\<rparr>);
     w \<leftarrow> client_disconnect i w;
     let st = ww_state w;
     Some (w\<lparr>ww_state := st\<lparr>sw_client := (sw_client st)(i := None), sw_nclients := sw_nclients st - 1\<rparr>\<rparr>) }"

section \<open>Adding a client\<close>

definition client_calloc :: client where
  "client_calloc = \<lparr>cl_conn = None, cl_name = None, cl_next = None, cl_tuple = None, cl_handle = None,
     cl_me = None, cl_nme = 0\<rparr>"

definition client_cleanup :: "nat \<Rightarrow> switch_world \<Rightarrow> (switch_world + int \<times> switch_world) option" where
  "client_cleanup i w = map_option (\<lambda>w. Inr (- 1, w)) (client_free (Some i) w)"

definition client_link :: "nat \<Rightarrow> switch_state \<Rightarrow> switch_state option" where
  "client_link i st = do {
     cl \<leftarrow> sw_client st i;
     Some ((set_client i (cl\<lparr>cl_next := sw_head st\<rparr>) st)\<lparr>sw_head := Some i, sw_nclients := sw_nclients st + 1\<rparr>) }"

text \<open>From the connection on; \<open>Inl\<close> is an attach that still waits when the script \<open>rs\<close> ends.\<close>

definition client_attach ::
  "nat \<Rightarrow> byte list option \<Rightarrow> round list \<Rightarrow> switch_world \<Rightarrow> (switch_world + int \<times> switch_world) option" where
  "client_attach i name rs w = do {
     s \<leftarrow> client_enter i w;
     iface \<leftarrow> name;
     out \<leftarrow> coremodel_attach_eth iface (switch_eth_func (ww_now w)) i (ww_now w) rs s;
     (case out of
        Inl s \<Rightarrow> map_option Inl (client_leave i s w)
      | Inr (handle, s) \<Rightarrow> do {
          w \<leftarrow> client_leave i s (w\<lparr>ww_if := (ww_if w)(i := handle)\<rparr>);
          if handle = None then client_cleanup i w
          else do { st \<leftarrow> client_link i (ww_state w); Some (Inr (0, w\<lparr>ww_state := st\<rparr>)) } }) }"

text \<open>
  \<open>oom\<close> is the script of the allocations of the function itself, \<open>moom\<close> that of the new connection. When
  the value 0 comes without a connection, NULL is attached to.
\<close>

definition switch_client_add ::
  "env \<Rightarrow> bool list \<Rightarrow> bool list \<Rightarrow> round list \<Rightarrow> byte list \<Rightarrow> switch_world \<Rightarrow>
     (switch_world + int \<times> switch_world) option" where
  "switch_client_add e oom moom rs cred w =
    (let (ok, oom) = alloc oom in
     if \<not> ok then Some (Inr (- 1, w))
     else do {
       let (ok, oom) = alloc oom;
       let i = ww_next w;
       let cl = client_calloc\<lparr>cl_name := (if ok then Some cred else None)\<rparr>;
       let w = w\<lparr>ww_state := set_client i cl (ww_state w), ww_next := Suc i\<rparr>;
       tuple \<leftarrow> switch_parse_tuple cred TUPLE_NELM 0x2F oom;
       (case tuple of
          None \<Rightarrow> client_cleanup i w
        | Some v \<Rightarrow>
            let cl = cl\<lparr>cl_tuple := Some v\<rparr>;
                w = w\<lparr>ww_state := set_client i cl (ww_state w)\<rparr> in
            (case coremodel_connect e moom (ww_state w) (Some (coremodel_mktarget v)) (ww_proc w) of
               Inl (res, k) \<Rightarrow> if res = 0 then None else client_cleanup i (w\<lparr>ww_proc := k\<rparr>)
             | Inr (s, k) \<Rightarrow>
                 client_attach i (v ! TUPLE_NAME_IDX) rs
                   (w\<lparr>ww_state := set_client i (cl\<lparr>cl_conn := Some (host_put () (cm_host (snd s)))\<rparr>) (ww_state w),
                      ww_conn := (ww_conn w)(i \<mapsto> s), ww_if := (ww_if w)(i := None), ww_proc := k\<rparr>))) })"

section \<open>Rounds\<close>

definition client_preparefds :: "int \<Rightarrow> nat \<Rightarrow> switch_world \<Rightarrow> (int \<times> fds \<times> switch_world) option" where
  "client_preparefds nfds i w = do {
     s \<leftarrow> client_enter i w;
     (nfds, f, s) \<leftarrow> coremodel_preparefds nfds s;
     w \<leftarrow> client_leave i s w;
     Some (nfds, f, w) }"

definition client_processfds ::
  "fds \<Rightarrow> rd_event list \<Rightarrow> wr_event list \<Rightarrow> nat \<Rightarrow> switch_world \<Rightarrow> (int \<times> switch_world) option" where
  "client_processfds f rds wrs i w = do {
     s \<leftarrow> client_enter i w;
     (res, s) \<leftarrow> coremodel_processfds f rds wrs s;
     w \<leftarrow> client_leave i s w;
     Some (res, w) }"

partial_function (option) prepare_loop ::
  "int \<Rightarrow> (nat \<Rightarrow> fds) \<Rightarrow> nat option \<Rightarrow> switch_world \<Rightarrow> (int \<times> (nat \<Rightarrow> fds) \<times> switch_world) option" where
  "prepare_loop nfds fs cli w =
    (case cli of
       None \<Rightarrow> Some (nfds, fs, w)
     | Some i \<Rightarrow> do {
         (n, f, w) \<leftarrow> client_preparefds nfds i w;
         cl \<leftarrow> sw_client (ww_state w) i;
         prepare_loop (if n < 0 then nfds else n) (fs(i := f)) (cl_next cl) w })"

definition ethernet_preparefds :: "switch_world \<Rightarrow> (int \<times> (nat \<Rightarrow> fds) \<times> switch_world) option" where
  "ethernet_preparefds w =
    (let fs = (\<lambda>_. \<lparr>fd_wake = False, fd_read = False, fd_write = False\<rparr>) in
     if sw_head (ww_state w) = None then Some (- 1, fs, w)
     else prepare_loop 0 fs (sw_head (ww_state w)) w)"

text \<open>What \<open>select\<close> reports and the sockets do in a round, for each client.\<close>

record switch_round =
  sr_fds :: "nat \<Rightarrow> fds"
  sr_reads :: "nat \<Rightarrow> rd_event list"
  sr_writes :: "nat \<Rightarrow> wr_event list"
  sr_now :: int
  sr_int :: bool

text \<open>When a client fails, it is the next one that is freed, and then used.\<close>

partial_function (option) process_loop :: "switch_round \<Rightarrow> nat option \<Rightarrow> switch_world \<Rightarrow> switch_world option" where
  "process_loop x cli w =
    (case cli of
       None \<Rightarrow> Some w
     | Some i \<Rightarrow> do {
         (res, w) \<leftarrow> client_processfds (sr_fds x i) (sr_reads x i) (sr_writes x i) i w;
         cl \<leftarrow> sw_client (ww_state w) i;
         if res \<noteq> 0 then do { w \<leftarrow> client_free (cl_next cl) w; process_loop x (cl_next cl) w }
         else process_loop x (cl_next cl) w })"

definition ethernet_processfds :: "switch_round \<Rightarrow> switch_world \<Rightarrow> switch_world option" where
  "ethernet_processfds x w = process_loop x (sw_head (ww_state w)) w"

text \<open>The results of \<open>select\<close> are among what was asked for; SIGINT comes while it waits.\<close>

definition select_round :: "(nat \<Rightarrow> fds) \<Rightarrow> switch_round \<Rightarrow> switch_round" where
  "select_round fs x = x\<lparr>sr_fds := (\<lambda>i.
     \<lparr>fd_wake = fd_wake (fs i) \<and> fd_wake (sr_fds x i), fd_read = fd_read (fs i) \<and> fd_read (sr_fds x i),
      fd_write = fd_write (fs i) \<and> fd_write (sr_fds x i)\<rparr>)\<rparr>"

definition switch_sigint :: "bool \<Rightarrow> switch_state \<Rightarrow> switch_state" where
  "switch_sigint b st = (if b then st\<lparr>sw_run := 0\<rparr> else st)"

fun ethernet_service_loop :: "switch_round list \<Rightarrow> switch_world \<Rightarrow> (switch_world + int \<times> switch_world) option" where
  "ethernet_service_loop rs w =
    (if sw_run (ww_state w) = 0 then Some (Inr (0, w))
     else do {
       (nfds, fs, w) \<leftarrow> ethernet_preparefds w;
       if nfds < 0 then Some (Inr (- 1, w))
       else (case rs of
          [] \<Rightarrow> Some (Inl w)
        | x # rs' \<Rightarrow> do {
            w \<leftarrow> ethernet_processfds (select_round fs x)
              (w\<lparr>ww_now := sr_now x, ww_state := switch_sigint (sr_int x) (ww_state w)\<rparr>);
            ethernet_service_loop rs' w }) })"

declare ethernet_service_loop.simps [simp del]

section \<open>The program\<close>

partial_function (option) switch_cleanup :: "switch_world \<Rightarrow> switch_world option" where
  "switch_cleanup w =
    (if sw_head (ww_state w) = None then Some w
     else do { w \<leftarrow> client_free (sw_head (ww_state w)) w; switch_cleanup w })"

text \<open>
  The options, with the outcomes of the calls that adding a client makes: \<open>-c\<close>, \<open>-f\<close>, which is accepted
  and ignored, and \<open>-h\<close> or an unknown one.
\<close>

datatype switch_opt = OptC env "bool list" "bool list" "round list" "byte list" | OptF | OptH

fun parse_opts :: "switch_opt list \<Rightarrow> switch_world \<Rightarrow> (switch_world + int \<times> switch_world) option" where
  "parse_opts [] w = Some (Inr (0, w))"
| "parse_opts (OptC e oom moom rs cred # os) w = do {
     out \<leftarrow> switch_client_add e oom moom rs cred w;
     (case out of
        Inl w \<Rightarrow> Some (Inl w)
      | Inr (res, w) \<Rightarrow> if res \<noteq> 0 then Some (Inr (1, w)) else parse_opts os w) }"
| "parse_opts (OptF # os) w = parse_opts os w"
| "parse_opts (OptH # os) w = Some (Inr (- 1, w))"

definition switch_parse_args :: "switch_opt list \<Rightarrow> switch_world \<Rightarrow> (switch_world + int \<times> switch_world) option" where
  "switch_parse_args os w = (if os = [] then Some (Inr (- 1, w)) else parse_opts os w)"

definition switch_exit :: "int \<Rightarrow> switch_world \<Rightarrow> (switch_world + int \<times> switch_world) option" where
  "switch_exit ret w = map_option (\<lambda>w. Inr (ret, w)) (switch_cleanup w)"

definition switch_main ::
  "bool \<Rightarrow> switch_opt list \<Rightarrow> switch_round list \<Rightarrow> switch_world \<Rightarrow> (switch_world + int \<times> switch_world) option" where
  "switch_main sig os rs w =
    (if \<not> sig then switch_exit (- 1) w
     else do {
       out \<leftarrow> switch_parse_args os w;
       (case out of
          Inl w \<Rightarrow> Some (Inl w)
        | Inr (res, w) \<Rightarrow>
            if res < 0 \<or> sw_nclients (ww_state w) = 0 then switch_exit (- 1) w
            else do {
              out \<leftarrow> ethernet_service_loop rs (w\<lparr>ww_state := (ww_state w)\<lparr>sw_run := 1\<rparr>\<rparr>);
              (case out of
                 Inl w \<Rightarrow> Some (Inl w)
               | Inr (_, w) \<Rightarrow> switch_exit 0 w) }) })"

end
