(* ===== verification/SwitchRounds.thy ===== *)
theory SwitchRounds
  imports SwitchLoop
begin

text \<open>
  The switch at work: a frame that arrives on the connection of one client leaves on that of another,
  a client is added from its argument, and what happens when a client is lost.
\<close>

section \<open>A client that is ready\<close>

text \<open>An idle connection with one Ethernet interface, whose callbacks have the client \<open>i\<close>.\<close>

definition conn_ready :: "nat \<Rightarrow> nat \<Rightarrow> ring \<times> switch_state cm \<Rightarrow> bool" where
  "conn_ready i x s \<longleftrightarrow> (case s of (r, cm) \<Rightarrow>
     ring_ok r \<and> ring_bytes r = [] \<and> 0 \<le> cm_fd cm \<and> cm_ok cm \<and> cm_ifs cm = [x] \<and> cm_conn_if cm = None \<and>
     h_oom (cm_host cm) = [] \<and> h_txbufs (cm_host cm) = [] \<and>
     (\<exists>cif. cm_heap cm x = Some cif \<and> if_rxbufs cif = [] \<and> c_type (if_core cif) = COREMODEL_ETH \<and>
        c_priv (if_core cif) = i \<and> \<not> c_busy (if_core cif) \<and> c_offs (if_core cif) = 0 \<and>
        c_conn (if_core cif) \<noteq> CONN_QUERY))"

definition client_ready :: "nat \<Rightarrow> switch_world \<Rightarrow> bool" where
  "client_ready i w \<longleftrightarrow> (\<exists>s x. client_enter i w = Some s \<and> ww_if w i = Some x \<and> conn_ready i x s)"

definition client_conn :: "nat \<Rightarrow> switch_world \<Rightarrow> u16 option" where
  "client_conn i w = Option.bind (sw_client (ww_state w) i) (\<lambda>cl. map_option c_conn (cl_handle cl))"

lemma host_put_simps [simp]:
  "h_usr (host_put d h) = d" "h_oom (host_put d h) = h_oom h" "h_txbufs (host_put d h) = h_txbufs h"
  "h_txflag (host_put d h) = h_txflag h" "h_need_wake (host_put d h) = h_need_wake h" "h_wake (host_put d h) = h_wake h"
  "host_put d (host_put e h) = host_put d h"
  by (simp_all add: host_put_def)

lemma enterE:
  assumes "client_enter i w = Some (r, cm)" "ww_if w i = Some x"
  obtains cl h cm0 c cif where "sw_client (ww_state w) i = Some cl" "cl_conn cl = Some h" "ww_conn w i = Some (r, cm0)"
    "cl_handle cl = Some c" "cm_heap cm0 x = Some cif" "cm = cm0\<lparr>cm_host := host_put (ww_state w) h,
      cm_heap := (cm_heap cm0)(x \<mapsto> cif\<lparr>if_core := c, if_func := EthF (switch_eth_func (ww_now w))\<rparr>)\<rparr>"
  using assms by (auto simp: client_enter_def Let_def split: Option.bind_split_asm)

text \<open>Leaving a connection and entering it again.\<close>

lemma leave_enter:
  assumes "client_leave i (r, cm) w = Some w'" "ww_if w i = Some x" "cm_heap cm x = Some cif"
    "if_func cif = EthF (switch_eth_func (ww_now w))"
  shows "client_enter i w' = Some (r, cm\<lparr>cm_host := host_put (ww_state w') (cm_host cm)\<rparr>)"
  using assms by (auto simp: client_leave_def client_enter_def Let_def set_client_def fun_upd_idem split: Option.bind_split_asm)

lemma leave_frame:
  assumes "client_leave i s w = Some w'"
  shows "ww_if w' = ww_if w" "ww_now w' = ww_now w" "ww_next w' = ww_next w" "ww_proc w' = ww_proc w"
    "j \<noteq> i \<Longrightarrow> ww_conn w' j = ww_conn w j"
  using assms by (auto simp: client_leave_def Let_def split: prod.split_asm Option.bind_split_asm)

section \<open>A frame on a connection\<close>

lemma ready_frame:
  assumes s: "conn_ready i x (r, cm)" "cm_heap cm x = Some cif" "if_func cif = EthF f" "ef_tx f = Some tx"
    and p: "pk_conn p = c_conn (if_core cif)" "pk_pkt p = PKT_ETH_TX" "wf_packet p" "pk_data p \<noteq> []"
    and tx: "tx i (pk_data p) (if_core cif) ((cm_host cm)\<lparr>h_need_wake := False\<rparr>) =
      Some (int (length (pk_data p)), if_core cif, (cm_host cm)\<lparr>h_need_wake := False, h_usr := st'\<rparr>)"
  shows "coremodel_process_packet p (cm\<lparr>cm_host := (cm_host cm)\<lparr>h_need_wake := False\<rparr>\<rparr>) =
    Some (False, cm\<lparr>cm_host := (cm_host cm)\<lparr>h_need_wake := False, h_usr := st'\<rparr>,
      cm_heap := (cm_heap cm)(x \<mapsto> cif\<lparr>if_defer_pkt := False\<rparr>)\<rparr>)"
proof -
  let ?h = "(cm_host cm)\<lparr>h_need_wake := False\<rparr>"
  let ?cm = "cm\<lparr>cm_host := ?h\<rparr>"
  have r: "cm_ok cm" "cm_ifs cm = [x]" "cm_conn_if cm = None" "h_oom (cm_host cm) = []" "if_rxbufs cif = []"
    "c_type (if_core cif) = COREMODEL_ETH" "c_priv (if_core cif) = i" "\<not> c_busy (if_core cif)"
    "c_offs (if_core cif) = 0" "c_conn (if_core cif) \<noteq> CONN_QUERY"
    using s(1,2) by (simp_all add: conn_ready_def)
  have pl: "unat (payload_len p) = length (pk_data p)" by (rule unat_payload_len [OF p(3)])
  have sl: "payload_slice p 0 (unat (payload_len p)) = Some (pk_data p)" by (simp add: payload_slice_def pl)
  have "(of_nat (length (pk_data p)) :: u32) = payload_len p" using pl [symmetric] by simp
  then have "advance_pkt (EthF f) p (if_core cif) ?h = Some (0, if_core cif, ?h\<lparr>h_usr := st'\<rparr>)"
    using r p tx s(4) sl by (simp add: advance_pkt_def coremodel_advance_if_eth_def Let_def)
  then have "coremodel_advance_if (cif\<lparr>if_rxbufs := [p], if_defer_pkt := False\<rparr>) ?h =
      Some (cif\<lparr>if_defer_pkt := False\<rparr>, ?h\<lparr>h_usr := st'\<rparr>)"
    using s(3) r(5) by (simp add: coremodel_advance_if_def advance_loop.simps(2))
  moreover have "coremodel_process_packet p ?cm = do {
      cm \<leftarrow> advance_at x (?cm\<lparr>cm_heap := (cm_heap ?cm)(x \<mapsto> cif\<lparr>if_rxbufs := if_rxbufs cif @ [p],
               if_defer_pkt := (cm_conn_if ?cm = Some x)\<rparr>), cm_defer := (cm_defer ?cm \<or> cm_conn_if ?cm = Some x)\<rparr>);
      Some (False, cm) }"
    by (rule process_packet_delivers) (use r p(1,3) s(2) in \<open>simp_all add: conn_of_def\<close>)
  ultimately show ?thesis using r(3,5) by (simp add: advance_at_def)
qed

text \<open>
  A frame from the virtual machine of client \<open>i\<close>: the switch learns its source and forwards it, and the
  client is ready again.
\<close>

lemma frame_round:
  assumes w: "client_ready i w" "switch_ok is tab (ww_state w)" "all_fresh (ww_now w) (ww_state w)" "i \<in> set is"
    and p: "client_conn i w = Some (pk_conn p)" "pk_pkt p = PKT_ETH_TX" "wf_packet p" "wire_size p \<le> MAX_PKT"
    and d: "12 \<le> length (pk_data p)" "destination is tab (ww_state w) i (pk_data p) \<noteq> Some i"
    and up: "\<forall>j \<in> set is. j \<noteq> i \<longrightarrow> (\<exists>q. sw_port (ww_state w) j = Some q \<and> port_up q)"
  shows "\<exists>w' tab'. client_processfds \<lparr>fd_wake = False, fd_read = True, fd_write = False\<rparr> [RData (wire_image p)] [] i w =
      Some (0, w') \<and> client_ready i w' \<and> client_conn i w' = client_conn i w \<and>
    switch_ok is tab' (ww_state w') \<and> all_fresh (ww_now w) (ww_state w') \<and>
    (\<forall>m. \<forall>j \<in> set is. knows tab' (ww_state w') m j = learned is tab (ww_state w) i (buf2mac (drop 6 (pk_data p))) m j) \<and>
    (\<forall>j \<in> set is. j \<noteq> i \<longrightarrow> sw_port (ww_state w') j =
      (if destination is tab (ww_state w) i (pk_data p) \<in> {None, Some j}
       then map_option (port_send (pk_data p)) (sw_port (ww_state w) j) else sw_port (ww_state w) j))"
proof -
  obtain r cm x where e: "client_enter i w = Some (r, cm)" "ww_if w i = Some x" "conn_ready i x (r, cm)"
    using w(1) by (auto simp: client_ready_def)
  from e(1,2) obtain cl h cm0 c cif0 where cl: "sw_client (ww_state w) i = Some cl" "cl_conn cl = Some h"
    "ww_conn w i = Some (r, cm0)" "cl_handle cl = Some c" "cm_heap cm0 x = Some cif0"
    "cm = cm0\<lparr>cm_host := host_put (ww_state w) h,
      cm_heap := (cm_heap cm0)(x \<mapsto> cif0\<lparr>if_core := c, if_func := EthF (switch_eth_func (ww_now w))\<rparr>)\<rparr>"
    by (rule enterE)
  let ?cif = "cif0\<lparr>if_core := c, if_func := EthF (switch_eth_func (ww_now w))\<rparr>"
  let ?d = "pk_data p" and ?h = "(cm_host cm)\<lparr>h_need_wake := False\<rparr>"
  have hp: "cm_heap cm x = Some ?cif" and u: "h_usr ?h = ww_state w" using cl(6) by simp_all
  have c: "pk_conn p = c_conn c" using p(1) cl(1,4) by (simp add: client_conn_def)
  have l: "length ?d \<le> 65527" using p(3) unat_u16_less [of "pk_len p"] by (simp add: wf_packet_def)
  have oom: "h_oom ?h = []" using e(3) by (simp add: conn_ready_def)
  obtain st' tab' where t: "switch_eth_tx (ww_now w) i ?d c ?h = Some (int (length ?d), c, ?h\<lparr>h_usr := st'\<rparr>)"
    "switch_ok is tab' st'" "all_fresh (ww_now w) st'"
    "\<forall>m. \<forall>j \<in> set is. knows tab' st' m j = learned is tab (ww_state w) i (buf2mac (drop 6 ?d)) m j"
    "\<forall>j \<in> set is. sw_port st' j =
      (if (case destination is tab (ww_state w) i ?d of None \<Rightarrow> j \<noteq> i | Some k \<Rightarrow> j = k)
       then map_option (port_send ?d) (sw_port (ww_state w) j) else sw_port (ww_state w) j)"
    using frame_switched [of "is" tab ?h "ww_now w" i ?d c] w(2-4) oom d l up u by auto
  let ?cm' = "cm\<lparr>cm_host := ?h\<lparr>h_usr := st'\<rparr>, cm_heap := (cm_heap cm)(x \<mapsto> ?cif\<lparr>if_defer_pkt := False\<rparr>)\<rparr>"
  have ne: "?d \<noteq> []" using d(1) by auto
  have pp: "coremodel_process_packet p (cm\<lparr>cm_host := ?h\<rparr>) = Some (False, ?cm')"
    using ready_frame [OF e(3) hp, of "switch_eth_func (ww_now w)" "switch_eth_tx (ww_now w)" p st'] c p(2,3) ne t(1)
    by (simp add: switch_eth_func_def)
  have q: "ring_ok r" "ring_bytes r = []" "0 \<le> cm_fd cm" "h_txbufs (cm_host ?cm') = []"
    using e(3) by (simp_all add: conn_ready_def)
  obtain r' where r': "coremodel_processfds \<lparr>fd_wake = False, fd_read = True, fd_write = False\<rparr> [RData (wire_image p)] []
      (r, cm) = Some (0, r', ?cm')" "ring_ok r'" "ring_bytes r' = []"
    using round_packet [OF q(1-3) p(3,4) pp q(4)] by blast
  obtain cl' where cl': "sw_client st' i = Some cl'" using switch_ok_client [OF t(2) w(4)] by blast
  obtain w' where w': "client_leave i (r', ?cm') w = Some w'" "ww_state w' = set_client i
      (cl'\<lparr>cl_conn := Some (host_put () (cm_host ?cm')), cl_handle := Some c\<rparr>) st'"
    using cl' e(2) by (simp add: client_leave_def Let_def)
  have "client_enter i w' = Some (r', ?cm'\<lparr>cm_host := host_put (ww_state w') (cm_host ?cm')\<rparr>)"
    by (rule leave_enter [OF w'(1) e(2), of "?cif\<lparr>if_defer_pkt := False\<rparr>"]) simp_all
  moreover have "cm_ok (cm\<lparr>cm_heap := (cm_heap cm)(x \<mapsto> ?cif\<lparr>if_defer_pkt := False\<rparr>)\<rparr>)"
    using e(3) hp by (auto simp: conn_ready_def cm_ok_def)
  then have "conn_ready i x (r', ?cm'\<lparr>cm_host := host_put (ww_state w') (cm_host ?cm')\<rparr>)"
    using e(3) hp r'(2,3) by (auto simp: conn_ready_def)
  ultimately have ready: "client_ready i w'" using leave_frame(1) [OF w'(1)] e(2) by (auto simp: client_ready_def)
  have "switch_ok is tab' (st'\<lparr>sw_client := (sw_client st')(i \<mapsto> cl'\<lparr>cl_conn := Some (host_put () (cm_host ?cm')), cl_handle := Some c\<rparr>)\<rparr>)"
    by (rule switch_ok_ports [OF t(2)]) (simp add: cl')
  then have ok: "switch_ok is tab' (ww_state w')" by (simp add: w'(2) set_client_def)
  have "sw_port (ww_state w') j = sw_port st' j" if "j \<noteq> i" for j using that by (simp add: w'(2) set_client_def sw_port_def)
  then have "sw_port (ww_state w') j = (if destination is tab (ww_state w) i ?d \<in> {None, Some j}
       then map_option (port_send ?d) (sw_port (ww_state w) j) else sw_port (ww_state w) j)" if "j \<in> set is" "j \<noteq> i" for j
    using t(5) that by (auto split: option.split)
  moreover have "client_processfds \<lparr>fd_wake = False, fd_read = True, fd_write = False\<rparr> [RData (wire_image p)] [] i w = Some (0, w')"
    using e(1) r'(1) w'(1) by (simp add: client_processfds_def)
  moreover have "client_conn i w' = client_conn i w" using cl(1,4) by (simp add: client_conn_def w'(2) set_client_def)
  moreover have "all_fresh (ww_now w) (ww_state w')" using t(3) by (simp add: w'(2) all_fresh_def set_client_def)
  moreover have "knows tab' (ww_state w') m j = knows tab' st' m j" for m j
    by (simp add: w'(2) set_client_def knows_def mac_at_def)
  ultimately show ?thesis using ready ok t(4) by (intro exI [of _ w'] exI [of _ tab']) simp
qed

section \<open>A client that fails\<close>

text \<open>The loop over the clients returns only if every one of them succeeded.\<close>

inductive served :: "switch_round \<Rightarrow> nat option \<Rightarrow> switch_world \<Rightarrow> switch_world \<Rightarrow> bool" for x where
  served_end: "served x None w w"
| served_client: "client_processfds (sr_fds x i) (sr_reads x i) (sr_writes x i) i w = Some (0, w1) \<Longrightarrow>
    sw_client (ww_state w1) i = Some cl \<Longrightarrow> served x (cl_next cl) w1 w2 \<Longrightarrow> served x (Some i) w w2"

inductive_cases served_SomeE: "served x (Some i) w w2"

lemma free_frees:
  "client_free cli w = Some w' \<Longrightarrow> \<exists>i. cli = Some i \<and> sw_client (ww_state w') i = None"
  by (auto simp: client_free_def Let_def split: Option.bind_split_asm)

lemma processfds_freed: "sw_client (ww_state w) i = None \<Longrightarrow> client_processfds f rds wrs i w = None"
  by (simp add: client_processfds_def client_enter_def)

lemma process_failed:
  assumes "client_processfds (sr_fds x i) (sr_reads x i) (sr_writes x i) i w = Some (res, w1)" "res \<noteq> 0"
  shows "process_loop x (Some i) w = None"
proof (cases "sw_client (ww_state w1) i")
  case None
  then show ?thesis using assms by (simp add: process_loop.simps [of x "Some i" w])
next
  case (Some cl)
  have "process_loop x (cl_next cl) w2 = None" if f: "client_free (cl_next cl) w1 = Some w2" for w2
  proof -
    obtain j where j: "cl_next cl = Some j" "sw_client (ww_state w2) j = None" using free_frees [OF f] by blast
    then show ?thesis
      using processfds_freed [OF j(2)] by (simp add: process_loop.simps [of x "Some j" w2])
  qed
  then show ?thesis using assms Some
    by (cases "client_free (cl_next cl) w1") (simp_all add: process_loop.simps [of x "Some i" w])
qed

lemmas process_loop_induct [consumes 1, case_names loop] =
  process_loop.raw_induct [where xa = "((x, cli), w)" for x cli w, unfolded prod.case, rotated]

lemma process_served: "process_loop x cli w = Some w' \<Longrightarrow> served x cli w w'"
proof (induction x cli w w' rule: process_loop_induct)
  case (loop pl x cli w w')
  show ?case
  proof (cases cli)
    case None
    then show ?thesis using loop(2) by (simp add: served_end)
  next
    case (Some i)
    obtain res w1 cl where c: "client_processfds (sr_fds x i) (sr_reads x i) (sr_writes x i) i w = Some (res, w1)"
      "sw_client (ww_state w1) i = Some cl"
      using loop(2) Some by (auto split: Option.bind_split_asm)
    show ?thesis
    proof (cases "res = 0")
      case True
      then show ?thesis using loop Some c by (auto intro!: served_client)
    next
      case False
      obtain w2 where f: "client_free (cl_next cl) w1 = Some w2" "pl x (cl_next cl) w2 = Some w'"
        using loop(2) Some c False by (auto split: Option.bind_split_asm)
      obtain j where j: "cl_next cl = Some j" "sw_client (ww_state w2) j = None" using free_frees [OF f(1)] by blast
      have "served x (Some j) w2 w'" using loop(1) f(2) j(1) by simp
      then show ?thesis using processfds_freed [OF j(2)] by (auto elim: served_SomeE)
    qed
  qed
qed

lemma served_process: "served x cli w w' \<Longrightarrow> process_loop x cli w = Some w'"
proof (induction rule: served.induct)
  case (served_end w)
  show ?case by (simp add: process_loop.simps [of x None w])
next
  case (served_client i w w1 cl w2)
  then show ?case by (simp add: process_loop.simps [of x "Some i" w])
qed

text \<open>
  The virtual machine of a client closes its connection: whatever else is ready, the switch frees the
  client after it and goes on with it, or with NULL.
\<close>

lemma lost_client_crashes:
  assumes "client_enter i w = Some (r, cm)" "0 \<le> cm_fd cm" "ring_ok r" "ring_step r \<noteq> 0"
    "sr_fds x i = \<lparr>fd_wake = False, fd_read = True, fd_write = b\<rparr>" "sr_reads x i = RData [] # rds"
  shows "process_loop x (Some i) w = None"
proof -
  obtain cm' where c: "coremodel_processfds (sr_fds x i) (sr_reads x i) (sr_writes x i) (r, cm) = Some (- ECONNRESET, r, cm')"
    using processfds_eof [OF assms(2-4)] assms(5,6) by metis
  show ?thesis
  proof (cases "client_leave i (r, cm') w")
    case None
    then show ?thesis using assms(1) c
      by (simp add: client_processfds_def process_loop.simps [of x "Some i" w])
  next
    case (Some w1)
    then have "client_processfds (sr_fds x i) (sr_reads x i) (sr_writes x i) i w = Some (- ECONNRESET, w1)"
      using assms(1) c by (simp add: client_processfds_def)
    then show ?thesis by (rule process_failed) simp
  qed
qed

section \<open>Adding a client\<close>

lemma host_push_put [simp]: "h_txbufs (host_push p (host_put d h)) = h_txbufs (host_push p h)"
  by (simp add: host_push_def)

text \<open>The attach of a client whose connection is new, answered in the second round.\<close>

lemma attach_links:
  assumes w: "client_enter i w = Some (ring_init, cm)" "ww_if w i = None" "cm_ok cm" "cm_ifs cm = []" "cm_conn_if cm = None"
      "\<not> cm_query cm" "0 \<le> cm_fd cm" "\<not> cm_defer cm" "h_oom (cm_host cm) = []" "sw_client (ww_state w) i = Some cl"
    and q: "wf_packet (attach_request COREMODEL_ETH iface 0 None 0)"
      "write_loop ws (h_txbufs (host_push (attach_request COREMODEL_ETH iface 0 None 0) (cm_host cm))) = (None, out, [])"
    and p: "pk_conn p = CONN_QUERY" "pk_pkt p = PKT_QUERY_RSP_CONN" "pk_hflag p \<noteq> CONN_QUERY" "wf_packet p"
      "pk_data p = le_bytes 4 cred"
  shows "\<exists>w' c h. client_attach i (Some iface) (attach_rounds ws p) w = Some (Inr (0, w')) \<and>
    client_ready i w' \<and> c_conn c = pk_hflag p \<and> c_cred c = cred \<and> h_oom h = [] \<and> h_txbufs h = [] \<and>
    ww_state w' = (set_client i (cl\<lparr>cl_conn := Some h, cl_handle := Some c, cl_next := sw_head (ww_state w)\<rparr>) (ww_state w))
      \<lparr>sw_head := Some i, sw_nclients := sw_nclients (ww_state w) + 1\<rparr> \<and>
    ww_now w' = ww_now w \<and> ww_next w' = ww_next w \<and> ww_proc w' = ww_proc w \<and> (\<forall>j. j \<noteq> i \<longrightarrow> ww_conn w' j = ww_conn w j \<and> ww_if w' j = ww_if w j)"
proof -
  let ?f = "EthF (switch_eth_func (ww_now w))" and ?x = "cm_next cm"
  let ?cif = "attached_if COREMODEL_ETH ?f i (pk_hflag p) cred"
  obtain r' cm' where a: "coremodel_attach_int COREMODEL_ETH iface 0 None ?f i 0 (ww_now w) (attach_rounds ws p) (ring_init, cm) =
      Some (Inr (Some ?x, r', cm'))" "ring_ok r'" "ring_bytes r' = []" "cm_ifs cm' = [?x]"
    "cm_heap cm' = (cm_heap cm)(?x \<mapsto> ?cif)" "h_usr (cm_host cm') = h_usr (cm_host cm)" "cm_conn_if cm' = None"
    "cm_fd cm' = cm_fd cm" "h_txbufs (cm_host cm') = []" "h_oom (cm_host cm') = []"
    using attach_answered_state [OF w(6-9) ring_init_ok ring_init_bytes q p, of ?f i "ww_now w"] w(4) by auto
  have u: "h_usr (cm_host cm') = ww_state w"
    using w(1,2) a(6) by (auto simp: client_enter_def Let_def split: Option.bind_split_asm)
  have ok: "cm_ok cm'" using attach_int_safe [OF w(3,5) ring_init_ok q(1) a(1)] by simp
  let ?w = "w\<lparr>ww_if := (ww_if w)(i := Some ?x)\<rparr>" and ?c = "if_core ?cif"
  let ?cl = "cl\<lparr>cl_conn := Some (host_put () (cm_host cm')), cl_handle := Some ?c\<rparr>"
  let ?w1 = "?w\<lparr>ww_state := set_client i ?cl (ww_state w), ww_conn := (ww_conn w)(i \<mapsto> (r', cm'))\<rparr>"
  have l: "client_leave i (r', cm') ?w = Some ?w1" using u w(10) a(5) by (simp add: client_leave_def Let_def)
  let ?st = "(set_client i (?cl\<lparr>cl_next := sw_head (ww_state w)\<rparr>) (ww_state ?w1))
    \<lparr>sw_head := Some i, sw_nclients := sw_nclients (ww_state w) + 1\<rparr>"
  let ?w2 = "?w1\<lparr>ww_state := ?st\<rparr>"
  have k: "client_link i (ww_state ?w1) = Some ?st" by (simp add: client_link_def set_client_def)
  have e: "client_attach i (Some iface) (attach_rounds ws p) w = Some (Inr (0, ?w2))"
    using w(1) a(1) l k by (simp add: client_attach_def coremodel_attach_eth_def)
  have "client_enter i ?w2 = Some (r', cm'\<lparr>cm_host := host_put ?st (cm_host cm'),
      cm_heap := (cm_heap cm')(?x \<mapsto> ?cif\<lparr>if_core := ?c, if_func := ?f\<rparr>)\<rparr>)"
    using a(5) by (simp add: client_enter_def set_client_def Let_def)
  moreover have "conn_ready i ?x (r', cm'\<lparr>cm_host := host_put ?st (cm_host cm'),
      cm_heap := (cm_heap cm')(?x \<mapsto> ?cif\<lparr>if_core := ?c, if_func := ?f\<rparr>)\<rparr>)"
    using a w(7) ok p(3) by (auto simp: conn_ready_def cm_ok_def attached_if_def new_if_def)
  ultimately have "client_ready i ?w2" by (auto simp: client_ready_def)
  moreover have "c_conn ?c = pk_hflag p" "c_cred ?c = cred" by (simp_all add: attached_if_def)
  moreover have "?st = (set_client i (cl\<lparr>cl_conn := Some (host_put () (cm_host cm')), cl_handle := Some ?c,
      cl_next := sw_head (ww_state w)\<rparr>) (ww_state w))\<lparr>sw_head := Some i, sw_nclients := sw_nclients (ww_state w) + 1\<rparr>"
    by (simp add: set_client_def)
  ultimately show ?thesis using e a(9,10)
    by (intro exI [of _ ?w2] exI [of _ ?c] exI [of _ "host_put () (cm_host cm')"]) simp
qed

lemma set_client_again [simp]: "set_client i cl (set_client i cl' st) = set_client i cl st"
  by (simp add: set_client_def)

lemma plain_decimal: "plain_field (decimal n)"
proof -
  have "b \<noteq> 0 \<and> b \<noteq> 0x22" if "b \<in> set (decimal n)" for b
  proof -
    from bspec [OF decimal_digits that] obtain d where d: "d < 10" "b = of_nat (48 + d)" by (elim exE conjE)
    have "unat b = 48 + d" unfolding d(2) by (rule unat_digit [OF d(1)])
    then have "unat b \<noteq> 0 \<and> unat b \<noteq> 34" by presburger
    then show ?thesis by (auto simp del: unat_eq_zero unsigned_eq_0_iff)
  qed
  then show ?thesis by (auto simp: plain_field_def)
qed

text \<open>A new client at the head of the list, with an empty table, keeps the switch well formed.\<close>

lemma linked_ok:
  assumes "switch_ok is tab st" "i \<notin> set is" "sw_client st' = (sw_client st)(i \<mapsto> cl)" "sw_head st' = Some i"
    "sw_mac st' = sw_mac st" "sw_next st' = sw_next st" "cl_next cl = sw_head st" "cl_me cl = None" "cl_nme cl = 0"
  shows "switch_ok (i # is) (tab(i := [])) st'"
proof -
  have "chain (sw_client st') cl_next (sw_head st) is"
    by (rule chain_cong [of "sw_client st"]) (use assms in \<open>auto simp: switch_ok_def\<close>)
  then show ?thesis using assms by (auto simp: switch_ok_def)
qed

definition argument_of :: "byte list \<Rightarrow> nat \<Rightarrow> byte list \<Rightarrow> byte list" where
  "argument_of host n iface = join 0x2F (map (field_text 0x2F) [host, decimal n, iface])"

text \<open>
  The argument with a host, a port and the name of an interface connects to that host and port, attaches
  to that interface, and puts the client in front of the others, ready and with an empty table.
\<close>

lemma client_added:
  assumes w: "switch_ok is tab (ww_state w)" "ww_next w \<notin> set is"
    and f: "plain_field host" "length host < 250" "plain_field iface"
    and e: "env_opens e (ww_proc w) host n rp wp fd"
    and q: "wf_packet (attach_request COREMODEL_ETH iface 0 None 0)"
      "write_loop ws (h_txbufs (host_push (attach_request COREMODEL_ETH iface 0 None 0) (cm_host (snd (coremodel_init [] ()))))) =
        (None, out, [])"
    and p: "pk_conn p = CONN_QUERY" "pk_pkt p = PKT_QUERY_RSP_CONN" "pk_hflag p \<noteq> CONN_QUERY" "wf_packet p"
      "pk_data p = le_bytes 4 cred"
  shows "\<exists>w' c h. switch_client_add e [] [] (attach_rounds ws p) (argument_of host n iface) w = Some (Inr (0, w')) \<and>
    switch_ok (ww_next w # is) (tab(ww_next w := [])) (ww_state w') \<and>
    client_ready (ww_next w) w' \<and> client_conn (ww_next w) w' = Some (pk_hflag p) \<and>
    sw_port (ww_state w') (ww_next w) = Some (Some c, Some h) \<and> c_cred c = cred \<and> h_oom h = [] \<and>
    (\<forall>j \<in> set is. sw_client (ww_state w') j = sw_client (ww_state w) j) \<and> sw_mac (ww_state w') = sw_mac (ww_state w) \<and>
    sw_nclients (ww_state w') = sw_nclients (ww_state w) + 1 \<and> k_fds (ww_proc w') = fd # rp # wp # k_fds (ww_proc w) \<and>
    ww_next w' = Suc (ww_next w) \<and> ww_now w' = ww_now w"
proof -
  let ?i = "ww_next w" and ?cred = "argument_of host n iface"
  let ?v = "[Some host, Some (decimal n), Some iface]"
  have h: "0x3A \<notin> set host" "n < 65536" using e by (simp_all add: env_opens_def)
  have parse: "switch_parse_tuple ?cred TUPLE_NELM 0x2F [] = Some (Some ?v)"
    using parse_tuple_text [of "[host, decimal n, iface]" "0x2F" 3] f(1,3) plain_decimal by (simp add: argument_of_def)
  let ?cl = "client_calloc\<lparr>cl_name := Some ?cred, cl_tuple := Some ?v\<rparr>"
  let ?st = "set_client ?i ?cl (ww_state w)"
  have tg: "coremodel_mktarget ?v = host @ 0x3A # decimal n" by (rule mktarget_parts [OF h f(2)])
  define cm where "cm = (snd (coremodel_init [] ?st))\<lparr>cm_fd := fd, cm_wake_fd := rp\<rparr>"
  obtain k' where c: "coremodel_connect e [] ?st (Some (host @ 0x3A # decimal n)) (ww_proc w) = Inr ((ring_init, cm), k')"
    "k_fds k' = fd # rp # wp # k_fds (ww_proc w)" "0 \<le> fd"
    using connect_opened [OF e, of "[]" ?st] unfolding cm_def by blast
  have ok0: "cm_ok cm" by (simp add: cm_def coremodel_init_def cm_ok_def)
  let ?cl1 = "?cl\<lparr>cl_conn := Some (host_put () (cm_host cm))\<rparr>"
  let ?w1 = "w\<lparr>ww_next := Suc ?i, ww_state := set_client ?i ?cl1 ?st, ww_conn := (ww_conn w)(?i \<mapsto> (ring_init, cm)),
    ww_if := (ww_if w)(?i := None), ww_proc := k'\<rparr>"
  have en: "client_enter ?i ?w1 = Some (ring_init, cm\<lparr>cm_host := host_put (ww_state ?w1) (cm_host cm)\<rparr>)"
    by (simp add: client_enter_def set_client_def)
  let ?cm = "cm\<lparr>cm_host := host_put (ww_state ?w1) (cm_host cm)\<rparr>"
  have plain: "cm_ifs ?cm = []" "cm_conn_if ?cm = None" "\<not> cm_query ?cm" "0 \<le> cm_fd ?cm" "\<not> cm_defer ?cm" "h_oom (cm_host ?cm) = []"
    using c(3) by (simp_all add: cm_def coremodel_init_def)
  have "cm_host cm = host_put ?st (cm_host (snd (coremodel_init [] ())))" by (simp add: cm_def coremodel_init_def host_put_def)
  then have wl: "write_loop ws (h_txbufs (host_push (attach_request COREMODEL_ETH iface 0 None 0) (cm_host ?cm))) = (None, out, [])"
    using q(2) by simp
  have wi: "ww_if ?w1 ?i = None" and ok1: "cm_ok ?cm" and sc: "sw_client (ww_state ?w1) ?i = Some ?cl1"
    using ok0 by (simp_all add: set_client_def)
  obtain w' co h where w': "client_attach ?i (Some iface) (attach_rounds ws p) ?w1 = Some (Inr (0, w'))"
    "client_ready ?i w'" "c_conn co = pk_hflag p" "c_cred co = cred" "h_oom h = []"
    "ww_state w' = (set_client ?i (?cl1\<lparr>cl_conn := Some h, cl_handle := Some co, cl_next := sw_head (ww_state ?w1)\<rparr>) (ww_state ?w1))
      \<lparr>sw_head := Some ?i, sw_nclients := sw_nclients (ww_state ?w1) + 1\<rparr>"
    "ww_now w' = ww_now w" "ww_next w' = Suc ?i" "ww_proc w' = k'"
    using attach_links [OF en wi ok1 plain sc q(1) wl p] by auto
  have add: "switch_client_add e [] [] (attach_rounds ws p) ?cred w = Some (Inr (0, w'))"
    using parse tg c(1) w'(1) by (simp add: switch_client_add_def alloc_def Let_def)
  have "switch_ok (?i # is) (tab(?i := [])) (ww_state w')"
    by (rule linked_ok [OF w, of _ "?cl1\<lparr>cl_conn := Some h, cl_handle := Some co, cl_next := sw_head (ww_state w)\<rparr>"])
      (simp_all add: w'(6) set_client_def client_calloc_def)
  moreover have "client_conn ?i w' = Some (pk_hflag p)" using w'(3) by (simp add: client_conn_def w'(6) set_client_def)
  moreover have "sw_port (ww_state w') ?i = Some (Some co, Some h)" by (simp add: sw_port_def port_of_def w'(6) set_client_def)
  moreover have "\<forall>j \<in> set is. sw_client (ww_state w') j = sw_client (ww_state w) j"
    using w(2) by (auto simp: w'(6) set_client_def)
  moreover have "sw_mac (ww_state w') = sw_mac (ww_state w)" "sw_nclients (ww_state w') = sw_nclients (ww_state w) + 1"
    by (simp_all add: w'(6) set_client_def)
  ultimately show ?thesis using add w'(2,4,5,7-9) c(2) by (intro exI [of _ w'] exI [of _ co] exI [of _ h]) simp
qed

section \<open>An argument that is refused\<close>

lemma unlink_absent:
  "chain (sw_client st) cl_next cur is \<Longrightarrow> get_link pcli st = Some cur \<Longrightarrow> i \<notin> set is \<Longrightarrow>
     unlink_client (Some i) pcli st = Some st"
proof (induction "is" arbitrary: cur pcli)
  case Nil
  then show ?case by (simp add: unlink_client.simps [of "Some i" pcli st])
next
  case (Cons x xs)
  then obtain c where c: "cur = Some x" "sw_client st x = Some c" "chain (sw_client st) cl_next (cl_next c) xs" by auto
  have "unlink_client (Some i) (Some x) st = Some st"
    using Cons.IH [OF c(3)] c(2) Cons.prems(3) by (simp add: get_link_def)
  then show ?case using Cons.prems(2,3) c(1) by (simp add: unlink_client.simps [of "Some i" pcli st])
qed

text \<open>A client without addresses, interface and connection is only taken back, and counted off.\<close>

lemma free_unlinked:
  assumes "switch_ok is tab (ww_state w)" "i \<notin> set is" "sw_client (ww_state w) i = Some cl"
    "cl_me cl = None" "cl_handle cl = None" "cl_conn cl = None"
  shows "client_free (Some i) w = Some (w\<lparr>ww_state := (ww_state w)\<lparr>sw_client := (sw_client (ww_state w))(i := None),
    sw_nclients := sw_nclients (ww_state w) - 1\<rparr>\<rparr>)"
proof -
  have "unlink_client (Some i) None (ww_state w) = Some (ww_state w)"
    using unlink_absent [of "ww_state w" "sw_head (ww_state w)" "is" None i] assms(1,2) by (simp add: switch_ok_def get_link_def)
  moreover have "free_macs i (ww_state w) = Some (ww_state w)"
    using assms(3,4) by (simp add: free_macs.simps [of i "ww_state w"])
  ultimately show ?thesis using assms(3-6)
    by (simp add: client_free_def client_detach_def client_disconnect_def Let_def)
qed

text \<open>
  A text of another number of fields is refused, unless there are more than four, which overrun the
  array of places. A refused client was never counted, but is counted off: without another client
  the count becomes the largest one, which \<open>main\<close> takes for some clients.
\<close>

lemma argument_refused:
  assumes "switch_ok is tab (ww_state w)" "ww_next w \<notin> set is" "sw_client (ww_state w) (ww_next w) = None"
    and "fs \<noteq> []" "\<forall>f \<in> set fs. plain_field f" "length fs \<noteq> TUPLE_NELM"
  shows "switch_client_add e [] moom rs (join 0x2F (map (field_text 0x2F) fs)) w =
    (if length fs \<le> TUPLE_NELM + 1 then Some (Inr (- 1, w\<lparr>ww_next := Suc (ww_next w),
       ww_state := (ww_state w)\<lparr>sw_nclients := sw_nclients (ww_state w) - 1\<rparr>\<rparr>)) else None)"
proof -
  let ?i = "ww_next w" and ?cred = "join 0x2F (map (field_text 0x2F) fs)"
  let ?cl = "client_calloc\<lparr>cl_name := Some ?cred\<rparr>"
  let ?st = "set_client ?i ?cl (ww_state w)"
  have p: "switch_parse_tuple ?cred TUPLE_NELM 0x2F [] = (if length fs \<le> TUPLE_NELM + 1 then Some None else None)"
    using parse_tuple_text [OF assms(4,5), of "0x2F" TUPLE_NELM] assms(6) by simp
  have "chain (sw_client ?st) cl_next (sw_head ?st) is"
    by (rule chain_cong [of "sw_client (ww_state w)"]) (use assms(1,2) in \<open>auto simp: switch_ok_def set_client_def\<close>)
  then have ok: "switch_ok is tab ?st" using assms(1,2) by (auto simp: switch_ok_def set_client_def)
  have idem: "(sw_client (ww_state w))(?i := None) = sw_client (ww_state w)" using assms(3) by (simp add: fun_upd_idem)
  have "client_free (Some ?i) (w\<lparr>ww_state := ?st, ww_next := Suc ?i\<rparr>) = Some (w\<lparr>ww_next := Suc ?i,
      ww_state := ?st\<lparr>sw_client := (sw_client ?st)(?i := None), sw_nclients := sw_nclients ?st - 1\<rparr>\<rparr>)"
    using free_unlinked [of "is" tab "w\<lparr>ww_state := ?st, ww_next := Suc ?i\<rparr>" ?i ?cl] ok assms(2)
    by (simp add: set_client_def client_calloc_def)
  moreover have "?st\<lparr>sw_client := (sw_client ?st)(?i := None), sw_nclients := sw_nclients ?st - 1\<rparr> =
      (ww_state w)\<lparr>sw_nclients := sw_nclients (ww_state w) - 1\<rparr>"
    using idem by (cases "ww_state w") (simp add: set_client_def)
  ultimately show ?thesis using p by (simp add: switch_client_add_def alloc_def client_cleanup_def Let_def)
qed

end
