(* ===== verification/Ds3234.thy ===== *)
theory Ds3234
  imports Ds3231
begin

text \<open>
  \<open>examples/spi-ds3234-rtc/spi-ds3234.c\<close>: the clock of \<open>Ds3231\<close> with 256 bytes of memory
  behind the SPI interface. \<open>localtime\<close> is a parameter and the results of \<open>time\<close> are the
  list \<open>d4_clock\<close>, as for the DS3231; the memory is whatever \<open>malloc\<close> returned.
\<close>

section \<open>State\<close>

record ds3234_state =
  d4_clock :: "int list"
  d4_system_time :: int
  d4_index :: u8
  d4_twelve_hour_flag :: u8
  d4_Alarm1_Sec :: u8
  d4_Alarm1_Min :: u8
  d4_Alarm1_Hours :: u8
  d4_Alarm1_DayDate :: u8
  d4_Alarm2_Min :: u8
  d4_Alarm2_Hours :: u8
  d4_Alarm2_DayDate :: u8
  d4_control :: u8
  d4_status :: u8
  d4_aging :: u8
  SRAM_Address :: u8
  SRAM_Data :: "byte list"

definition ds3234_init :: "int \<Rightarrow> int list \<Rightarrow> byte list \<Rightarrow> ds3234_state" where
  "ds3234_init now clock mem =
    \<lparr>d4_clock = clock, d4_system_time = now, d4_index = 0, d4_twelve_hour_flag = 0,
     d4_Alarm1_Sec = 0, d4_Alarm1_Min = 0, d4_Alarm1_Hours = 0, d4_Alarm1_DayDate = 1,
     d4_Alarm2_Min = 0, d4_Alarm2_Hours = 0, d4_Alarm2_DayDate = 1,
     d4_control = 0x1C, d4_status = 0x88, d4_aging = 0, SRAM_Address = 0, SRAM_Data = mem\<rparr>"

section \<open>Chip select: reading the clock and raising alarms\<close>

definition d4_alarm_hours :: "ds3234_state \<Rightarrow> tm \<Rightarrow> u8 \<Rightarrow> bool" where
  "d4_alarm_hours st t hours =
    (if d4_twelve_hour_flag st > 0 then
       if tm_hour t > 11 then uint (hours AND 0x7F) = format_5bit_bcd (tm_hour t - 12) + 0x60
       else uint (hours AND 0x7F) = format_5bit_bcd (tm_hour t - 12) + 0x40
     else uint (hours AND 0x7F) = format_6bit_bcd (tm_hour t))"

definition d4_alarm1 :: "ds3234_state \<Rightarrow> int \<Rightarrow> tm \<Rightarrow> bool" where
  "d4_alarm1 st old_second t =
    (if d4_Alarm1_Sec st AND 0x80 > 0 then old_second \<noteq> format_7bit_bcd (tm_sec t)
     else if d4_Alarm1_Min st AND 0x80 > 0 then uint (d4_Alarm1_Sec st AND 0x7F) = format_7bit_bcd (tm_sec t)
     else if d4_Alarm1_Hours st AND 0x80 > 0 then uint (d4_Alarm1_Min st AND 0x7F) = format_7bit_bcd (tm_min t)
     else if d4_Alarm1_DayDate st AND 0x80 > 0 then d4_alarm_hours st t (d4_Alarm1_Hours st)
     else if d4_Alarm1_DayDate st AND 0x40 > 0 then uint (d4_Alarm1_DayDate st AND 0x3F) = tm_wday t + 1
     else uint (d4_Alarm1_DayDate st AND 0x3F) = format_6bit_bcd (tm_mday t))"

definition d4_alarm2 :: "ds3234_state \<Rightarrow> int \<Rightarrow> tm \<Rightarrow> bool" where
  "d4_alarm2 st old_minute t =
    (if d4_Alarm2_Min st AND 0x80 > 0 then old_minute \<noteq> format_7bit_bcd (tm_min t)
     else if d4_Alarm2_Hours st AND 0x80 > 0 then uint (d4_Alarm2_Min st AND 0x7F) = format_7bit_bcd (tm_min t)
     else if d4_Alarm2_DayDate st AND 0x80 > 0 then d4_alarm_hours st t (d4_Alarm2_Hours st)
     else if d4_Alarm2_DayDate st AND 0x40 > 0 then uint (d4_Alarm2_DayDate st AND 0x3F) = tm_wday t + 1
     else uint (d4_Alarm2_DayDate st AND 0x3F) = format_6bit_bcd (tm_mday t))"

definition spi_ds3234_cs :: "(int \<Rightarrow> tm) \<Rightarrow> u32 \<Rightarrow> ds3234_state \<Rightarrow> (unit \<times> ds3234_state) option" where
  "spi_ds3234_cs localtime csel st =
    (if csel = 0 then Some ((), st)
     else
       let old = localtime (d4_system_time st);
           st = (case d4_clock st of [] \<Rightarrow> st | now # ts \<Rightarrow> st\<lparr>d4_system_time := now, d4_clock := ts\<rparr>);
           t = localtime (d4_system_time st);
           st = (if d4_alarm1 st (tm_sec old) t then st\<lparr>d4_status := d4_status st OR 1\<rparr> else st);
           st = (if d4_alarm2 st (tm_min old) t then st\<lparr>d4_status := d4_status st OR 2\<rparr> else st) in
       Some ((), st))"

section \<open>Registers\<close>

text \<open>
  A write returns the byte written, but in the status register. \<open>ADDR\<close> 0xD has alarm 1's
  day, as in the source.
\<close>

definition access_status :: "ds3234_state \<Rightarrow> bool \<Rightarrow> u8 \<Rightarrow> u8 \<times> ds3234_state" where
  "access_status st write data =
    (if write then
       let s = (d4_status st AND 0xF7) OR (data AND 8);
           s = (if data AND 2 = 0 then s AND 0xFD else s);
           s = (if data AND 1 = 0 then s AND 0xFE else s) in
       (s, st\<lparr>d4_status := s\<rparr>)
     else (d4_status st, st))"

definition access_hours :: "(int \<Rightarrow> tm) \<Rightarrow> ds3234_state \<Rightarrow> bool \<Rightarrow> u8 \<Rightarrow> u8 \<times> ds3234_state" where
  "access_hours localtime st write data =
    (let t = localtime (d4_system_time st) in
     if write then (data, st\<lparr>d4_twelve_hour_flag := (if data AND 0x40 > 0 then 1 else 0)\<rparr>)
     else if d4_twelve_hour_flag st > 0 then
       (word_of_int (if tm_hour t > 11 then format_5bit_bcd (tm_hour t - 12) + 0x60
                     else format_5bit_bcd (tm_hour t - 12) + 0x40), st)
     else (word_of_int (format_6bit_bcd (tm_hour t)), st))"

definition access_sram :: "ds3234_state \<Rightarrow> bool \<Rightarrow> u8 \<Rightarrow> (u8 \<times> ds3234_state) option" where
  "access_sram st write data =
    (let a = unat (SRAM_Address st) in
     if length (SRAM_Data st) \<le> a then None
     else
       let (data, st) = (if write then (data, st\<lparr>SRAM_Data := (SRAM_Data st)[a := data]\<rparr>)
                         else (SRAM_Data st ! a, st)) in
       Some (data, st\<lparr>SRAM_Address := of_nat ((a + 1) mod 0xFF)\<rparr>))"

definition access_reg ::
  "(int \<Rightarrow> tm) \<Rightarrow> ds3234_state \<Rightarrow> nat \<Rightarrow> bool \<Rightarrow> u8 \<Rightarrow> (u8 \<times> ds3234_state) option" where
  "access_reg localtime st addr write data =
    (let t = localtime (d4_system_time st) in
     if addr = 0 then Some (if write then data else word_of_int (format_7bit_bcd (tm_sec t)), st)
     else if addr = 1 then Some (if write then data else word_of_int (format_7bit_bcd (tm_min t)), st)
     else if addr = 2 then Some (access_hours localtime st write data)
     else if addr = 3 then Some (if write then data else word_of_int (tm_wday t + 1), st)
     else if addr = 4 then Some (if write then data else word_of_int (format_6bit_bcd (tm_mday t)), st)
     else if addr = 5 then
       Some (if write then data else word_of_int ((tm_year t sdiv 100) * 128 + format_5bit_bcd (tm_mon t + 1)), st)
     else if addr = 6 then
       Some (if write then data else word_of_int (((tm_year t smod 100) sdiv 10) * 16 + tm_year t smod 10), st)
     else if addr = 7 then Some (if write then (data, st\<lparr>d4_Alarm1_Sec := data\<rparr>) else (d4_Alarm1_Sec st, st))
     else if addr = 8 then Some (if write then (data, st\<lparr>d4_Alarm1_Min := data\<rparr>) else (d4_Alarm1_Min st, st))
     else if addr = 9 then Some (if write then (data, st\<lparr>d4_Alarm1_Hours := data\<rparr>) else (d4_Alarm1_Hours st, st))
     else if addr = 0xA then Some (if write then (data, st\<lparr>d4_Alarm1_DayDate := data\<rparr>) else (d4_Alarm1_DayDate st, st))
     else if addr = 0xB then Some (if write then (data, st\<lparr>d4_Alarm2_Min := data\<rparr>) else (d4_Alarm2_Min st, st))
     else if addr = 0xC then Some (if write then (data, st\<lparr>d4_Alarm2_Hours := data\<rparr>) else (d4_Alarm2_Hours st, st))
     else if addr = 0xD then Some (if write then (data, st\<lparr>d4_Alarm1_DayDate := data\<rparr>) else (d4_Alarm1_DayDate st, st))
     else if addr = 0xE then Some (if write then (data, st\<lparr>d4_control := data AND 0x1F\<rparr>) else (d4_control st, st))
     else if addr = 0xF then Some (access_status st write data)
     else if addr = 0x10 then Some (if write then (data, st\<lparr>d4_aging := data\<rparr>) else (d4_aging st, st))
     else if addr = 0x11 then Some (0x19, st)
     else if addr = 0x12 then Some (0x40, st)
     else if addr = 0x18 then Some (if write then (data, st\<lparr>SRAM_Address := data\<rparr>) else (SRAM_Address st, st))
     else if addr = 0x19 then access_sram st write data
     else Some (data, st))"

section \<open>Transfers\<close>

text \<open>The loops over \<open>wrdata\<close> from \<open>idx\<close> on, with the register each byte goes to.\<close>

fun access_burst ::
  "(int \<Rightarrow> tm) \<Rightarrow> (nat \<Rightarrow> nat) \<Rightarrow> bool \<Rightarrow> nat \<Rightarrow> byte list \<Rightarrow> ds3234_state \<Rightarrow> (byte list \<times> ds3234_state) option" where
  "access_burst localtime addr write idx [] st = Some ([], st)"
| "access_burst localtime addr write idx (b # bs) st = do {
     (r, st) \<leftarrow> access_reg localtime st (addr idx) write b;
     (rs, st) \<leftarrow> access_burst localtime addr write (Suc idx) bs st;
     Some (r # rs, st) }"

definition spi_ds3234_xfr ::
  "(int \<Rightarrow> tm) \<Rightarrow> byte list \<Rightarrow> ds3234_state \<Rightarrow> ((int \<times> byte list) \<times> ds3234_state) option" where
  "spi_ds3234_xfr localtime wrdata st =
    (case wrdata of
       [] \<Rightarrow> None
     | w # ws \<Rightarrow>
         let write = (w AND 0x80 \<noteq> 0); addr = unat (w AND 0x7F); len = int (length wrdata) in
         if addr < 0x13 \<or> addr = 0x19 then do {
           (r, st) \<leftarrow> (if \<not> write \<and> ws = [] then access_reg localtime st addr write w else Some (0, st));
           (rs, st) \<leftarrow> access_burst localtime
              (\<lambda>idx. if addr < 0x13 then (addr + idx - 1) mod 0x13 else addr) write 1 ws st;
           Some ((len, r # rs), st) }
         else if addr = 0x18 then
           (case ws of
              [] \<Rightarrow> do {
                (r, st) \<leftarrow> (if write then Some (0, st) else access_reg localtime st addr write w);
                Some ((len, [r]), st) }
            | v # vs \<Rightarrow> do {
                (r, st) \<leftarrow> access_reg localtime st addr write v;
                Some ((len, 0 # r # map (\<lambda>_. 0) vs), st) })
         else Some ((len, map (\<lambda>idx. 0x30 + (of_nat idx AND 63)) [0..<length wrdata]), st))"

section \<open>The clock meets the SPI contract\<close>

definition sram_ok :: "ds3234_state \<Rightarrow> bool" where
  "sram_ok st \<longleftrightarrow> length (SRAM_Data st) = 256"

text \<open>What no access to a register changes: the size of the memory, and alarm 2's day.\<close>

lemma access_reg_frame:
  assumes "access_reg lt st addr wr b = Some (r, st')"
  shows "length (SRAM_Data st') = length (SRAM_Data st) \<and> d4_Alarm2_DayDate st' = d4_Alarm2_DayDate st"
  using assms unfolding access_reg_def
  by (auto simp: access_status_def access_hours_def access_sram_def Let_def split: if_split_asm)

lemma access_reg_some:
  assumes "sram_ok st"
  shows "\<exists>r st'. access_reg lt st addr wr b = Some (r, st') \<and> sram_ok st'"
proof -
  have "\<not> length (SRAM_Data st) \<le> unat (SRAM_Address st)"
    using unat_u8_less [of "SRAM_Address st"] assms by (simp add: sram_ok_def)
  then have "access_reg lt st addr wr b \<noteq> None"
    unfolding access_reg_def access_sram_def Let_def by (simp split: prod.split)
  then obtain r st' where "access_reg lt st addr wr b = Some (r, st')" by auto
  with access_reg_frame [OF this] assms show ?thesis by (simp add: sram_ok_def)
qed

lemma access_burst_frame:
  "access_burst lt f wr idx bs st = Some (rs, st') \<Longrightarrow>
     length (SRAM_Data st') = length (SRAM_Data st) \<and> d4_Alarm2_DayDate st' = d4_Alarm2_DayDate st"
  by (induction bs arbitrary: idx st rs) (auto split: Option.bind_split_asm dest!: access_reg_frame)

lemma access_burst_some:
  "sram_ok st \<Longrightarrow> \<exists>rs st'. access_burst lt f wr idx bs st = Some (rs, st') \<and> length rs = length bs \<and> sram_ok st'"
proof (induction bs arbitrary: idx st)
  case Nil
  then show ?case by simp
next
  case (Cons b bs)
  obtain r st1 where "access_reg lt st (f idx) wr b = Some (r, st1)" "sram_ok st1"
    using access_reg_some [OF Cons.prems] by blast
  then show ?case using Cons.IH [of st1 "Suc idx"] by auto
qed

lemma ds3234_xfr_some:
  assumes "sram_ok st" "bs \<noteq> []"
  shows "\<exists>out st'. spi_ds3234_xfr lt bs st = Some ((int (length bs), out), st') \<and> length out = length bs \<and> sram_ok st'"
proof -
  obtain w ws where bs: "bs = w # ws" using assms(2) by (cases bs) auto
  define wr where "wr = (w AND 0x80 \<noteq> 0)"
  define addr where "addr = unat (w AND 0x7F)"
  note def = spi_ds3234_xfr_def bs Let_def wr_def [symmetric] addr_def [symmetric]
  consider (regs) "addr < 0x13 \<or> addr = 0x19" | (sram) "\<not> (addr < 0x13 \<or> addr = 0x19)" "addr = 0x18"
    | (other) "\<not> (addr < 0x13 \<or> addr = 0x19)" "addr \<noteq> 0x18" by blast
  then show ?thesis
  proof cases
    case regs
    obtain r st1 where r: "(if \<not> wr \<and> ws = [] then access_reg lt st addr wr w else Some (0, st)) = Some (r, st1)"
      "sram_ok st1"
      using access_reg_some [OF assms(1), of lt addr wr w] assms(1) by (cases "\<not> wr \<and> ws = []") auto
    obtain rs st2 where "access_burst lt (\<lambda>idx. if addr < 0x13 then (addr + idx - 1) mod 0x13 else addr) wr 1 ws st1
        = Some (rs, st2)" "length rs = length ws" "sram_ok st2"
      using access_burst_some [OF r(2)] by blast
    then show ?thesis using regs r(1) by (simp add: def)
  next
    case sram
    then show ?thesis
      using access_reg_some [OF assms(1), of lt addr wr w] access_reg_some [OF assms(1), of lt addr wr "hd ws"] assms(1)
      by (cases ws; cases wr) (auto simp: def)
  next
    case other
    then show ?thesis using assms(1) by (simp add: def)
  qed
qed

lemma ds3234_cs_some: "\<exists>st'. spi_ds3234_cs lt csel st = Some ((), st') \<and> SRAM_Data st' = SRAM_Data st \<and>
    d4_Alarm2_DayDate st' = d4_Alarm2_DayDate st"
  by (simp add: spi_ds3234_cs_def Let_def split: list.split)

interpretation ds3234: spi_device "spi_ds3234_cs lt" "spi_ds3234_xfr lt" sram_ok for lt
proof
  fix st n
  assume "sram_ok st"
  with ds3234_cs_some [of lt n st] show "\<exists>st'. spi_ds3234_cs lt n st = Some ((), st') \<and> sram_ok st'"
    by (auto simp: sram_ok_def)
next
  fix st and bs :: "byte list"
  assume "sram_ok st" "bs \<noteq> []"
  then show "\<exists>out st'. spi_ds3234_xfr lt bs st = Some ((int (length bs), out), st') \<and> length out = length bs \<and> sram_ok st'"
    by (rule ds3234_xfr_some)
qed

section \<open>The same clock as the DS3231\<close>

definition ds_view :: "ds3234_state \<Rightarrow> ds3231_state" where
  "ds_view st = \<lparr>ds_clock = d4_clock st, system_time = d4_system_time st, ds_index = d4_index st, ds_start = 1,
     twelve_hour_flag = d4_twelve_hour_flag st, Alarm1_Sec = d4_Alarm1_Sec st, Alarm1_Min = d4_Alarm1_Min st,
     Alarm1_Hours = d4_Alarm1_Hours st, Alarm1_DayDate = d4_Alarm1_DayDate st, Alarm2_Min = d4_Alarm2_Min st,
     Alarm2_Hours = d4_Alarm2_Hours st, Alarm2_DayDate = d4_Alarm2_DayDate st, ds_control = d4_control st,
     ds_status = d4_status st, ds_aging = d4_aging st\<rparr>"

lemma alarm_view: "alarm_hours (ds_view st) t hours = d4_alarm_hours st t hours"
  "alarm1 (ds_view st) old t = d4_alarm1 st old t" "alarm2 (ds_view st) old t = d4_alarm2 st old t"
  by (simp_all add: alarm_hours_def d4_alarm_hours_def hours_12_def alarm1_def d4_alarm1_def alarm2_def d4_alarm2_def
      alarm_day_def ds_view_def)

text \<open>Selecting the chip raises the alarms that a START raises at the DS3231, and reads the clock alike.\<close>

lemma cs_is_start:
  assumes "csel \<noteq> 0" "spi_ds3234_cs lt csel st = Some ((), st')"
  shows "i2c_ds3231_start lt (ds_view st) = Some (1, ds_view st')"
proof -
  define st1 where "st1 = (case d4_clock st of [] \<Rightarrow> st | now # ts \<Rightarrow> st\<lparr>d4_system_time := now, d4_clock := ts\<rparr>)"
  have v: "(case ds_clock (ds_view st) of [] \<Rightarrow> ds_view st
      | now # ts \<Rightarrow> (ds_view st)\<lparr>system_time := now, ds_clock := ts\<rparr>)\<lparr>ds_start := 1\<rparr> = ds_view st1"
    by (simp add: st1_def ds_view_def split: list.split)
  have u: "system_time (ds_view s) = d4_system_time s" "ds_status (ds_view s) = d4_status s"
    "(ds_view s)\<lparr>ds_status := x\<rparr> = ds_view (s\<lparr>d4_status := x\<rparr>)" for s x
    by (simp_all add: ds_view_def)
  show ?thesis
    using assms unfolding i2c_ds3231_start_def spi_ds3234_cs_def Let_def v st1_def [symmetric]
    by (auto simp: u alarm_view split: if_split_asm)
qed

section \<open>Registers and memory through the bus\<close>

text \<open>Alarm 2's day register cannot be set by any transfer.\<close>

lemma xfr_alarm2_day:
  assumes "spi_ds3234_xfr lt bs st = Some (out, st')"
  shows "d4_Alarm2_DayDate st' = d4_Alarm2_DayDate st"
  using assms unfolding spi_ds3234_xfr_def Let_def
  by (auto split: list.split_asm if_split_asm Option.bind_split_asm dest!: access_reg_frame access_burst_frame)

text \<open>A burst into the memory, and one out of it; the address wraps at 255, so byte 255 is left out.\<close>

lemma sram_write:
  "a < 255 \<Longrightarrow> a + length bs \<le> 255 \<Longrightarrow> sram_ok st \<Longrightarrow> SRAM_Address st = of_nat a \<Longrightarrow>
     access_burst lt (\<lambda>_. 0x19) True idx bs st = Some (bs, st\<lparr>
       SRAM_Data := take a (SRAM_Data st) @ bs @ drop (a + length bs) (SRAM_Data st),
       SRAM_Address := of_nat ((a + length bs) mod 255)\<rparr>)"
proof (induction bs arbitrary: a idx st)
  case Nil
  then show ?case by simp
next
  case (Cons b bs)
  have u: "unat (SRAM_Address st) = a" using Cons.prems by (simp add: unat_of_nat)
  let ?st = "st\<lparr>SRAM_Data := (SRAM_Data st)[a := b], SRAM_Address := of_nat ((a + 1) mod 255)\<rparr>"
  have st: "access_reg lt st 0x19 True b = Some (b, ?st)"
    using Cons.prems u by (simp add: access_reg_def access_sram_def sram_ok_def)
  show ?case
  proof (cases "bs = []")
    case True
    then show ?thesis using st Cons.prems by (simp add: sram_ok_def upd_conv_take_nth_drop)
  next
    case False
    then have a: "a + 1 < 255" using Cons.prems by (cases bs) auto
    let ?M = "SRAM_Data st"
    have l: "length ?M = 256" using Cons.prems by (simp add: sram_ok_def)
    then have e: "?M[a := b] = (take a ?M @ [b]) @ drop (Suc a) ?M"
      using a by (simp add: upd_conv_take_nth_drop)
    have t: "take (a + 1) (?M[a := b]) = take a ?M @ [b]" using a l unfolding e by simp
    have d: "drop (a + 1 + length bs) (?M[a := b]) = drop (a + length (b # bs)) ?M" using a by simp
    have "access_burst lt (\<lambda>_. 0x19) True (Suc idx) bs ?st = Some (bs, ?st\<lparr>
       SRAM_Data := take (a + 1) (SRAM_Data ?st) @ bs @ drop (a + 1 + length bs) (SRAM_Data ?st),
       SRAM_Address := of_nat ((a + 1 + length bs) mod 255)\<rparr>)"
      using Cons.prems a by (intro Cons.IH) (simp_all add: sram_ok_def)
    then have "access_burst lt (\<lambda>_. 0x19) True (Suc idx) bs ?st = Some (bs, st\<lparr>
       SRAM_Data := take a ?M @ (b # bs) @ drop (a + length (b # bs)) ?M,
       SRAM_Address := of_nat ((a + length (b # bs)) mod 255)\<rparr>)"
      using t d by simp
    then show ?thesis using st by simp
  qed
qed

lemma sram_read:
  "a < 255 \<Longrightarrow> a + length ws \<le> 255 \<Longrightarrow> sram_ok st \<Longrightarrow> SRAM_Address st = of_nat a \<Longrightarrow>
     access_burst lt (\<lambda>_. 0x19) False idx ws st = Some (take (length ws) (drop a (SRAM_Data st)), st\<lparr>
       SRAM_Address := of_nat ((a + length ws) mod 255)\<rparr>)"
proof (induction ws arbitrary: a idx st)
  case Nil
  then show ?case by simp
next
  case (Cons w ws)
  have u: "unat (SRAM_Address st) = a" using Cons.prems by (simp add: unat_of_nat)
  let ?st = "st\<lparr>SRAM_Address := of_nat ((a + 1) mod 255)\<rparr>"
  have st: "access_reg lt st 0x19 False w = Some (SRAM_Data st ! a, ?st)"
    using Cons.prems u by (simp add: access_reg_def access_sram_def sram_ok_def)
  have d: "drop a (SRAM_Data st) = SRAM_Data st ! a # drop (Suc a) (SRAM_Data st)"
    using Cons.prems by (simp add: sram_ok_def Cons_nth_drop_Suc)
  show ?case
  proof (cases "ws = []")
    case True
    then show ?thesis using st d by simp
  next
    case False
    then have a: "a + 1 < 255" using Cons.prems by (cases ws) auto
    have "access_burst lt (\<lambda>_. 0x19) False (Suc idx) ws ?st = Some (take (length ws) (drop (a + 1) (SRAM_Data ?st)),
        ?st\<lparr>SRAM_Address := of_nat ((a + 1 + length ws) mod 255)\<rparr>)"
      using Cons.prems a by (intro Cons.IH) (simp_all add: sram_ok_def)
    then show ?thesis using st d by simp
  qed
qed

text \<open>The transfers that reach the memory.\<close>

lemma xfr_sram_address: "spi_ds3234_xfr lt [0x98, b] st = Some ((2, [0, b]), st\<lparr>SRAM_Address := b\<rparr>)"
  by (simp add: spi_ds3234_xfr_def access_reg_def Let_def)

lemma xfr_sram_write:
  "spi_ds3234_xfr lt (0x99 # bs) st = (case access_burst lt (\<lambda>_. 0x19) True 1 bs st of
     None \<Rightarrow> None | Some (rs, st') \<Rightarrow> Some ((1 + int (length bs), 0 # rs), st'))"
  by (simp add: spi_ds3234_xfr_def Let_def split: option.split)

lemma xfr_sram_read:
  "ws \<noteq> [] \<Longrightarrow> spi_ds3234_xfr lt (0x19 # ws) st = (case access_burst lt (\<lambda>_. 0x19) False 1 ws st of
     None \<Rightarrow> None | Some (rs, st') \<Rightarrow> Some ((1 + int (length ws), 0 # rs), st'))"
  by (simp add: spi_ds3234_xfr_def Let_def split: option.split)

text \<open>What a master writes to the memory it reads back.\<close>

lemma sram_roundtrip:
  assumes "sram_ok st" "a < 255" "a + length bs \<le> 255" "length ws = length bs" "bs \<noteq> []"
  shows "\<exists>st1 st2 st3 st4.
    spi_ds3234_xfr lt [0x98, of_nat a] st = Some ((2, [0, of_nat a]), st1) \<and>
    spi_ds3234_xfr lt (0x99 # bs) st1 = Some ((1 + int (length bs), 0 # bs), st2) \<and>
    spi_ds3234_xfr lt [0x98, of_nat a] st2 = Some ((2, [0, of_nat a]), st3) \<and>
    spi_ds3234_xfr lt (0x19 # ws) st3 = Some ((1 + int (length bs), 0 # bs), st4)"
proof -
  let ?s1 = "st\<lparr>SRAM_Address := of_nat a\<rparr>"
  let ?m = "take a (SRAM_Data st) @ bs @ drop (a + length bs) (SRAM_Data st)"
  let ?s2 = "?s1\<lparr>SRAM_Data := ?m, SRAM_Address := of_nat ((a + length bs) mod 255)\<rparr>"
  let ?s3 = "?s2\<lparr>SRAM_Address := of_nat a\<rparr>"
  have w: "access_burst lt (\<lambda>_. 0x19) True 1 bs ?s1 = Some (bs, ?s2)"
    using sram_write [of a bs ?s1 lt 1] assms by (simp add: sram_ok_def)
  have ok3: "sram_ok ?s3" using assms by (simp add: sram_ok_def)
  have "take (length ws) (drop a ?m) = bs" using assms by (simp add: sram_ok_def)
  then have r: "access_burst lt (\<lambda>_. 0x19) False 1 ws ?s3 =
      Some (bs, ?s3\<lparr>SRAM_Address := of_nat ((a + length ws) mod 255)\<rparr>)"
    using sram_read [of a ws ?s3 lt 1] assms ok3 by simp
  have "ws \<noteq> []" using assms by auto
  then show ?thesis
    using w r assms(4) xfr_sram_address [of lt "of_nat a" st] xfr_sram_address [of lt "of_nat a" ?s2]
    by (intro exI [of _ ?s1] exI [of _ ?s2] exI [of _ ?s3]) (simp add: xfr_sram_write xfr_sram_read)
qed

end
