(* ===== verification/Cr3020.thy ===== *)
theory Cr3020
  imports Clients Ds3231
begin

text \<open>
  \<open>examples/can-cr3020-rtc/can-cr3020.c\<close>: a real-time clock on a CAN bus. The handle it sends
  with is the interface its callback runs on; \<open>localtime\<close> and the result \<open>now\<close> of \<open>time\<close>
  within a call are parameters, and so is the byte \<open>fresh\<close> of the memory \<open>malloc\<close> returns that
  one command sends without having set it. What it prints is not modelled.
\<close>

section \<open>State and frames\<close>

record cr3020_state =
  cr_initialized :: u8
  node_id :: u8
  alarm_day :: u8
  alarm_hour :: u8
  alarm_minute :: u8
  alarm_enabled :: u8

definition cr3020_init :: cr3020_state where
  "cr3020_init = \<lparr>cr_initialized = 0, node_id = 0x13, alarm_day = 0, alarm_hour = 0, alarm_minute = 0, alarm_enabled = 0\<rparr>"

definition cr_datalen :: "nat list" where
  "cr_datalen = [0, 1, 2, 3, 4, 5, 6, 7, 8, 12, 16, 20, 24, 32, 48, 64]"

definition cr_id :: "u64 \<Rightarrow> nat" where
  "cr_id ctrl = unat (drop_bit 36 ctrl AND 0x7FF)"

text \<open>The control word of a reply: an identifier and a length code.\<close>

definition cr_ctrl :: "u64 \<Rightarrow> u64 \<Rightarrow> u64" where
  "cr_ctrl ident dlc = push_bit 36 ident OR dlc"

text \<open>\<open>malloc\<close> of the reply's data, which is not checked, and the call that sends it.\<close>

definition cr_reply :: "u64 \<Rightarrow> byte list \<Rightarrow> (int, 'd) step" where
  "cr_reply ctrl txdata c h =
    (let (ok, h) = calloc h in
     if \<not> ok then None
     else do {
       (res, handle, h) \<leftarrow> coremodel_can_rx (Some c) (ctrl, 0) (Some txdata) h;
       c \<leftarrow> handle;
       Some (CAN_ACK, c, h) })"

section \<open>Commands\<close>

text \<open>Day, month with century, year, hour and minute; both time commands start with them.\<close>

definition cr_time :: "tm \<Rightarrow> byte list" where
  "cr_time t =
    (let mon = word_of_int (format_5bit_bcd (tm_mon t + 1)) :: u8;
         century = word_of_int (format_5bit_bcd (tm_year t sdiv 100)) :: u8 in
     [word_of_int (format_6bit_bcd (tm_mday t)), mon + push_bit 7 century,
      word_of_int (((tm_year t smod 100) sdiv 10) * 16 + tm_year t smod 10),
      word_of_int (format_6bit_bcd (tm_hour t)), word_of_int (format_7bit_bcd (tm_min t))])"

definition cr_set :: "tm \<Rightarrow> (int, cr3020_state) step" where
  "cr_set t c h = cr_reply (cr_ctrl (0x280 + ucast (node_id (h_usr h))) 6)
     (cr_time t @ [word_of_int (tm_wday t + 1)]) c h"

definition cr_request :: "tm \<Rightarrow> (int, cr3020_state) step" where
  "cr_request t c h = cr_reply (cr_ctrl (0x180 + ucast (node_id (h_usr h))) 8)
     (cr_time t @ [word_of_int (format_7bit_bcd (tm_sec t)), word_of_int (tm_wday t + 1), 0]) c h"

text \<open>An alarm is set relative to the present; the node's identifier may change with it.\<close>

definition cr_alarm_state :: "tm \<Rightarrow> byte list \<Rightarrow> cr3020_state \<Rightarrow> cr3020_state" where
  "cr_alarm_state t data st =
    (let st = (if data ! 0 < 7
               then st\<lparr>alarm_day := word_of_int (((tm_wday t - 1) + uint (data ! 0)) smod 7 + 1)\<rparr> else st);
         st = (if data ! 1 < 24
               then st\<lparr>alarm_hour := word_of_int ((tm_hour t + uint (data ! 1)) smod 24)\<rparr> else st);
         st = (if data ! 2 < 60
               then st\<lparr>alarm_minute := word_of_int ((tm_min t + uint (data ! 2)) smod 60)\<rparr> else st);
         st = (if data ! 3 = data ! 4 \<and> data ! 3 < 0x40 then st\<lparr>node_id := data ! 3\<rparr> else st) in
     if data ! 6 = 0 \<or> data ! 6 = 0xFF then st\<lparr>alarm_enabled := data ! 6\<rparr> else st)"

definition cr_alarm_set :: "tm \<Rightarrow> byte list \<Rightarrow> (int, cr3020_state) step" where
  "cr_alarm_set t data c h =
    (let st = cr_alarm_state t data (h_usr h) in
     cr_reply (cr_ctrl (0x480 + ucast (node_id st)) 7)
       [data ! 0, data ! 1, data ! 2, node_id st, node_id st, 2, alarm_enabled st] c (h\<lparr>h_usr := st\<rparr>))"

text \<open>
  The time to the alarm. The code stores the last byte into the frame it received, at an index
  that frame does not have, where it means the reply.
\<close>

definition cr_alarm_time :: "byte \<Rightarrow> tm \<Rightarrow> byte list \<Rightarrow> (int, cr3020_state) step" where
  "cr_alarm_time fresh t data c h =
    (let st = h_usr h;
         day = (if uint (alarm_day st) < tm_wday t then alarm_day st + 7 else alarm_day st);
         hour = (if uint (alarm_hour st) < tm_hour t then alarm_hour st + 24 else alarm_hour st);
         minute = (if uint (alarm_minute st) < tm_mday t then alarm_minute st + 60 else alarm_minute st) in
     do {
       _ \<leftarrow> write_at 6 [alarm_enabled st] data;
       cr_reply (cr_ctrl (0x380 + ucast (node_id st)) 7)
         [word_of_int (uint day - tm_wday t), word_of_int (format_6bit_bcd (uint hour - tm_hour t)),
          word_of_int (format_7bit_bcd (uint minute - tm_min t)), node_id st, node_id st, 2, fresh] c h })"

definition can_cr3020_receive ::
  "byte \<Rightarrow> (int \<Rightarrow> tm) \<Rightarrow> int \<Rightarrow> nat \<Rightarrow> u64 \<times> u64 \<Rightarrow> byte list \<Rightarrow> (int, cr3020_state) step" where
  "can_cr3020_receive fresh localtime now priv ctrl data c h =
    (if \<not> can_dlc (fst ctrl) < 16 then None
     else
       let dlen = cr_datalen ! can_dlc (fst ctrl); ident = cr_id (fst ctrl); st = h_usr h; t = localtime now in
       if length data < dlen then None
       else if bit (fst ctrl) 34 then Some (CAN_ACK, c, h)
       else if ident = 0x7FF \<and> dlen = 0 then
         let st = st\<lparr>cr_initialized := 1\<rparr> in
         cr_reply (cr_ctrl 0x7FE 2) [node_id st, 2] c (h\<lparr>h_usr := st\<rparr>)
       else if cr_initialized st = 0 then Some (CAN_ACK, c, h)
       else if ident = 0x300 + unat (node_id st) \<and> dlen = 6 then cr_set t c h
       else if ident = 0x200 + unat (node_id st) \<and> dlen = 0 then cr_request t c h
       else if ident = 0x500 + unat (node_id st) \<and> dlen = 7 then cr_alarm_set t data c h
       else if ident = 0x400 + unat (node_id st) \<and> dlen = 0 then cr_alarm_time fresh t data c h
       else Some (CAN_ACK, c, h))"

section \<open>The clock meets the CAN contract, but for one command\<close>

lemma cr_reply_some:
  assumes "length d = can_dlen ctrl" "h_oom h = []"
  shows "\<exists>c' h'. cr_reply ctrl d c h = Some (CAN_ACK, c', h') \<and> cb_frame c c' \<and> h_oom h' = [] \<and> h_usr h' = h_usr h"
proof (cases "c_ebusy c = 0")
  case True
  then show ?thesis using assms can_rx_sends [OF True, of "(ctrl, 0)" d h]
    by (simp add: cr_reply_def Let_def cb_frame_def)
next
  case False
  then show ?thesis using assms by (simp add: cr_reply_def can_rx_refuses cb_frame_def)
qed

lemma cr_reply_sends:
  assumes "length d = can_dlen ctrl" "h_oom h = []" "c_ebusy c = 0"
  shows "\<exists>c'. cr_reply ctrl d c h = Some (CAN_ACK, c', host_push (can_frame c' (ctrl, 0) d) h)"
  using assms can_rx_sends [OF assms(3), of "(ctrl, 0)" d h] by (simp add: cr_reply_def Let_def can_frame_def)

lemma can_dlc_ctrl: "dlc \<le> 0x7FF \<Longrightarrow> can_dlc (cr_ctrl ident dlc) = unat dlc"
proof -
  assume "dlc \<le> 0x7FF"
  moreover have "(push_bit 36 ident OR dlc) AND 0x7FF = dlc AND 0x7FF"
  proof (rule bit_word_eqI)
    have m: "(0x7FF :: u64) = mask 11" by (simp add: mask_eq_exp_minus_1)
    show "bit ((push_bit 36 ident OR dlc) AND 0x7FF) n = bit (dlc AND 0x7FF) n" if "n < LENGTH(64)" for n
      using that unfolding m by (auto simp: bit_simps)
  qed
  moreover have "dlc AND 0x7FF = take_bit 11 dlc" by (simp add: take_bit_eq_mask mask_eq_exp_minus_1)
  ultimately show ?thesis
    by (simp add: can_dlc_def cr_ctrl_def take_bit_word_eq_self word_le_nat_alt unsigned_take_bit_eq take_bit_nat_eq_self)
qed

lemma can_dlen_ctrl: "dlc \<le> 8 \<Longrightarrow> can_dlen (cr_ctrl ident dlc) = unat dlc"
proof -
  assume d: "dlc \<le> 8"
  then have u: "unat dlc \<in> {0, 1, 2, 3, 4, 5, 6, 7, 8}" by (simp add: word_le_nat_alt) arith
  have "dlc \<le> 0x7FF" using d by (simp add: word_le_nat_alt)
  then show ?thesis
    using u unfolding can_dlen_def Let_def can_dlc_ctrl [OF \<open>dlc \<le> 0x7FF\<close>] coremodel_can_datalen_def by auto
qed

lemma length_cr_time [simp]: "length (cr_time t) = 5"
  by (simp add: cr_time_def Let_def)

text \<open>Every frame with a classic length code but the one that asks for the time to the alarm.\<close>

definition cr_fits :: "u64 \<times> u64 \<Rightarrow> bool" where
  "cr_fits ctrl \<longleftrightarrow> can_dlc (fst ctrl) < 16 \<and>
     \<not> (can_dlen (fst ctrl) = 0 \<and> 0x400 \<le> cr_id (fst ctrl) \<and> cr_id (fst ctrl) < 0x500)"

lemma cr_datalen_len: "can_dlc ctrl < 16 \<Longrightarrow> cr_datalen ! can_dlc ctrl = can_dlen ctrl"
  by (simp add: can_dlen_def cr_datalen_def coremodel_can_datalen_def)

text \<open>The commands, as one step each: what is sent and what becomes of the state.\<close>

lemma cr_commands_some:
  assumes "h_oom h = []"
  shows "\<exists>c' h'. cr_set t c h = Some (CAN_ACK, c', h') \<and> cb_frame c c' \<and> h_oom h' = [] \<and> h_usr h' = h_usr h"
    "\<exists>c' h'. cr_request t c h = Some (CAN_ACK, c', h') \<and> cb_frame c c' \<and> h_oom h' = [] \<and> h_usr h' = h_usr h"
    "\<exists>c' h'. cr_alarm_set t data c h = Some (CAN_ACK, c', h') \<and> cb_frame c c' \<and> h_oom h' = [] \<and>
       h_usr h' = cr_alarm_state t data (h_usr h)"
proof -
  show "\<exists>c' h'. cr_set t c h = Some (CAN_ACK, c', h') \<and> cb_frame c c' \<and> h_oom h' = [] \<and> h_usr h' = h_usr h"
    "\<exists>c' h'. cr_request t c h = Some (CAN_ACK, c', h') \<and> cb_frame c c' \<and> h_oom h' = [] \<and> h_usr h' = h_usr h"
    unfolding cr_set_def cr_request_def by (rule cr_reply_some, simp_all add: can_dlen_ctrl assms)+
  define st where "st = cr_alarm_state t data (h_usr h)"
  have "\<exists>c' h'. cr_alarm_set t data c h = Some (CAN_ACK, c', h') \<and> cb_frame c c' \<and> h_oom h' = [] \<and>
      h_usr h' = h_usr (h\<lparr>h_usr := st\<rparr>)"
    unfolding cr_alarm_set_def Let_def st_def [symmetric]
    by (rule cr_reply_some) (simp_all add: can_dlen_ctrl assms)
  then show "\<exists>c' h'. cr_alarm_set t data c h = Some (CAN_ACK, c', h') \<and> cb_frame c c' \<and> h_oom h' = [] \<and>
      h_usr h' = cr_alarm_state t data (h_usr h)" by (simp add: st_def)
qed

lemma cr_receive_some:
  assumes "cr_fits ctrl" "length bs = can_dlen (fst ctrl)" "h_oom h = []"
  shows "\<exists>c' h'. can_cr3020_receive fresh lt now p ctrl bs c h = Some (CAN_ACK, c', h') \<and> cb_frame c c' \<and> h_oom h' = []"
proof -
  have d: "can_dlc (fst ctrl) < 16" "cr_datalen ! can_dlc (fst ctrl) = length bs"
    using assms by (simp_all add: cr_fits_def cr_datalen_len)
  have n: "\<not> (cr_id (fst ctrl) = 0x400 + unat (node_id (h_usr h)) \<and> bs = [])"
    using assms(1,2) unat_u8_less [of "node_id (h_usr h)"] by (auto simp: cr_fits_def)
  have i: "\<exists>c' h'. cr_reply (cr_ctrl 0x7FE 2) [x, 2] c (h\<lparr>h_usr := st\<rparr>) = Some (CAN_ACK, c', h') \<and> cb_frame c c' \<and>
      h_oom h' = []" for x st
    using cr_reply_some [of "[x, 2]" "cr_ctrl 0x7FE 2" "h\<lparr>h_usr := st\<rparr>" c] assms(3) by (auto simp: can_dlen_ctrl)
  note k = cr_commands_some(1,2) [OF assms(3), of "lt now" c] cr_commands_some(3) [OF assms(3), of "lt now" bs c]
  show ?thesis
    using d n i k assms(3)
    unfolding can_cr3020_receive_def Let_def by (auto simp: cb_frame_def)
qed

interpretation cr3020: can_node "can_cr3020_receive fresh lt now" cr_fits for fresh lt now
  by unfold_locales (use cr_receive_some in fastforce)

section \<open>The node and its answers\<close>

lemma push_usr: "coremodel_push_packet p data h = Some (e, h') \<Longrightarrow> h_usr h' = h_usr h"
  by (auto simp: coremodel_push_packet_def Let_def split: prod.split_asm if_split_asm Option.bind_split_asm
      dest: calloc_frame(5))

lemma can_rx_usr: "coremodel_can_rx c ctrl d h = Some (e, c', h') \<Longrightarrow> h_usr h' = h_usr h"
  by (auto simp: coremodel_can_rx_def push_ignoring_def Let_def
      split: option.split_asm if_split_asm Option.bind_split_asm dest!: push_usr)

lemma cr_reply_usr: "cr_reply ctrl d c h = Some (res, c', h') \<Longrightarrow> h_usr h' = h_usr h"
  by (auto simp: cr_reply_def Let_def split: prod.split_asm if_split_asm Option.bind_split_asm
      dest!: can_rx_usr dest: calloc_frame(5))

text \<open>The identifier stays in the range of CANopen, whatever the bus sends.\<close>

lemma alarm_state_node: "node_id st < 0x40 \<Longrightarrow> node_id (cr_alarm_state t data st) < 0x40"
  by (auto simp: cr_alarm_state_def Let_def)

lemma receive_node:
  assumes "node_id (h_usr h) < 0x40" "can_cr3020_receive fresh lt now p ctrl data c h = Some (res, c', h')"
  shows "node_id (h_usr h') < 0x40"
proof -
  have "h_usr h' \<in> {h_usr h, (h_usr h)\<lparr>cr_initialized := 1\<rparr>, cr_alarm_state (lt now) data (h_usr h)}"
    using assms(2) unfolding can_cr3020_receive_def cr_set_def cr_request_def cr_alarm_set_def cr_alarm_time_def Let_def
    by (auto split: if_split_asm Option.bind_split_asm dest!: cr_reply_usr)
  then show ?thesis using assms(1) alarm_state_node by auto
qed

text \<open>A node that was not initialised answers nothing else.\<close>

lemma receive_uninitialized:
  assumes "cr_initialized (h_usr h) = 0" "can_dlc (fst ctrl) < 16" "length data = can_dlen (fst ctrl)"
    "\<not> (cr_id (fst ctrl) = 0x7FF \<and> data = [])"
  shows "can_cr3020_receive fresh lt now p ctrl data c h = Some (CAN_ACK, c, h)"
  using assms by (auto simp: can_cr3020_receive_def cr_datalen_len Let_def)

text \<open>The byte of the month has the century in its highest bit, and the year is that of the century.\<close>

lemma cr_month_byte:
  assumes "0 \<le> m" "m < 12" "0 \<le> y" "y < 200"
  defines "b \<equiv> word_of_int (format_5bit_bcd (m + 1)) + push_bit 7 (word_of_int (format_5bit_bcd (y sdiv 100))) :: u8"
  shows "bcd_value (b AND 0x7F) = m + 1 \<and> (bit b 7 \<longleftrightarrow> 100 \<le> y)"
proof -
  have y: "y sdiv 100 = (if 100 \<le> y then 1 else 0)" using assms(3,4) by (auto simp: signed_divide_int_def sgn_if)
  have "m \<in> {0, 1, 2, 3, 4, 5, 6, 7, 8, 9, 10, 11}" using assms(1,2) by (simp add: atLeastLessThan_iff) presburger
  moreover have "format_5bit_bcd 0 = 0" "format_5bit_bcd 1 = 1" by code_simp+
  ultimately show ?thesis unfolding b_def y
    by (elim insertE emptyE; cases "100 \<le> y")
      (simp_all add: format_5bit_bcd_def [of "numeral n" for n] format_7bit_bcd_def [of "numeral n" for n]
        bcd_value_def bit_iff_odd push_bit_eq_mult)
qed

lemma cr_year_byte:
  assumes "0 \<le> y" "y < 200"
  shows "bcd_value (word_of_int (((y smod 100) sdiv 10) * 16 + y smod 10)) = y mod 100"
proof -
  have "y smod 100 = y mod 100" "(y mod 100) sdiv 10 = y mod 100 div 10" "y smod 10 = y mod 100 mod 10"
    using assms by (auto simp: signed_modulo_int_def signed_divide_int_def mod_mod_cancel sgn_if)
  then show ?thesis using bcd_value_digits [of "y mod 100"] by simp
qed

lemma receive_request:
  assumes "cr_initialized (h_usr h) \<noteq> 0" "can_dlc (fst ctrl) = 0" "\<not> bit (fst ctrl) 34"
    "cr_id (fst ctrl) = 0x200 + unat (node_id (h_usr h))" "h_oom h = []" "c_ebusy c = 0" "valid_tm (lt now)"
  shows "\<exists>c' d. can_cr3020_receive fresh lt now p ctrl [] c h =
      Some (CAN_ACK, c', host_push (can_frame c' (cr_ctrl (0x180 + ucast (node_id (h_usr h))) 8, 0) d) h) \<and>
    length d = 8 \<and> bcd_value (d ! 0) = tm_mday (lt now) \<and> bcd_value (d ! 1 AND 0x7F) = tm_mon (lt now) + 1 \<and>
    (bit (d ! 1) 7 \<longleftrightarrow> 100 \<le> tm_year (lt now)) \<and> bcd_value (d ! 2) = tm_year (lt now) mod 100 \<and>
    bcd_value (d ! 3) = tm_hour (lt now) \<and> bcd_value (d ! 4) = tm_min (lt now) \<and>
    bcd_value (d ! 5) = tm_sec (lt now) \<and> uint (d ! 6) = tm_wday (lt now) + 1 \<and> d ! 7 = 0"
proof -
  let ?t = "lt now"
  let ?d = "cr_time ?t @ [word_of_int (format_7bit_bcd (tm_sec ?t)), word_of_int (tm_wday ?t + 1), 0]"
  have "can_dlc (fst ctrl) < 16" "cr_datalen ! 0 = 0" "unat (node_id (h_usr h)) < 256"
    using assms(2) by (simp_all add: cr_datalen_def unat_u8_less)
  then have r: "can_cr3020_receive fresh lt now p ctrl [] c h = cr_request ?t c h"
    using assms(1-4) by (simp add: can_cr3020_receive_def Let_def)
  obtain c' where c: "cr_request ?t c h =
      Some (CAN_ACK, c', host_push (can_frame c' (cr_ctrl (0x180 + ucast (node_id (h_usr h))) 8, 0) ?d) h)"
    using cr_reply_sends [of ?d "cr_ctrl (0x180 + ucast (node_id (h_usr h))) 8" h c] assms(5,6)
    by (auto simp: cr_request_def can_dlen_ctrl)
  have w: "uint (word_of_int (w + 1) :: u8) = w + 1" if "0 \<le> w" "w < 7" for w
    using that by (simp only: uint_word_of_int) simp
  have v: "valid_tm ?t" by fact
  have m: "bcd_value (?d ! 1 AND 0x7F) = tm_mon ?t + 1 \<and> (bit (?d ! 1) 7 \<longleftrightarrow> 100 \<le> tm_year ?t)"
    using cr_month_byte [of "tm_mon ?t" "tm_year ?t"] v by (simp add: cr_time_def Let_def valid_tm_def)
  have y: "bcd_value (?d ! 2) = tm_year ?t mod 100"
    using cr_year_byte [of "tm_year ?t"] v by (simp add: cr_time_def Let_def valid_tm_def)
  have "length ?d = 8" "bcd_value (?d ! 0) = tm_mday ?t" "bcd_value (?d ! 3) = tm_hour ?t" "bcd_value (?d ! 4) = tm_min ?t"
    "bcd_value (?d ! 5) = tm_sec ?t" "uint (?d ! 6) = tm_wday ?t + 1" "?d ! 7 = 0"
    using v w [of "tm_wday ?t"]
    by (simp_all add: cr_time_def Let_def valid_tm_def bcd_value_format nth_append numeral_eq_Suc del: of_int_add)
  with m y r c show ?thesis by (intro exI [of _ c'] exI [of _ ?d]) simp
qed

text \<open>The time to the alarm is asked for by a frame without data, which has no byte 6.\<close>

lemma receive_alarm_time:
  assumes "cr_initialized (h_usr h) \<noteq> 0" "can_dlc (fst ctrl) = 0" "\<not> bit (fst ctrl) 34"
    "cr_id (fst ctrl) = 0x400 + unat (node_id (h_usr h))"
  shows "can_cr3020_receive fresh lt now p ctrl [] c h = None"
  using assms unat_u8_less [of "node_id (h_usr h)"]
  by (simp add: can_cr3020_receive_def cr_alarm_time_def cr_datalen_def write_at_def Let_def)

end
