(* ===== verification/Keyboard.thy ===== *)
theory Keyboard
  imports Advance
begin

text \<open>
  \<open>examples/usbh/coremodel-usbh.c\<close>: a USB keyboard. Control transfers go through a buffer of
  512 bytes: a SETUP for data from the device fills it, IN transfers read it piece by piece,
  OUT transfers store into it. What it prints is not modelled.
\<close>

section \<open>Descriptors\<close>

text \<open>The device descriptor.\<close>

definition vkb_dev_desc :: "byte list" where
  "vkb_dev_desc =
    [0x12, 0x01, 0x00, 0x02, 0x00, 0x00, 0x00, 0x08, 0x6B, 0x1D, 0x04, 0x01, 0x01, 0x01, 0x01, 0x02, 0x00,
     0x01]"

text \<open>The configuration with its interface, HID and endpoint descriptors.\<close>

definition vkb_conf_desc :: "byte list" where
  "vkb_conf_desc =
    [0x09, 0x02, 0x00, 0x00, 0x01, 0x01, 0x03, 0xA0, 0x00, 0x09, 0x04, 0x00, 0x00, 0x01, 0x03, 0x01, 0x01,
     0x04, 0x09, 0x21, 0x11, 0x01, 0x21, 0x01, 0x22, 0x3F, 0x00, 0x07, 0x05, 0x81, 0x03, 0x08, 0x00, 0x02]"

text \<open>The HID report descriptor.\<close>

definition vkb_hid_report_desc :: "byte list" where
  "vkb_hid_report_desc =
    [0x05, 0x01, 0x09, 0x06, 0xA1, 0x01, 0x05, 0x07, 0x19, 0xE0, 0x29, 0xE7, 0x15, 0x00, 0x25, 0x01,
     0x75, 0x01, 0x95, 0x08, 0x81, 0x02, 0x95, 0x01, 0x75, 0x08, 0x81, 0x01, 0x95, 0x05, 0x75, 0x01,
     0x05, 0x08, 0x19, 0x01, 0x29, 0x05, 0x91, 0x02, 0x95, 0x01, 0x75, 0x03, 0x91, 0x01, 0x95, 0x06,
     0x75, 0x08, 0x15, 0x00, 0x25, 0x65, 0x05, 0x07, 0x19, 0x00, 0x29, 0x65, 0x81, 0x00, 0xC0]"

text \<open>The string descriptors are arrays of 16-bit values; the machine is little endian.\<close>

definition vkb_str_desc_tbl :: "byte list list" where
  "vkb_str_desc_tbl = map (\<lambda>ws. concat (map (le_bytes 2) (ws :: u16 list)))
    [[0x0300, 0x0409],
     [0x0300, 0x43, 0x6F, 0x72, 0x65, 0x6C, 0x6C, 0x69, 0x75, 0x6D],
     [0x0300, 0x4B, 0x65, 0x79, 0x62, 0x6F, 0x61, 0x72, 0x64],
     [0x0300, 0x4B, 0x65, 0x79, 0x62, 0x6F, 0x61, 0x72, 0x64],
     [0x0300, 0x48, 0x49, 0x44, 0x20, 0x44, 0x65, 0x76, 0x69, 0x63, 0x65]]"

section \<open>State and transfers\<close>

abbreviation (input) EP0BUF :: nat where "EP0BUF \<equiv> 512"

record vkb_state =
  bAddr :: u8
  in_setup :: bool
  bmReqType :: u8
  bRequest :: u8
  wValue :: u16
  wIndex :: u16
  wLength :: u16
  ep0buf :: "byte list"
  ep0ptr :: u32
  last_report :: "byte list"
  has_report :: bool

text \<open>\<open>vkb_state\<close> is a static variable: all zero.\<close>

definition vkb_init :: vkb_state where
  "vkb_init = \<lparr>bAddr = 0, in_setup = False, bmReqType = 0, bRequest = 0, wValue = 0, wIndex = 0, wLength = 0,
     ep0buf = replicate EP0BUF 0, ep0ptr = 0, last_report = replicate 8 0, has_report = False\<rparr>"

text \<open>A descriptor is cut to the length asked for, which becomes the length of the transfer.\<close>

definition vkb_copy :: "byte list \<Rightarrow> vkb_state \<Rightarrow> vkb_state option" where
  "vkb_copy desc st =
    (let n = min (length desc) (unat (wLength st)) in do {
       buf \<leftarrow> write_at 0 (take n desc) (ep0buf st);
       Some (st\<lparr>wLength := of_nat n, ep0buf := buf\<rparr>) })"

text \<open>Storing a byte into \<open>ep0buf\<close>.\<close>

definition vkb_patch :: "nat \<Rightarrow> byte \<Rightarrow> vkb_state \<Rightarrow> vkb_state option" where
  "vkb_patch i b st = do { buf \<leftarrow> write_at i [b] (ep0buf st); Some (st\<lparr>ep0buf := buf\<rparr>) }"

text \<open>A request for data from the device; the flag tells whether it is one of those known.\<close>

definition vkb_get :: "vkb_state \<Rightarrow> (bool \<times> vkb_state) option" where
  "vkb_get st =
    (let descr = drop_bit 8 (wValue st); i = unat (wValue st AND 255) in
     if bmReqType st = 0x80 \<and> bRequest st = 6 then
       if descr = 1 then do { st \<leftarrow> vkb_copy vkb_dev_desc st; Some (True, st) }
       else if descr = 2 then do {
         st \<leftarrow> vkb_copy vkb_conf_desc st;
         st \<leftarrow> vkb_patch 2 (ucast (wLength st AND 0xFF)) st;
         st \<leftarrow> vkb_patch 3 (ucast (drop_bit 8 (wLength st))) st;
         Some (True, st) }
       else if descr = 3 \<and> i < length vkb_str_desc_tbl then do {
         st \<leftarrow> vkb_copy (vkb_str_desc_tbl ! i) st;
         st \<leftarrow> vkb_patch 0 (ucast (wLength st AND 0xFF)) st;
         Some (True, st) }
       else Some (False, st)
     else if bmReqType st = 0x81 \<and> bRequest st = 6 \<and> descr = 0x22 then do {
       st \<leftarrow> vkb_copy vkb_hid_report_desc st; Some (True, st) }
     else Some (False, st))"

definition vkb_setup :: "byte list \<Rightarrow> vkb_state \<Rightarrow> (int \<times> vkb_state) option" where
  "vkb_setup buf st = do {
     bm \<leftarrow> rd 1 buf 0; rq \<leftarrow> rd 1 buf 1; v \<leftarrow> rd 2 buf 2; ix \<leftarrow> rd 2 buf 4; len \<leftarrow> rd 2 buf 6;
     let st = st\<lparr>bmReqType := bm, bRequest := rq, wValue := v, wIndex := ix, wLength := len,
                 in_setup := True, ep0ptr := 0\<rparr>;
     if bm AND 0x80 = 0 then Some (int (length buf), st)
     else do {
       (known, st) \<leftarrow> vkb_get st;
       Some (if known then int (length buf) else USB_XFR_STALL, st) } }"

text \<open>Data to the device on endpoint 0.\<close>

definition vkb_out :: "byte list \<Rightarrow> vkb_state \<Rightarrow> (int \<times> vkb_state) option" where
  "vkb_out buf st =
    (if \<not> in_setup st then Some (USB_XFR_STALL, st)
     else if bmReqType st AND 0x80 \<noteq> 0 then Some (int (length buf), st\<lparr>in_setup := False\<rparr>)
     else
       let step = min (unat (ucast (wLength st) - ep0ptr st :: u32)) (length buf) in do {
         mem \<leftarrow> write_at (unat (ep0ptr st)) (take step buf) (ep0buf st);
         Some (int step, st\<lparr>ep0buf := mem, ep0ptr := ep0ptr st + of_nat step\<rparr>) })"

text \<open>Data from the device on endpoint 0, or the status of a request that has none.\<close>

definition vkb_in :: "u32 \<Rightarrow> vkb_state \<Rightarrow> ((int \<times> byte list) \<times> vkb_state) option" where
  "vkb_in sz st =
    (if \<not> in_setup st then Some ((USB_XFR_STALL, []), st)
     else if bmReqType st AND 0x80 = 0 then
       let st = st\<lparr>in_setup := False\<rparr> in
       if bmReqType st = 0x00 \<and> bRequest st = 5 then Some ((int (unat sz), []), st\<lparr>bAddr := ucast (wValue st)\<rparr>)
       else if bmReqType st = 0x00 \<and> bRequest st = 9 then Some ((int (unat sz), []), st)
       else if bmReqType st = 0x02 \<and> bRequest st = 1 then Some ((int (unat sz), []), st)
       else Some ((USB_XFR_STALL, []), st)
     else
       let step = min (unat (ucast (wLength st) - ep0ptr st :: u32)) (unat sz); offs = unat (ep0ptr st) in
       if offs + step \<le> length (ep0buf st)
       then Some ((int step, take step (drop offs (ep0buf st))), st\<lparr>ep0ptr := ep0ptr st + of_nat step\<rparr>)
       else None)"

definition vkb_report :: "u32 \<Rightarrow> vkb_state \<Rightarrow> ((int \<times> byte list) \<times> vkb_state) option" where
  "vkb_report sz st =
    (if has_report st
     then let step = min 8 (unat sz) in
       Some ((int step, take step (last_report st)), st\<lparr>has_report := False\<rparr>)
     else Some ((USB_XFR_NAK, []), st))"

text \<open>
  The buffer argument is the data of a SETUP or OUT transfer (\<open>Inl\<close>) or room for an IN
  transfer (\<open>Inr\<close>); data is also room for as many bytes, but room holds no data to be read.
\<close>

definition test_usbh_xfr_int ::
  "u8 \<Rightarrow> u8 \<Rightarrow> u8 \<Rightarrow> byte list + u32 \<Rightarrow> u8 \<Rightarrow> vkb_state \<Rightarrow> ((int \<times> byte list) \<times> vkb_state) option" where
  "test_usbh_xfr_int dev ep tkn buf e st =
    (let k = (ucast ep OR push_bit 7 (ucast tkn) :: u32);
         sz = (case buf of Inl bs \<Rightarrow> of_nat (length bs) | Inr n \<Rightarrow> n) in
     if k = 0x100 then (case buf of Inl bs \<Rightarrow> do { (r, st) \<leftarrow> vkb_setup bs st; Some ((r, []), st) } | Inr _ \<Rightarrow> None)
     else if k = 0x00 then (case buf of Inl bs \<Rightarrow> do { (r, st) \<leftarrow> vkb_out bs st; Some ((r, []), st) } | Inr _ \<Rightarrow> None)
     else if k = 0x80 then vkb_in sz st
     else if k = 0x81 then vkb_report sz st
     else Some ((USB_XFR_NAK, []), st))"

text \<open>The token's name is looked up in a table of three.\<close>

definition test_usbh_xfr ::
  "u8 \<Rightarrow> u8 \<Rightarrow> u8 \<Rightarrow> byte list + u32 \<Rightarrow> u8 \<Rightarrow> vkb_state \<Rightarrow> ((int \<times> byte list) \<times> vkb_state) option" where
  "test_usbh_xfr dev ep tkn buf e st = (if tkn < 3 then test_usbh_xfr_int dev ep tkn buf e st else None)"

definition test_usbh_rst :: "vkb_state \<Rightarrow> (unit \<times> vkb_state) option" where
  "test_usbh_rst st = Some ((), st)"

section \<open>The keyboard meets the USB contract\<close>

text \<open>
  A transfer in hand fits the buffer. A SETUP for more than the buffer can break this: the known
  requests are cut to their descriptors, the others keep their length.
\<close>

definition vkb_ok :: "vkb_state \<Rightarrow> bool" where
  "vkb_ok st \<longleftrightarrow> length (ep0buf st) = EP0BUF \<and> unat (ep0ptr st) \<le> unat (wLength st) \<and>
     unat (wLength st) \<le> EP0BUF \<and> length (last_report st) = 8"

definition vkb_fits :: "byte list \<Rightarrow> bool" where
  "vkb_fits bs \<longleftrightarrow> 8 \<le> length bs \<and> (\<exists>len :: u16. rd 2 bs 6 = Some len \<and> unat len \<le> EP0BUF)"

lemma vkb_copy_ok:
  assumes "length (ep0buf st) = EP0BUF" "length desc \<le> EP0BUF"
  shows "\<exists>st'. vkb_copy desc st = Some st' \<and> length (ep0buf st') = EP0BUF \<and>
    unat (wLength st') = min (length desc) (unat (wLength st)) \<and> ep0ptr st' = ep0ptr st \<and> last_report st' = last_report st \<and>
    in_setup st' = in_setup st \<and> bmReqType st' = bmReqType st \<and>
    take (unat (wLength st')) (ep0buf st') = take (unat (wLength st)) desc"
proof -
  let ?n = "min (length desc) (unat (wLength st))"
  have u: "unat (of_nat ?n :: u16) = ?n" using assms(2) by (simp add: unat_of_nat_u16)
  show ?thesis using assms u by (simp add: vkb_copy_def write_at_def Let_def min_def)
qed

lemma vkb_patch_ok:
  assumes "length (ep0buf st) = EP0BUF" "i < EP0BUF"
  shows "\<exists>buf. vkb_patch i b st = Some (st\<lparr>ep0buf := buf\<rparr>) \<and> length buf = EP0BUF"
  using assms by (intro exI [of _ "take i (ep0buf st) @ b # drop (Suc i) (ep0buf st)"])
    (simp add: vkb_patch_def write_at_def)

lemma vkb_desc_lengths [simp]: "length vkb_dev_desc = 18" "length vkb_conf_desc = 34" "length vkb_hid_report_desc = 63"
  by (simp_all add: vkb_dev_desc_def vkb_conf_desc_def vkb_hid_report_desc_def)

lemma vkb_str_length: "i < length vkb_str_desc_tbl \<Longrightarrow> length (vkb_str_desc_tbl ! i) \<le> 22"
proof -
  have "\<forall>d \<in> set vkb_str_desc_tbl. length d \<le> 22" by (simp add: vkb_str_desc_tbl_def)
  then show "i < length vkb_str_desc_tbl \<Longrightarrow> length (vkb_str_desc_tbl ! i) \<le> 22" by simp
qed

lemma vkb_get_ok:
  assumes "length (ep0buf st) = EP0BUF"
  shows "\<exists>known st'. vkb_get st = Some (known, st') \<and> length (ep0buf st') = EP0BUF \<and>
    unat (wLength st') \<le> unat (wLength st) \<and> ep0ptr st' = ep0ptr st \<and> last_report st' = last_report st"
proof -
  have p: "\<exists>st'. vkb_patch i b st1 = Some st' \<and> length (ep0buf st') = EP0BUF \<and> wLength st' = wLength st1 \<and>
      ep0ptr st' = ep0ptr st1 \<and> last_report st' = last_report st1"
    if "length (ep0buf st1) = EP0BUF" "i < EP0BUF" for i b st1
    using vkb_patch_ok [OF that, of b] by auto
  have c: "\<exists>st'. vkb_copy desc st = Some st' \<and> length (ep0buf st') = EP0BUF \<and>
      unat (wLength st') \<le> unat (wLength st) \<and> ep0ptr st' = ep0ptr st \<and> last_report st' = last_report st"
    if "length desc \<le> EP0BUF" for desc
    using vkb_copy_ok [OF assms that] by auto
  show ?thesis
  proof (cases "bmReqType st = 0x80 \<and> bRequest st = 6")
    case False
    then show ?thesis using assms c [of vkb_hid_report_desc] by (auto simp: vkb_get_def Let_def)
  next
    case True
    let ?d = "drop_bit 8 (wValue st)" and ?i = "unat (wValue st AND 255)"
    consider (dev) "?d = 1" | (conf) "?d = 2" | (str) "?d = 3" "?i < length vkb_str_desc_tbl"
      | (none) "?d \<noteq> 1" "?d \<noteq> 2" "\<not> (?d = 3 \<and> ?i < length vkb_str_desc_tbl)" by blast
    then show ?thesis
    proof cases
      case dev
      then show ?thesis using True c [of vkb_dev_desc] by (auto simp: vkb_get_def Let_def)
    next
      case conf
      obtain st1 where st1: "vkb_copy vkb_conf_desc st = Some st1" "length (ep0buf st1) = EP0BUF"
        "unat (wLength st1) \<le> unat (wLength st)" "ep0ptr st1 = ep0ptr st" "last_report st1 = last_report st"
        using c [of vkb_conf_desc] by auto
      obtain st2 where st2: "vkb_patch 2 (ucast (wLength st1 AND 0xFF)) st1 = Some st2" "length (ep0buf st2) = EP0BUF"
        "wLength st2 = wLength st1" "ep0ptr st2 = ep0ptr st1" "last_report st2 = last_report st1"
        using p [OF st1(2), of 2] by auto
      obtain st3 where "vkb_patch 3 (ucast (drop_bit 8 (wLength st2))) st2 = Some st3" "length (ep0buf st3) = EP0BUF"
        "wLength st3 = wLength st2" "ep0ptr st3 = ep0ptr st2" "last_report st3 = last_report st2"
        using p [OF st2(2), of 3] by auto
      then show ?thesis using True conf st1 st2 by (intro exI [of _ True] exI [of _ st3]) (simp add: vkb_get_def Let_def)
    next
      case str
      obtain st1 where st1: "vkb_copy (vkb_str_desc_tbl ! ?i) st = Some st1" "length (ep0buf st1) = EP0BUF"
        "unat (wLength st1) \<le> unat (wLength st)" "ep0ptr st1 = ep0ptr st" "last_report st1 = last_report st"
        using c [of "vkb_str_desc_tbl ! ?i"] vkb_str_length [OF str(2)] by auto
      obtain st2 where "vkb_patch 0 (ucast (wLength st1 AND 0xFF)) st1 = Some st2" "length (ep0buf st2) = EP0BUF"
        "wLength st2 = wLength st1" "ep0ptr st2 = ep0ptr st1" "last_report st2 = last_report st1"
        using p [OF st1(2), of 0] by auto
      then show ?thesis using True str st1 by (intro exI [of _ True] exI [of _ st2]) (simp add: vkb_get_def Let_def)
    next
      case none
      then show ?thesis
        using assms True by (intro exI [of _ False] exI [of _ st]) (auto simp: vkb_get_def Let_def)
    qed
  qed
qed

lemma vkb_setup_ok:
  assumes "vkb_ok st" "vkb_fits bs"
  shows "\<exists>r st'. vkb_setup bs st = Some (r, st') \<and> vkb_ok st'"
proof -
  obtain len :: u16 where len: "rd 2 bs 6 = Some len" "unat len \<le> EP0BUF" "8 \<le> length bs"
    using assms(2) by (auto simp: vkb_fits_def)
  have "\<exists>x :: u8. rd 1 bs 0 = Some x" "\<exists>x :: u8. rd 1 bs 1 = Some x" "\<exists>x :: u16. rd 2 bs 2 = Some x"
    "\<exists>x :: u16. rd 2 bs 4 = Some x"
    using len(3) by (simp_all add: rd_def)
  then obtain bm rq :: u8 and v ix :: u16 where r: "rd 1 bs 0 = Some bm" "rd 1 bs 1 = Some rq" "rd 2 bs 2 = Some v"
    "rd 2 bs 4 = Some ix" by blast
  let ?st = "st\<lparr>bmReqType := bm, bRequest := rq, wValue := v, wIndex := ix, wLength := len, in_setup := True, ep0ptr := 0\<rparr>"
  have l: "length (ep0buf ?st) = EP0BUF" "length (last_report st) = 8" using assms(1) by (simp_all add: vkb_ok_def)
  obtain known st' where "vkb_get ?st = Some (known, st')" "length (ep0buf st') = EP0BUF"
    "unat (wLength st') \<le> unat len" "ep0ptr st' = 0" "last_report st' = last_report st"
    using vkb_get_ok [OF l(1)] by auto
  then show ?thesis using r len l by (simp add: vkb_setup_def vkb_ok_def Let_def)
qed

text \<open>How much a transfer moves, and where it then stands.\<close>

lemma vkb_step:
  assumes "vkb_ok st"
  shows "unat (ucast (wLength st) - ep0ptr st :: u32) = unat (wLength st) - unat (ep0ptr st)"
    "n \<le> unat (wLength st) - unat (ep0ptr st) \<Longrightarrow> unat (ep0ptr st + of_nat n) = unat (ep0ptr st) + n"
proof -
  have w: "unat (ucast (wLength st) :: u32) = unat (wLength st)"
    by simp
  show "unat (ucast (wLength st) - ep0ptr st :: u32) = unat (wLength st) - unat (ep0ptr st)"
    using assms w by (subst unat_sub_nat) (simp_all add: vkb_ok_def word_le_nat_alt)
  show "unat (ep0ptr st + of_nat n) = unat (ep0ptr st) + n" if "n \<le> unat (wLength st) - unat (ep0ptr st)"
  proof -
    have "unat (ep0ptr st) + n < 4294967296" "n < 4294967296" using assms that by (auto simp: vkb_ok_def)
    then show ?thesis by (simp add: unat_word_ariths unat_of_nat)
  qed
qed

lemma int_le_uint: "m \<le> unat n \<Longrightarrow> int m \<le> uint n"
  by (metis of_nat_mono uint_nat)

lemma vkb_out_ok:
  assumes "vkb_ok st"
  shows "\<exists>r st'. vkb_out bs st = Some (r, st') \<and> vkb_ok st' \<and> r \<le> int (length bs)"
proof (cases "in_setup st \<and> bmReqType st AND 0x80 = 0")
  case False
  then show ?thesis using assms by (auto simp: vkb_out_def vkb_ok_def)
next
  case True
  let ?n = "min (unat (wLength st) - unat (ep0ptr st)) (length bs)"
  have u: "unat (ep0ptr st + of_nat ?n) = unat (ep0ptr st) + ?n" using vkb_step(2) [OF assms, of ?n] by simp
  have f: "unat (ep0ptr st) + ?n \<le> EP0BUF" using assms by (auto simp: vkb_ok_def)
  then obtain mem where m: "write_at (unat (ep0ptr st)) (take ?n bs) (ep0buf st) = Some mem"
    using assms by (simp add: write_at_def vkb_ok_def)
  have "length mem = EP0BUF" using length_write_at [OF m] assms by (simp add: vkb_ok_def)
  then have "vkb_ok (st\<lparr>ep0buf := mem, ep0ptr := ep0ptr st + of_nat ?n\<rparr>)"
    using assms u by (auto simp: vkb_ok_def)
  then show ?thesis
    using True m unfolding vkb_out_def Let_def vkb_step(1) [OF assms] by simp
qed

lemma vkb_in_ok:
  assumes "vkb_ok st"
  shows "\<exists>r out st'. vkb_in n st = Some ((r, out), st') \<and> vkb_ok st' \<and> r \<le> int (unat n) \<and> length out \<le> unat n"
proof (cases "in_setup st \<and> bmReqType st AND 0x80 \<noteq> 0")
  case False
  have k: "vkb_ok (st\<lparr>in_setup := b\<rparr>)" "vkb_ok (st\<lparr>in_setup := b, bAddr := a\<rparr>)" for a b
    using assms by (simp_all add: vkb_ok_def)
  have "- 2 \<le> uint n" using uint_ge_0 [of n] by linarith
  then show ?thesis using False assms k by (simp add: vkb_in_def Let_def)
next
  case True
  let ?n = "min (unat (wLength st) - unat (ep0ptr st)) (unat n)"
  have u: "unat (ep0ptr st + of_nat ?n) = unat (ep0ptr st) + ?n" using vkb_step(2) [OF assms, of ?n] by simp
  have f: "unat (ep0ptr st) + ?n \<le> length (ep0buf st)" using assms by (auto simp: vkb_ok_def)
  have "vkb_ok (st\<lparr>ep0ptr := ep0ptr st + of_nat ?n\<rparr>)" using assms u by (auto simp: vkb_ok_def)
  then show ?thesis
    using True f int_le_uint [of ?n n] unfolding vkb_in_def Let_def vkb_step(1) [OF assms] by simp
qed

text \<open>The selector of endpoint and token.\<close>

lemma vkb_selector:
  fixes ep :: u8
  shows "ucast ep OR 256 \<noteq> (0 :: u32)" "ucast ep OR 256 \<noteq> (128 :: u32)" "ucast ep OR 256 \<noteq> (129 :: u32)"
    "ucast ep OR 128 \<noteq> (0 :: u32)" "ucast ep OR 128 \<noteq> (256 :: u32)" "ucast ep \<noteq> (256 :: u32)"
proof -
  have b: "bit (ucast ep OR 256 :: u32) 8" "bit (ucast ep OR 128 :: u32) 7" by (simp_all add: bit_or_iff)
  have n: "\<not> bit (0 :: u32) 8" "\<not> bit (128 :: u32) 8" "\<not> bit (129 :: u32) 8" "\<not> bit (0 :: u32) 7" "\<not> bit (256 :: u32) 7"
    by simp_all
  show "ucast ep OR 256 \<noteq> (0 :: u32)" "ucast ep OR 256 \<noteq> (128 :: u32)" "ucast ep OR 256 \<noteq> (129 :: u32)"
    using b(1) n by metis+
  show "ucast ep OR 128 \<noteq> (0 :: u32)" "ucast ep OR 128 \<noteq> (256 :: u32)"
    using b(2) n by metis+
  have "unat (ucast ep :: u32) < 256" using unat_u8_less [of ep] by simp
  moreover have "unat (256 :: u32) = 256" by simp
  ultimately show "ucast ep \<noteq> (256 :: u32)" by (metis less_irrefl)
qed

lemma keyboard_in:
  assumes "vkb_ok st" "unat n \<le> EP0BUF"
  shows "\<exists>r out st'. test_usbh_xfr dev ep USB_TKN_IN (Inr n) e st = Some ((r, out), st') \<and> vkb_ok st' \<and>
    r \<le> int (unat n) \<and> length out \<le> unat n"
proof -
  let ?k = "ucast ep OR 128 :: u32"
  consider "?k = 0x80" | "?k = 0x81" | "?k \<noteq> 0x80" "?k \<noteq> 0x81" by blast
  then show ?thesis
  proof cases
    case 1
    then show ?thesis using vkb_in_ok [OF assms(1), of n] by (simp add: test_usbh_xfr_def test_usbh_xfr_int_def Let_def)
  next
    case 2
    have "vkb_ok (st\<lparr>has_report := False\<rparr>)" using assms(1) by (simp add: vkb_ok_def)
    moreover have "- 1 \<le> uint n" using uint_ge_0 [of n] by linarith
    ultimately show ?thesis
      using 2 assms int_le_uint [of "min 8 (unat n)" n]
      by (auto simp: test_usbh_xfr_def test_usbh_xfr_int_def Let_def vkb_report_def min_def)
  next
    case 3
    then show ?thesis
      using assms vkb_selector(4,5) [of ep] order_trans [OF _ uint_ge_0 [of n], of "- 1"]
      by (simp add: test_usbh_xfr_def test_usbh_xfr_int_def Let_def)
  qed
qed

lemma keyboard_out:
  assumes "vkb_ok st"
  shows "\<exists>r out st'. test_usbh_xfr dev ep USB_TKN_OUT (Inl bs) e st = Some ((r, out), st') \<and> vkb_ok st' \<and>
    r \<le> int (length bs)"
proof -
  let ?k = "ucast ep :: u32" and ?n = "of_nat (length bs) :: u32"
  have n: "unat ?n \<le> length bs" by (simp add: unat_of_nat)
  consider "?k = 0" | "?k = 0x80" | "?k = 0x81" | "?k \<noteq> 0" "?k \<noteq> 0x80" "?k \<noteq> 0x81" by blast
  then show ?thesis
  proof cases
    case 1
    then show ?thesis
      using vkb_out_ok [OF assms, of bs] by (auto simp: test_usbh_xfr_def test_usbh_xfr_int_def Let_def)
  next
    case 2
    obtain r out st' where "vkb_in ?n st = Some ((r, out), st')" "vkb_ok st'" "r \<le> int (unat ?n)"
      using vkb_in_ok [OF assms] by blast
    moreover from this n have "r \<le> int (length bs)" by linarith
    ultimately show ?thesis using 2 by (simp add: test_usbh_xfr_def test_usbh_xfr_int_def Let_def)
  next
    case 3
    have "vkb_ok (st\<lparr>has_report := False\<rparr>)" using assms by (simp add: vkb_ok_def)
    moreover have "int (min 8 (unat ?n)) \<le> int (length bs)" using n by simp
    ultimately show ?thesis
      using 3 assms by (simp add: test_usbh_xfr_def test_usbh_xfr_int_def Let_def vkb_report_def del: of_nat_le_iff)
  next
    case 4
    then show ?thesis using assms vkb_selector(6) [of ep] by (simp add: test_usbh_xfr_def test_usbh_xfr_int_def Let_def)
  qed
qed

lemma keyboard_setup:
  assumes "vkb_ok st" "vkb_fits bs"
  shows "\<exists>r out st'. test_usbh_xfr dev ep USB_TKN_SETUP (Inl bs) e st = Some ((r, out), st') \<and> vkb_ok st'"
proof -
  obtain r st' where "vkb_setup bs st = Some (r, st')" "vkb_ok st'" using vkb_setup_ok [OF assms] by blast
  then show ?thesis
    using assms vkb_selector(1-3) [of ep]
    by (cases "ucast ep OR 256 = (256 :: u32)") (simp_all add: test_usbh_xfr_def test_usbh_xfr_int_def Let_def)
qed

interpretation keyboard: usb_device test_usbh_rst test_usbh_xfr vkb_ok vkb_fits
  by unfold_locales (use keyboard_in keyboard_out keyboard_setup in \<open>auto simp: test_usbh_rst_def\<close>)

section \<open>Reading a descriptor\<close>

text \<open>IN transfers on endpoint 0, one after the other, and the data they return together.\<close>

fun vkb_ins :: "u32 list \<Rightarrow> vkb_state \<Rightarrow> (byte list \<times> vkb_state) option" where
  "vkb_ins [] st = Some ([], st)"
| "vkb_ins (n # ns) st = do {
     ((_, out), st) \<leftarrow> test_usbh_xfr 0 0 USB_TKN_IN (Inr n) 0 st;
     (outs, st) \<leftarrow> vkb_ins ns st;
     Some (out @ outs, st) }"

lemma take_drop_take: "take n (drop i (take m xs)) @ take k (drop (i + n) (take m xs)) = take (n + k) (drop i (take m xs))"
  by (metis add.commute drop_drop take_add)

lemma vkb_ins_reads:
  "vkb_ok st \<Longrightarrow> in_setup st \<Longrightarrow> bmReqType st AND 0x80 \<noteq> 0 \<Longrightarrow>
     \<exists>st'. vkb_ins ns st = Some (take (sum_list (map unat ns))
       (drop (unat (ep0ptr st)) (take (unat (wLength st)) (ep0buf st))), st')"
proof (induction ns arbitrary: st)
  case Nil
  then show ?case by simp
next
  case (Cons n ns)
  let ?w = "unat (wLength st)" and ?p = "unat (ep0ptr st)"
  let ?n = "min (?w - ?p) (unat n)" and ?s = "st\<lparr>ep0ptr := ep0ptr st + of_nat (min (?w - ?p) (unat n))\<rparr>"
  let ?t = "take ?w (ep0buf st)"
  have u: "unat (ep0ptr st + of_nat ?n) = ?p + ?n" using vkb_step(2) [OF Cons.prems(1), of ?n] by simp
  have f: "?p + ?n \<le> length (ep0buf st)" "?p + ?n \<le> ?w" "length (ep0buf st) = EP0BUF" "?w \<le> EP0BUF"
    using Cons.prems(1) by (auto simp: vkb_ok_def)
  have ok: "vkb_ok ?s" using Cons.prems(1) u by (auto simp: vkb_ok_def)
  have i: "vkb_in n st = Some ((int ?n, take ?n (drop ?p (ep0buf st))), ?s)"
    using Cons.prems f(1) unfolding vkb_in_def Let_def vkb_step(1) [OF Cons.prems(1)] by simp
  have t: "take ?n (drop ?p (ep0buf st)) = take (unat n) (drop ?p ?t)"
    using f by (simp add: drop_take min.commute)
  have d: "drop (?p + ?n) ?t = drop (?p + unat n) ?t"
    using f by (cases "?w - ?p \<le> unat n") (simp_all add: min_def)
  obtain st' where "vkb_ins ns ?s = Some (take (sum_list (map unat ns)) (drop (?p + ?n) ?t), st')"
    using Cons.IH [OF ok] Cons.prems(2,3) u by auto
  then show ?case
    using i t d take_drop_take [of "unat n" ?p ?w "ep0buf st" "sum_list (map unat ns)"]
    by (simp add: test_usbh_xfr_def test_usbh_xfr_int_def Let_def)
qed

text \<open>The fields of a SETUP packet.\<close>

lemma rd_setup:
  fixes len :: u16
  shows "rd 1 ([a, b, c, d, f, g] @ le_bytes 2 len) 0 = Some (a :: u8)"
    "rd 1 ([a, b, c, d, f, g] @ le_bytes 2 len) 1 = Some (b :: u8)"
    "rd 2 ([a, b, c, d, f, g] @ le_bytes 2 len) 2 = Some (of_le [c, d] :: u16)"
    "rd 2 ([a, b, c, d, f, g] @ le_bytes 2 len) 4 = Some (of_le [f, g] :: u16)"
    "rd 2 ([a, b, c, d, f, g] @ le_bytes 2 len) 6 = Some len"
proof -
  show "rd 2 ([a, b, c, d, f, g] @ le_bytes 2 len) 6 = Some len"
    using rd_le_bytes [of 2 len "[]"] by (subst rd_append_right) simp_all
qed (simp_all add: rd_def numeral_eq_Suc)

text \<open>
  The device descriptor, for any length asked for and in pieces of any size: what the host
  reads is the descriptor, cut to the shorter of the two lengths.
\<close>

lemma device_descriptor:
  assumes "vkb_ok st"
  shows "\<exists>st' out st''. test_usbh_xfr dev 0 USB_TKN_SETUP (Inl ([0x80, 6, 0, 1, 0, 0] @ le_bytes 2 (len :: u16))) e st =
      Some ((8, []), st') \<and> vkb_ok st' \<and>
    vkb_ins ns st' = Some (take (sum_list (map unat ns)) (take (unat len) vkb_dev_desc), st'')"
proof -
  let ?bs = "[0x80, 6, 0, 1, 0, 0] @ le_bytes 2 len"
  let ?st = "st\<lparr>bmReqType := 0x80, bRequest := 6, wValue := 0x100, wIndex := 0, wLength := len, in_setup := True, ep0ptr := 0\<rparr>"
  have l: "length (ep0buf ?st) = EP0BUF" using assms by (simp add: vkb_ok_def)
  obtain st' where c: "vkb_copy vkb_dev_desc ?st = Some st'" "length (ep0buf st') = EP0BUF"
    "unat (wLength st') = min 18 (unat len)" "ep0ptr st' = 0" "last_report st' = last_report st" "in_setup st'"
    "bmReqType st' = 0x80" "take (unat (wLength st')) (ep0buf st') = take (unat len) vkb_dev_desc"
    using vkb_copy_ok [OF l, of vkb_dev_desc] by auto
  have r: "rd 1 ?bs 0 = Some (0x80 :: u8)" "rd 1 ?bs 1 = Some (6 :: u8)" "rd 2 ?bs 2 = Some (0x100 :: u16)"
    "rd 2 ?bs 4 = Some (0 :: u16)" "rd 2 ?bs 6 = Some len"
    using rd_setup by simp_all
  have g: "vkb_get ?st = Some (True, st')" using c(1) by (simp add: vkb_get_def Let_def drop_bit_eq_div)
  have "vkb_setup ?bs st = Some (8, st')" using r g by (simp add: vkb_setup_def Let_def)
  then have "test_usbh_xfr dev 0 USB_TKN_SETUP (Inl ?bs) e st = Some ((8, []), st')"
    by (simp add: test_usbh_xfr_def test_usbh_xfr_int_def Let_def)
  moreover have ok: "vkb_ok st'" using c assms by (simp add: vkb_ok_def)
  moreover obtain st'' where "vkb_ins ns st' = Some (take (sum_list (map unat ns)) (take (unat len) vkb_dev_desc), st'')"
    using vkb_ins_reads [OF ok c(6), of ns] c(4,7,8) by auto
  ultimately show ?thesis by blast
qed

text \<open>A request for the device with more data than the buffer holds overruns it.\<close>

lemma out_overruns:
  assumes "length (ep0buf st) = EP0BUF" "bm AND 0x80 = 0" "EP0BUF < unat len" "EP0BUF < length bs" "length bs < 65536"
  shows "\<exists>st'. test_usbh_xfr dev 0 USB_TKN_SETUP (Inl ([bm, rq, 0, 0, 0, 0] @ le_bytes 2 (len :: u16))) e st =
      Some ((8, []), st') \<and> test_usbh_xfr dev 0 USB_TKN_OUT (Inl bs) e st' = None"
proof -
  let ?bs = "[bm, rq, 0, 0, 0, 0] @ le_bytes 2 len"
  let ?st = "st\<lparr>bmReqType := bm, bRequest := rq, wValue := 0, wIndex := 0, wLength := len, in_setup := True, ep0ptr := 0\<rparr>"
  have r: "rd 1 ?bs 0 = Some bm" "rd 1 ?bs 1 = Some rq" "rd 2 ?bs 2 = Some (0 :: u16)"
    "rd 2 ?bs 4 = Some (0 :: u16)" "rd 2 ?bs 6 = Some len"
    using rd_setup by simp_all
  have "vkb_setup ?bs st = Some (8, ?st)" using r assms(2) by (simp add: vkb_setup_def Let_def)
  moreover have "vkb_out bs ?st = None"
    using assms by (simp add: vkb_out_def Let_def write_at_def min_def)
  ultimately show ?thesis by (simp add: test_usbh_xfr_def test_usbh_xfr_int_def Let_def)
qed

end
