(* ===== verification/Mains.thy ===== *)
theory Mains
  imports Handshake Clients Ds3231 Ds3234 Cr3020 Keyboard Connect
begin

text \<open>
  The \<open>main\<close> functions of the example programs: from the arguments to the connection, the attach, the
  main loop and the exit. What the system does is a script, as in \<open>Connect\<close> and \<open>Fds\<close>; a script that
  ends while the program waits in \<open>select\<close> gives \<open>Waits\<close> with the connection. Messages for the user are
  left out.
\<close>

section \<open>Programs with one interface\<close>

text \<open>
  The arguments, with the name of the program, the system while the connection is opened, the process,
  the coming allocations of the library, and the time and the rounds of the attach and of the main loop.
\<close>

record program =
  pg_argv :: "byte list list"
  pg_env :: env
  pg_proc :: proc
  pg_oom :: "bool list"
  pg_now :: int
  pg_attach :: "round list"
  pg_start :: int
  pg_rounds :: "round list"

datatype 'd outcome = Waits "ring \<times> 'd cm" | Exits int

type_synonym 'd attach =
  "int \<Rightarrow> round list \<Rightarrow> ring \<times> 'd cm \<Rightarrow> ((ring \<times> 'd cm) + nat option \<times> ring \<times> 'd cm) option"

definition main_exit :: "int \<Rightarrow> ring \<times> 'd cm \<Rightarrow> 'd outcome option" where
  "main_exit ret s = do { _ \<leftarrow> coremodel_disconnect s; Some (Exits ret) }"

text \<open>
  The main loop, whose result nobody looks at, and the end of the program, which detaches the last handle,
  a variable that has no value when nothing was attached.
\<close>

definition main_loop :: "program \<Rightarrow> int \<Rightarrow> nat option \<Rightarrow> ring \<times> 'd cm \<Rightarrow> 'd outcome option" where
  "main_loop pg usec handle s = do {
     out \<leftarrow> coremodel_mainloop (pg_start pg) usec (pg_rounds pg) s;
     (case out of
        Inl s \<Rightarrow> Some (Waits s)
      | Inr (_, r, cm) \<Rightarrow> do { i \<leftarrow> handle; cm \<leftarrow> coremodel_detach (Some i) cm; main_exit 0 (r, cm) }) }"

text \<open>
  \<open>after\<close> is what the program does between the attach and the main loop. When 0 comes without a
  connection, the variable for it is used without a value.
\<close>

definition client_main ::
  "nat \<Rightarrow> 'd attach \<Rightarrow> (nat \<Rightarrow> 'd cm \<Rightarrow> 'd cm option) \<Rightarrow> int \<Rightarrow> 'd \<Rightarrow> program \<Rightarrow> 'd outcome option" where
  "client_main argc attach after usec d pg =
    (if length (pg_argv pg) \<noteq> argc then Some (Exits 1)
     else (case coremodel_connect (pg_env pg) (pg_oom pg) d (Some (pg_argv pg ! 1)) (pg_proc pg) of
       Inl (res, _) \<Rightarrow> if res \<noteq> 0 then Some (Exits 1) else None
     | Inr (s, _) \<Rightarrow> do {
         out \<leftarrow> attach (pg_now pg) (pg_attach pg) s;
         (case out of
            Inl s \<Rightarrow> Some (Waits s)
          | Inr (None, s) \<Rightarrow> main_exit 1 s
          | Inr (Some i, r, cm) \<Rightarrow> do { cm \<leftarrow> after i cm; main_loop pg usec (Some i) (r, cm) }) }))"

abbreviation (input) COREMODEL_SPI_BLOCK :: u16 where "COREMODEL_SPI_BLOCK \<equiv> 1"
abbreviation (input) USB_SPEED_FULL :: u32 where "USB_SPEED_FULL \<equiv> 1"

text \<open>\<open>atoi\<close> into an unsigned argument, and \<open>strtoul\<close> with base zero.\<close>

definition atoi :: "byte list \<Rightarrow> u32" where
  "atoi s = word_of_int (fst (strtol False s))"

definition strtoul0 :: "byte list \<Rightarrow> u64" where
  "strtoul0 s = (let (neg, n) = number_text True s in
     if n > 2 ^ 64 - 1 then - 1 else if neg then - of_nat n else of_nat n)"

definition test_i2c_func :: "out_item list i2c_func" where
  "test_i2c_func = i2c_table test_i2c_start test_i2c_write test_i2c_read test_i2c_stop"

definition test_spi_func :: "out_item list spi_func" where
  "test_spi_func = spi_table test_spi_cs test_spi_xfr"

definition uart_main :: "program \<Rightarrow> out_item list outcome option" where
  "uart_main pg = client_main 3 (coremodel_attach_uart (pg_argv pg ! 2) test_uart_func 0) (\<lambda>_. Some) (- 1) [] pg"

definition i2c_main :: "program \<Rightarrow> out_item list outcome option" where
  "i2c_main pg = client_main 3 (coremodel_attach_i2c (pg_argv pg ! 2) 0x42 test_i2c_func 0 0) (\<lambda>_. Some) (- 1) [] pg"

definition spi_main :: "program \<Rightarrow> out_item list outcome option" where
  "spi_main pg = client_main 4
     (coremodel_attach_spi (pg_argv pg ! 2) (atoi (pg_argv pg ! 3)) test_spi_func 0 COREMODEL_SPI_BLOCK) (\<lambda>_. Some) (- 1) [] pg"

definition eth_main :: "program \<Rightarrow> out_item list outcome option" where
  "eth_main pg = client_main 3 (coremodel_attach_eth (pg_argv pg ! 2) test_eth_func 0) (\<lambda>_. Some) (- 1) [] pg"

definition can_main :: "program \<Rightarrow> out_item list outcome option" where
  "can_main pg = client_main 3 (coremodel_attach_can (pg_argv pg ! 2) test_can_func 0) (\<lambda>_. Some) (- 1) [] pg"

text \<open>The clocks: the states they start with; \<open>t0\<close> and \<open>later\<close> are what \<open>time\<close> returns, \<open>mem\<close> the memory
  \<open>malloc\<close> returned, which is not initialised.\<close>

definition i2c_ds3231_func :: "(int \<Rightarrow> tm) \<Rightarrow> ds3231_state i2c_func" where
  "i2c_ds3231_func localtime =
     i2c_table (i2c_ds3231_start localtime) i2c_ds3231_write (i2c_ds3231_read localtime) i2c_ds3231_stop"

definition ds3231_main :: "(int \<Rightarrow> tm) \<Rightarrow> int \<Rightarrow> int list \<Rightarrow> program \<Rightarrow> ds3231_state outcome option" where
  "ds3231_main localtime t0 later pg = client_main 3
     (coremodel_attach_i2c (pg_argv pg ! 2) 0x42 (i2c_ds3231_func localtime) 0 0) (\<lambda>_. Some) (- 1)
     (ds3231_init t0 later) pg"

definition spi_ds3234_func :: "(int \<Rightarrow> tm) \<Rightarrow> ds3234_state spi_func" where
  "spi_ds3234_func localtime = spi_table (spi_ds3234_cs localtime) (spi_ds3234_xfr localtime)"

definition ds3234_main :: "(int \<Rightarrow> tm) \<Rightarrow> int \<Rightarrow> int list \<Rightarrow> byte list \<Rightarrow> program \<Rightarrow> ds3234_state outcome option" where
  "ds3234_main localtime t0 later mem pg = client_main 4
     (coremodel_attach_spi (pg_argv pg ! 2) (atoi (pg_argv pg ! 3)) (spi_ds3234_func localtime) 0 COREMODEL_SPI_BLOCK)
     (\<lambda>_. Some) (- 1) (ds3234_init t0 later mem) pg"

definition can_cr3020_func :: "byte \<Rightarrow> (int \<Rightarrow> tm) \<Rightarrow> int \<Rightarrow> cr3020_state can_func" where
  "can_cr3020_func fresh localtime now =
     \<lparr>cf_tx = Some (can_cr3020_receive fresh localtime now), cf_rxcomplete = Some (\<lambda>_ _ c h. Some ((), c, h))\<rparr>"

definition cr3020_main :: "byte \<Rightarrow> (int \<Rightarrow> tm) \<Rightarrow> int \<Rightarrow> program \<Rightarrow> cr3020_state outcome option" where
  "cr3020_main fresh localtime now pg = client_main 3
     (coremodel_attach_can (pg_argv pg ! 2) (can_cr3020_func fresh localtime now) 0) (\<lambda>_. Some) (- 1) cr3020_init pg"

definition test_usbh_func :: "vkb_state usbh_func" where
  "test_usbh_func = usbh_table test_usbh_rst test_usbh_xfr"

definition usbh_main :: "program \<Rightarrow> vkb_state outcome option" where
  "usbh_main pg = client_main 4
     (coremodel_attach_usbh (pg_argv pg ! 2) (ucast (strtoul0 (pg_argv pg ! 3))) test_usbh_func 0 USB_SPEED_FULL)
     (\<lambda>_. Some) (- 1) vkb_init pg"

section \<open>Programs with several interfaces\<close>

text \<open>
  Attaching one interface for each argument, with the time and the rounds of each attach. \<open>Inl\<close> is the
  end of the program; \<open>Inr\<close> has the last handle, which has no value when there is no argument.
\<close>

type_synonym 'd attached = "('d outcome + nat option \<times> ring \<times> 'd cm) option"

fun attach_all ::
  "(nat \<Rightarrow> byte list \<Rightarrow> 'd attach) \<Rightarrow> (byte list \<Rightarrow> nat \<Rightarrow> 'd cm \<Rightarrow> 'd cm option) \<Rightarrow> nat \<Rightarrow> byte list list \<Rightarrow>
     (int \<times> round list) list \<Rightarrow> nat option \<Rightarrow> ring \<times> 'd cm \<Rightarrow> 'd attached" where
  "attach_all attach after idx [] scs handle s = Some (Inr (handle, s))"
| "attach_all attach after idx (a # as) scs handle s =
    (let (now, rs) = (case scs of [] \<Rightarrow> (0, []) | sc # _ \<Rightarrow> sc) in do {
       out \<leftarrow> attach idx a now rs s;
       (case out of
          Inl s \<Rightarrow> Some (Inl (Waits s))
        | Inr (None, s) \<Rightarrow> map_option Inl (main_exit 1 s)
        | Inr (Some i, r, cm) \<Rightarrow> do {
            cm \<leftarrow> after a i cm;
            attach_all attach after (Suc idx) as (tl scs) (Some i) (r, cm) }) })"

text \<open>\<open>first\<close> is the place of the first of these arguments, \<open>ok\<close> whether their copies could be allocated.\<close>

definition clients_main ::
  "nat \<Rightarrow> (nat \<Rightarrow> byte list \<Rightarrow> 'd attach) \<Rightarrow> (byte list \<Rightarrow> nat \<Rightarrow> 'd cm \<Rightarrow> 'd cm option) \<Rightarrow> 'd \<Rightarrow> bool \<Rightarrow>
     (int \<times> round list) list \<Rightarrow> program \<Rightarrow> 'd outcome option" where
  "clients_main first attach after d ok scs pg =
    (if length (pg_argv pg) < first \<or> \<not> ok then Some (Exits 1)
     else (case coremodel_connect (pg_env pg) (pg_oom pg) d (Some (pg_argv pg ! 1)) (pg_proc pg) of
       Inl (res, _) \<Rightarrow> if res \<noteq> 0 then Some (Exits 1) else None
     | Inr (s, _) \<Rightarrow> do {
         out \<leftarrow> attach_all attach after 0 (drop first (pg_argv pg)) scs None s;
         (case out of
            Inl res \<Rightarrow> Some res
          | Inr (handle, s) \<Rightarrow> main_loop pg (- 1) handle s) }))"

definition test_gpio_func :: "out_item list gpio_func" where
  "test_gpio_func = \<lparr>gf_notify = Some test_gpio_notify\<rparr>"

text \<open>The callback gets the number that was read from the argument, also when the pin is given by its name.\<close>

definition gpio_attach :: "byte list \<Rightarrow> nat \<Rightarrow> byte list \<Rightarrow> out_item list attach" where
  "gpio_attach bus idx a =
    (let pin = ucast (strtoul0 a) in case a of
       b # name \<Rightarrow>
         if b = 0x2B then coremodel_attach_gpio_name bus name test_gpio_func (unat pin)
         else coremodel_attach_gpio bus pin test_gpio_func (unat pin)
     | [] \<Rightarrow> coremodel_attach_gpio bus pin test_gpio_func (unat pin))"

definition gpio_main :: "bool \<Rightarrow> (int \<times> round list) list \<Rightarrow> program \<Rightarrow> out_item list outcome option" where
  "gpio_main ok scs pg = clients_main 3 (gpio_attach (pg_argv pg ! 2)) (\<lambda>_ _. Some) [] ok scs pg"

text \<open>Where \<open>strtoul\<close> stops: at its start when there is no number.\<close>

definition base_digit :: "nat \<Rightarrow> byte \<Rightarrow> bool" where
  "base_digit base b = (case digit_value b of Some d \<Rightarrow> d < base | None \<Rightarrow> False)"

definition number_end :: "byte list \<Rightarrow> byte list" where
  "number_end s =
    (let t = dropWhile (\<lambda>b. b = 32 \<or> (9 \<le> b \<and> b \<le> 13)) s;
         t = (if t \<noteq> [] \<and> (hd t = 0x2D \<or> hd t = 0x2B) then tl t else t);
         (base, v) = (case t of
           z # x # h # u \<Rightarrow> if z = 48 \<and> (x = 120 \<or> x = 88) \<and> is_hex h then (16, h # u)
             else if z = 48 then (8, t) else (10, t)
         | z # u \<Rightarrow> (if z = 48 then 8 else 10, t)
         | [] \<Rightarrow> (10, [])) in
     if v = [] \<or> \<not> base_digit base (hd v) then s else dropWhile (base_digit base) v)"

text \<open>The data after \<open>=\<close> in an argument of the event client: one number, or two with a comma.\<close>

definition event_name :: "byte list \<Rightarrow> byte list" where
  "event_name a = takeWhile (\<lambda>b. b \<noteq> 0x3D) a"

definition event_words :: "byte list \<Rightarrow> (u64 \<times> u64) option" where
  "event_words a =
    (case dropWhile (\<lambda>b. b \<noteq> 0x3D) a of
       [] \<Rightarrow> None
     | _ # s \<Rightarrow> Some (strtoul0 s, case number_end s of b # t \<Rightarrow> if b = 0x2C then strtoul0 t else 0 | [] \<Rightarrow> 0))"

definition test_event_func :: "out_item list event_func" where
  "test_event_func = \<lparr>vf_update = Some test_event_update, vf_atresp = None\<rparr>"

definition event_attach :: "nat \<Rightarrow> byte list \<Rightarrow> out_item list attach" where
  "event_attach idx a = coremodel_attach_event_name (event_name a) test_event_func idx"

definition event_after :: "byte list \<Rightarrow> nat \<Rightarrow> 'd cm \<Rightarrow> 'd cm option" where
  "event_after a i cm =
    (case event_words a of
       None \<Rightarrow> Some cm
     | Some (d0, d1) \<Rightarrow> do {
         cif \<leftarrow> cm_heap cm i;
         h \<leftarrow> coremodel_event_signal (Some (if_core cif)) d0 d1 0 (cm_host cm);
         Some (cm\<lparr>cm_host := h\<rparr>) })"

definition event_main :: "bool \<Rightarrow> (int \<times> round list) list \<Rightarrow> program \<Rightarrow> out_item list outcome option" where
  "event_main ok scs pg = clients_main 2 event_attach event_after [] ok scs pg"

section \<open>Every exit\<close>

text \<open>
  A program that got a connection and an answer to its attach, or none, has no proper end: leaving
  disconnects, which uses freed memory. It exits only with 1, before it has attached.
\<close>

lemma disconnect_none: "coremodel_disconnect s = None"
  by (cases "disconnect_release s") (simp_all add: coremodel_disconnect_def coremodel_fini_def disconnect_tail_def)

lemma main_exit_none: "main_exit ret s = None"
  by (simp add: main_exit_def disconnect_none)

lemma main_loop_waits: "main_loop pg usec i s = Some out \<Longrightarrow> \<exists>s'. out = Waits s'"
  by (auto simp: main_loop_def main_exit_none split: Option.bind_split_asm sum.split_asm)

lemma client_exits:
  assumes "client_main argc attach after usec d pg = Some (Exits ret)"
  shows "ret = 1 \<and> (length (pg_argv pg) \<noteq> argc \<or>
    isl (coremodel_connect (pg_env pg) (pg_oom pg) d (Some (pg_argv pg ! 1)) (pg_proc pg)))"
  using assms by (auto simp: client_main_def main_exit_none
      split: if_split_asm sum.split_asm Option.bind_split_asm option.split_asm dest!: main_loop_waits)

section \<open>The start of a program\<close>

text \<open>
  A connection that is opened, and an attach on it that is answered; between them the program may have
  set up its state \<open>d'\<close>.
\<close>

lemma attach_opened_state:
  assumes e: "env_opens e k host n rp wp fd"
    and q: "wf_packet (attach_request ty bus addr None flags)"
      "write_loop ws (h_txbufs (host_push (attach_request ty bus addr None flags) (cm_host (snd (coremodel_init [] d))))) =
        (None, out, [])"
    and p: "pk_conn rsp = CONN_QUERY" "pk_pkt rsp = PKT_QUERY_RSP_CONN" "pk_hflag rsp \<noteq> CONN_QUERY" "wf_packet rsp"
      "pk_data rsp = le_bytes 4 cred"
  shows "\<exists>cm k' r' cm'. coremodel_connect e [] d (Some (host @ 0x3A # decimal n)) k = Inr ((ring_init, cm), k') \<and>
    coremodel_attach_int ty bus addr None fn ifpriv flags now (attach_rounds ws rsp)
      (ring_init, cm\<lparr>cm_host := (cm_host cm)\<lparr>h_usr := d'\<rparr>\<rparr>) = Some (Inr (Some 0, r', cm')) \<and>
    ring_ok r' \<and> ring_bytes r' = [] \<and> cm_ok cm' \<and> cm_ifs cm' = [0] \<and> cm_out cm' = out \<and>
    cm_heap cm' 0 = Some (attached_if ty fn ifpriv (pk_hflag rsp) cred) \<and> h_usr (cm_host cm') = d' \<and>
    cm_conn_if cm' = None \<and> cm_fd cm' = fd \<and> 0 \<le> fd \<and> h_txbufs (cm_host cm') = [] \<and> h_oom (cm_host cm') = [] \<and>
    \<not> cm_defer cm' \<and> (d' = d \<longrightarrow> cm\<lparr>cm_host := (cm_host cm)\<lparr>h_usr := d'\<rparr>\<rparr> = cm)"
proof -
  define cm where "cm = (snd (coremodel_init [] d))\<lparr>cm_fd := fd, cm_wake_fd := rp\<rparr>"
  let ?cm = "cm\<lparr>cm_host := (cm_host cm)\<lparr>h_usr := d'\<rparr>\<rparr>"
  obtain k' where k: "coremodel_connect e [] d (Some (host @ 0x3A # decimal n)) k = Inr ((ring_init, cm), k')" "0 \<le> fd"
    using connect_opened [OF e, of "[]" d] unfolding cm_def by blast
  have i: "\<not> cm_query ?cm" "0 \<le> cm_fd ?cm" "\<not> cm_defer ?cm" "h_oom (cm_host ?cm) = []" "cm_ok ?cm" "cm_conn_if ?cm = None"
    "cm_ifs ?cm = []" "cm_next ?cm = 0" "cm_out ?cm = []" "h_usr (cm_host ?cm) = d'" "cm_fd ?cm = fd"
    using k(2) by (simp_all add: cm_def coremodel_init_def cm_ok_def)
  have w: "write_loop ws (h_txbufs (host_push (attach_request ty bus addr None flags) (cm_host ?cm))) = (None, out, [])"
    using q(2) by (simp add: cm_def host_push_def)
  obtain r' cm' where s: "coremodel_attach_int ty bus addr None fn ifpriv flags now (attach_rounds ws rsp) (ring_init, ?cm) =
      Some (Inr (Some 0, r', cm'))" "ring_ok r'" "ring_bytes r' = []" "cm_ifs cm' = [0]" "cm_out cm' = out"
    "cm_heap cm' 0 = Some (attached_if ty fn ifpriv (pk_hflag rsp) cred)" "h_usr (cm_host cm') = d'" "cm_conn_if cm' = None"
    "cm_fd cm' = fd" "h_txbufs (cm_host cm') = []" "h_oom (cm_host cm') = []" "\<not> cm_defer cm'"
    using attach_answered_state [OF i(1-4) ring_init_ok ring_init_bytes q(1) w p, of fn ifpriv now] i by auto
  have "cm_ok cm'" using attach_int_safe [OF i(5,6) ring_init_ok q(1) s(1)] by simp
  moreover have "d' = d \<longrightarrow> ?cm = cm" by (simp add: cm_def coremodel_init_def)
  ultimately show ?thesis using k s by (intro exI [of _ cm] exI [of _ k'] exI [of _ r'] exI [of _ cm']) simp
qed

text \<open>When the state is that of the connection.\<close>

lemma attach_opened:
  assumes "env_opens e k host n rp wp fd" "wf_packet (attach_request ty bus addr None flags)"
    "write_loop ws (h_txbufs (host_push (attach_request ty bus addr None flags) (cm_host (snd (coremodel_init [] d))))) =
      (None, out, [])"
    "pk_conn rsp = CONN_QUERY" "pk_pkt rsp = PKT_QUERY_RSP_CONN" "pk_hflag rsp \<noteq> CONN_QUERY" "wf_packet rsp"
    "pk_data rsp = le_bytes 4 cred"
  shows "\<exists>cm k' r' cm'. coremodel_connect e [] d (Some (host @ 0x3A # decimal n)) k = Inr ((ring_init, cm), k') \<and>
    coremodel_attach_int ty bus addr None fn ifpriv flags now (attach_rounds ws rsp) (ring_init, cm) =
      Some (Inr (Some 0, r', cm')) \<and>
    ring_ok r' \<and> ring_bytes r' = [] \<and> cm_ok cm' \<and> cm_ifs cm' = [0] \<and> cm_out cm' = out \<and>
    cm_heap cm' 0 = Some (attached_if ty fn ifpriv (pk_hflag rsp) cred) \<and> h_usr (cm_host cm') = d \<and>
    cm_conn_if cm' = None \<and> cm_fd cm' = fd \<and> 0 \<le> fd \<and> h_txbufs (cm_host cm') = [] \<and> h_oom (cm_host cm') = [] \<and>
    \<not> cm_defer cm'"
proof -
  from attach_opened_state [OF assms, of fn ifpriv now d] obtain cm k' r' cm' where
    "coremodel_connect e [] d (Some (host @ 0x3A # decimal n)) k = Inr ((ring_init, cm), k')"
    "coremodel_attach_int ty bus addr None fn ifpriv flags now (attach_rounds ws rsp) (ring_init, cm) = Some (Inr (Some 0, r', cm'))"
    "ring_ok r' \<and> ring_bytes r' = [] \<and> cm_ok cm' \<and> cm_ifs cm' = [0] \<and> cm_out cm' = out \<and>
    cm_heap cm' 0 = Some (attached_if ty fn ifpriv (pk_hflag rsp) cred) \<and> h_usr (cm_host cm') = d \<and>
    cm_conn_if cm' = None \<and> cm_fd cm' = fd \<and> 0 \<le> fd \<and> h_txbufs (cm_host cm') = [] \<and> h_oom (cm_host cm') = [] \<and>
    \<not> cm_defer cm'"
    by auto
  then show ?thesis by blast
qed

end
