(* ===== verification/CanSend.thy ===== *)
theory CanSend
  imports Mains
begin

text \<open>
  \<open>examples/can-cr3020-rtc/can-cansend.c\<close>: a frame given as text is sent to the bus. The memory \<open>malloc\<close>
  returns for its data is not initialised; its bytes are the parameter \<open>fresh\<close>. The \<open>malloc\<close> of the
  program's small state, which is not checked, is taken to succeed.
\<close>

section \<open>The callbacks\<close>

definition can_cansend_receive :: "nat \<Rightarrow> u64 \<times> u64 \<Rightarrow> byte list \<Rightarrow> (int, 'd) step" where
  "can_cansend_receive priv ctrl data c h =
    (if \<not> can_dlc (fst ctrl) < 16 then None
     else if length data < can_datalen ! can_dlc (fst ctrl) then None
     else do {
       (_, can, h) \<leftarrow> coremodel_can_rx (Some c) (push_bit 15 1 OR push_bit 16 0x3FFFF OR push_bit 36 0x456, 0) None h;
       c \<leftarrow> can;
       Some (CAN_NAK, c, h) })"

definition can_cansend_rxcomplete :: "nat \<Rightarrow> int \<Rightarrow> (unit, 'd) step" where
  "can_cansend_rxcomplete priv nak c h = Some ((), c, h)"

definition can_cansend_func :: "'d can_func" where
  "can_cansend_func = \<lparr>cf_tx = Some can_cansend_receive, cf_rxcomplete = Some can_cansend_rxcomplete\<rparr>"

section \<open>The frame\<close>

text \<open>Of the three characters before the sign \<open>#\<close> only the decimal digits count.\<close>

definition cansend_digit :: "u64 \<Rightarrow> byte \<Rightarrow> u64" where
  "cansend_digit addr b = (if 0x30 \<le> b \<and> b \<le> 0x39 then push_bit 4 addr + ucast (b - 0x30) else addr)"

definition cansend_addr :: "byte list \<Rightarrow> u64" where
  "cansend_addr input = foldl cansend_digit 0 (take 3 input)"

definition cansend_nibble :: "byte \<Rightarrow> byte option" where
  "cansend_nibble b =
    (if 0x30 \<le> b \<and> b \<le> 0x39 then Some (b - 0x30)
     else if 0x41 \<le> b \<and> b \<le> 0x46 then Some (b - 0x41 + 0xA)
     else if 0x61 \<le> b \<and> b \<le> 0x66 then Some (b - 0x61 + 0xA)
     else None)"

definition cansend_byte :: "byte \<Rightarrow> byte \<Rightarrow> byte \<Rightarrow> byte" where
  "cansend_byte old hi lo =
    (let b = (case cansend_nibble hi of Some n \<Rightarrow> push_bit 4 n | None \<Rightarrow> old) in
     case cansend_nibble lo of Some n \<Rightarrow> b + n | None \<Rightarrow> b)"

definition cansend_dln :: "byte list \<Rightarrow> nat" where
  "cansend_dln input = (length input - 4) div 2"

definition cansend_data :: "byte list \<Rightarrow> byte list \<Rightarrow> byte list" where
  "cansend_data fresh input = map (\<lambda>i. cansend_byte (fresh ! i) (input ! (2 * i + 4)) (input ! (2 * i + 4 + 1)))
     [0..<cansend_dln input]"

definition cansend_ctrl :: "byte list \<Rightarrow> u64 \<times> u64" where
  "cansend_ctrl input = (push_bit 36 (cansend_addr input) OR of_nat (cansend_dln input), 0)"

text \<open>Sending it; without data the pointer to it is not read, and without memory it is written through NULL.\<close>

definition cansend_send :: "byte list \<Rightarrow> byte list \<Rightarrow> nat \<Rightarrow> 'd cm \<Rightarrow> 'd cm option" where
  "cansend_send fresh input i cm = do {
     cif \<leftarrow> cm_heap cm i;
     let (ok, h) = (if cansend_dln input > 0 then calloc (cm_host cm) else (True, cm_host cm));
     if \<not> ok then None
     else do {
       (_, can, h) \<leftarrow> coremodel_can_rx (Some (if_core cif)) (cansend_ctrl input) (Some (cansend_data fresh input)) h;
       c \<leftarrow> can;
       Some (cm\<lparr>cm_host := h, cm_heap := (cm_heap cm)(i \<mapsto> cif\<lparr>if_core := c\<rparr>)\<rparr>) } }"

definition cansend_usage :: "byte list list \<Rightarrow> bool" where
  "cansend_usage argv \<longleftrightarrow> length argv \<noteq> 4 \<or> length (argv ! 3) < 4 \<or> argv ! 3 ! 3 \<noteq> 0x23 \<or> length (argv ! 3) > 20"

definition cansend_main :: "byte list \<Rightarrow> 'd \<Rightarrow> program \<Rightarrow> 'd outcome option" where
  "cansend_main fresh d pg =
    (if cansend_usage (pg_argv pg) then Some (Exits 1)
     else client_main 4 (coremodel_attach_can (pg_argv pg ! 2) can_cansend_func 0) (cansend_send fresh (pg_argv pg ! 3)) 1 d pg)"

section \<open>The program as a node on the bus\<close>

text \<open>Each classic frame is answered with one acknowledgement, after a frame of the program's own.\<close>

interpretation cansend_node: can_node can_cansend_receive "\<lambda>ctrl. can_dlc (fst ctrl) < 16"
proof unfold_locales
  fix ctrl :: "u64 \<times> u64" and bs :: "byte list" and h :: "'d host" and p c
  assume a: "can_dlc (fst ctrl) < 16" "length bs = can_dlen (fst ctrl)" "h_oom h = []"
  have "can_datalen = coremodel_can_datalen" by (simp add: can_datalen_def coremodel_can_datalen_def)
  then have l: "can_datalen ! can_dlc (fst ctrl) = length bs" using a(1,2) by (simp add: can_dlen_def Let_def)
  have z: "can_dlen (push_bit 15 1 OR push_bit 16 0x3FFFF OR push_bit 36 0x456) = 0"
    by (simp add: can_dlen_def can_dlc_def coremodel_can_datalen_def)
  show "\<exists>res c' h'. can_cansend_receive p ctrl bs c h = Some (res, c', h') \<and> res \<noteq> CAN_STALL \<and> cb_frame c c' \<and> h_oom h' = []"
    using a l z
    by (cases "c_ebusy c = 0")
      (auto simp: can_cansend_receive_def coremodel_can_rx_def Let_def push_ignoring_data [where n = 16] cb_frame_def)
qed

section \<open>Text and frame\<close>

text \<open>A frame as text: an identifier of three decimal digits and the bytes in either case.\<close>

definition hex_digit :: "bool \<Rightarrow> nat \<Rightarrow> byte" where
  "hex_digit upper n = of_nat (if n < 10 then 48 + n else if upper then 55 + n else 87 + n)"

definition hex_byte :: "bool \<Rightarrow> byte \<Rightarrow> byte list" where
  "hex_byte upper b = [hex_digit upper (unat b div 16), hex_digit upper (unat b mod 16)]"

definition frame_text :: "bool \<Rightarrow> nat \<Rightarrow> nat \<Rightarrow> nat \<Rightarrow> byte list \<Rightarrow> byte list" where
  "frame_text upper a b c ds = [hex_digit upper a, hex_digit upper b, hex_digit upper c, 0x23] @ concat (map (hex_byte upper) ds)"

lemma nibble_digit:
  assumes "n < 16"
  shows "cansend_nibble (hex_digit upper n) = Some (of_nat n)"
proof -
  have "\<forall>n \<in> set [0..<16]. cansend_nibble (hex_digit True n) = Some (of_nat n) \<and>
      cansend_nibble (hex_digit False n) = Some (of_nat n)"
    by code_simp
  then show ?thesis using assms by (cases upper) simp_all
qed

lemma byte_digits: "cansend_byte old (hex_digit upper (unat b div 16)) (hex_digit upper (unat b mod 16)) = b"
proof -
  have "unat b div 16 < 16" using unat_u8_less [of b] by simp
  then have "cansend_byte old (hex_digit upper (unat b div 16)) (hex_digit upper (unat b mod 16)) =
      push_bit 4 (of_nat (unat b div 16)) + of_nat (unat b mod 16)"
    by (simp add: cansend_byte_def nibble_digit)
  also have "\<dots> = of_nat (unat b div 16 * 16 + unat b mod 16)"
    unfolding of_nat_add of_nat_mult by (simp add: push_bit_eq_mult)
  also have "\<dots> = b" unfolding div_mult_mod_eq by simp
  finally show ?thesis .
qed

lemma hex_bytes_nth:
  "i < length ds \<Longrightarrow> concat (map (hex_byte upper) ds) ! (2 * i) = hex_digit upper (unat (ds ! i) div 16) \<and>
     concat (map (hex_byte upper) ds) ! Suc (2 * i) = hex_digit upper (unat (ds ! i) mod 16)"
proof (induction ds arbitrary: i)
  case (Cons d ds)
  then show ?case by (cases i) (simp_all add: hex_byte_def)
qed simp

lemma length_hex_bytes: "length (concat (map (hex_byte upper) ds)) = 2 * length ds"
  by (induction ds) (simp_all add: hex_byte_def)

lemma digit_addr:
  assumes "n < 10"
  shows "cansend_digit acc (hex_digit upper n) = push_bit 4 acc + of_nat n"
proof -
  have "\<forall>n \<in> set [0..<10]. 48 \<le> hex_digit upper n \<and> hex_digit upper n \<le> 57 \<and> ucast (hex_digit upper n - 48) = (of_nat n :: u64)"
    by (simp add: hex_digit_def upt_rec)
  then show ?thesis using assms by (simp add: cansend_digit_def)
qed

lemma frame_parsed:
  assumes "a < 10" "b < 10" "c < 10" "length ds \<le> 8" "length extra \<le> 1"
  shows "cansend_addr (frame_text upper a b c ds @ extra) = of_nat (a * 256 + b * 16 + c) \<and>
    cansend_dln (frame_text upper a b c ds @ extra) = length ds \<and>
    cansend_data fresh (frame_text upper a b c ds @ extra) = ds"
proof -
  have l: "cansend_dln (frame_text upper a b c ds @ extra) = length ds"
    using assms(5) by (simp add: cansend_dln_def frame_text_def length_hex_bytes)
  have "cansend_data fresh (frame_text upper a b c ds @ extra) = map (\<lambda>i. ds ! i) [0..<length ds]"
    unfolding cansend_data_def l
    by (rule map_cong) (auto simp: frame_text_def nth_append length_hex_bytes hex_bytes_nth byte_digits)
  moreover have "cansend_addr (frame_text upper a b c ds @ extra) = of_nat (a * 256 + b * 16 + c)"
    using assms(1-3) by (simp add: cansend_addr_def frame_text_def digit_addr push_bit_eq_mult algebra_simps)
  ultimately show ?thesis using l by (simp add: map_nth)
qed

text \<open>The hexadecimal letters of an identifier are passed over: \<open>7ff\<close> is taken for 7.\<close>

lemma letters_skipped: "cansend_addr (hex_digit False 7 # hex_digit False 15 # hex_digit False 15 # rest) = 7"
  by (simp add: cansend_addr_def hex_digit_def cansend_digit_def)

text \<open>
  The arguments are accepted, and the frame they describe goes to the bus: one digit too many at the
  end is dropped.
\<close>

lemma cansend_accepts:
  assumes "length ds \<le> 7 \<or> (length ds = 8 \<and> extra = [])" "length extra \<le> 1"
  shows "\<not> cansend_usage [prog, target, bus, frame_text upper a b c ds @ extra]"
  using assms by (auto simp: cansend_usage_def frame_text_def length_hex_bytes)

lemma cansend_sends:
  assumes "cm_heap cm i = Some cif" "c_ebusy (if_core cif) = 0" "h_oom (cm_host cm) = []"
    and t: "a < 10" "b < 10" "c < 10" "length ds \<le> 8" "length extra \<le> 1"
  shows "\<exists>co. cansend_send fresh (frame_text upper a b c ds @ extra) i cm = Some (cm\<lparr>
      cm_host := host_push (can_frame co (push_bit 36 (of_nat (a * 256 + b * 16 + c)) OR of_nat (length ds), 0) ds) (cm_host cm),
      cm_heap := (cm_heap cm)(i \<mapsto> cif\<lparr>if_core := co\<lparr>c_ebusy := 1\<rparr>\<rparr>)\<rparr>) \<and>
    c_conn co = c_conn (if_core cif) \<and> c_trnidx co = (c_trnidx (if_core cif) + 1) AND 255"
proof -
  let ?ctrl = "(push_bit 36 (of_nat (a * 256 + b * 16 + c)) OR of_nat (length ds), 0) :: u64 \<times> u64"
  note f = frame_parsed [OF t, of upper fresh]
  have "(of_nat (length ds) :: u64) \<le> 8" using t(4) by (simp add: word_le_nat_alt unat_of_nat)
  then have dl: "can_dlen (fst ?ctrl) = length ds"
    using can_dlen_ctrl [of "of_nat (length ds)" "of_nat (a * 256 + b * 16 + c)"] t(4)
    by (simp add: cr_ctrl_def unat_of_nat del: of_nat_add)
  have ct: "cansend_ctrl (frame_text upper a b c ds @ extra) = ?ctrl" using f by (simp add: cansend_ctrl_def del: of_nat_add)
  have al: "(if length ds > 0 then calloc (cm_host cm) else (True, cm_host cm)) = (True, cm_host cm)" using assms(3) by simp
  let ?co = "(if_core cif)\<lparr>c_trnidx := (c_trnidx (if_core cif) + 1) AND 255\<rparr>"
  have r: "coremodel_can_rx (Some (if_core cif)) ?ctrl (Some ds) (cm_host cm) =
      Some (0, Some (?co\<lparr>c_ebusy := 1\<rparr>), host_push (can_frame ?co ?ctrl ds) (cm_host cm))"
    using can_rx_sends [OF assms(2), of ?ctrl ds "cm_host cm"] assms(3) dl by (simp add: Let_def)
  have "cansend_send fresh (frame_text upper a b c ds @ extra) i cm = Some (cm\<lparr>
      cm_host := host_push (can_frame ?co ?ctrl ds) (cm_host cm),
      cm_heap := (cm_heap cm)(i \<mapsto> cif\<lparr>if_core := ?co\<lparr>c_ebusy := 1\<rparr>\<rparr>)\<rparr>)"
    unfolding cansend_send_def ct f [THEN conjunct2, THEN conjunct1] f [THEN conjunct2, THEN conjunct2] al
    by (simp only: assms(1) r Option.bind.simps Let_def prod.case not_True_eq_False if_False)
  then show ?thesis by (intro exI [of _ ?co]) simp
qed

end
