(* ===== verification/Runs.thy ===== *)
theory Runs
  imports Mains CanSend
begin

text \<open>
  A run of a program, from its arguments to what it printed: the connection is opened, the attach is
  answered, and the virtual machine sends packets.
\<close>

section \<open>A round of packets in the main loop\<close>

lemma round_packets:
  assumes "ring_ok r" "ring_bytes r = []" "0 \<le> cm_fd cm" "ps \<noteq> []" "\<forall>p \<in> set ps. wf_packet p" "length (stream ps) \<le> MAX_PKT"
    and h: "deliver coremodel_process_packet ps (cm\<lparr>cm_host := (cm_host cm)\<lparr>h_need_wake := False\<rparr>\<rparr>) = Some ([], cm')"
      "h_txbufs (cm_host cm') = []"
  shows "\<exists>r'. coremodel_processfds \<lparr>fd_wake = False, fd_read = True, fd_write = False\<rparr> [RData (stream ps)] []
      (r, cm) = Some (0, r', cm') \<and> ring_ok r' \<and> ring_bytes r' = []"
proof -
  obtain p qs where "ps = p # qs" using assms(4) by (cases ps) auto
  then have "8 \<le> length (stream ps)" using assms(5) wire_image_ge_8 [of p] by simp
  then have "stream ps \<noteq> []" by auto
  then obtain r1 where r1: "read_loop [RData (stream ps)] r = Some (None, r1)" "ring_ok r1"
    "ring_bytes r1 = stream ps @ []"
    using read_loop_chunk [OF assms(1), of "stream ps"] assms(2,6) by auto
  let ?cm = "cm\<lparr>cm_host := (cm_host cm)\<lparr>h_need_wake := False\<rparr>\<rparr>"
  obtain r2 where "coremodel_process_rxq coremodel_process_packet (r1, ?cm) = Some (r2, cm')"
    "ring_ok r2" "ring_bytes r2 = []"
    using process_rxq_refines [OF r1(2,3) assms(5), of coremodel_process_packet ?cm] h(1)
    by (auto simp: incomplete_def stream_def)
  then show ?thesis using assms(3) r1(1) h(2) by (simp add: coremodel_processfds_def Let_def)
qed

definition data_round :: "packet list \<Rightarrow> round" where
  "data_round ps = \<lparr>r_fds = \<lparr>fd_wake = False, fd_read = True, fd_write = False\<rparr>, r_reads = [RData (stream ps)],
     r_writes = [], r_now = 0\<rparr>"

text \<open>The loop without a time limit takes the packets and waits for more.\<close>

lemma mainloop_waits:
  assumes "ring_ok r" "ring_bytes r = []" "0 \<le> cm_fd cm" "\<not> cm_defer cm" "ps \<noteq> []" "\<forall>p \<in> set ps. wf_packet p"
    "length (stream ps) \<le> MAX_PKT"
    and h: "deliver coremodel_process_packet ps ((prepared cm)\<lparr>cm_host := (cm_host (prepared cm))\<lparr>h_need_wake := False\<rparr>\<rparr>) = Some ([], cm')"
      "h_txbufs (cm_host cm') = []" "0 \<le> cm_fd cm'" "\<not> cm_defer cm'"
  shows "\<exists>r'. coremodel_mainloop now (- 1) [data_round ps] (r, cm) = Some (Inl (r', prepared cm')) \<and> ring_ok r' \<and> ring_bytes r' = []"
proof -
  have u: "unat (ring_used r) < RX_BUF" using assms(1,2) by (rule ring_empty_used)
  obtain r' where r': "coremodel_processfds \<lparr>fd_wake = False, fd_read = True, fd_write = False\<rparr> [RData (stream ps)] []
      (r, prepared cm) = Some (0, r', cm')" "ring_ok r'" "ring_bytes r' = []"
    using round_packets [OF assms(1,2) _ assms(5-7), of "prepared cm" cm'] assms(3) h(1,2) by auto
  have u': "unat (ring_used r') < RX_BUF" using r'(2,3) by (rule ring_empty_used)
  have l: "coremodel_mainloop_int now' e (- 1) False [] (r', cm') = Some (Inl (r', prepared cm'))" for now' e
    using preparefds_plain [OF h(3,4) u', of 0] by (subst coremodel_mainloop_int.simps) auto
  have "coremodel_mainloop_int now (now + - 1) (- 1) False [data_round ps] (r, cm) = Some (Inl (r', prepared cm'))"
    using preparefds_plain [OF assms(3,4) u, of 0] r'(1) l
    by (subst coremodel_mainloop_int.simps) (auto simp: data_round_def)
  then show ?thesis using r'(2,3) by (simp add: coremodel_mainloop_def)
qed

section \<open>The UART client\<close>

lemma uart_data:
  assumes "cm_ok cm" "cm_ifs cm = [x]" "cm_conn_if cm = None" "h_oom (cm_host cm) = []" "cm_heap cm x = Some cif"
    "if_func cif = UartF test_uart_func" "if_rxbufs cif = []" "c_type (if_core cif) = COREMODEL_UART"
    "\<not> c_busy (if_core cif)" "c_offs (if_core cif) = 0" "c_conn (if_core cif) \<noteq> CONN_QUERY"
    and p: "pk_conn p = c_conn (if_core cif)" "pk_pkt p = PKT_UART_TX" "wf_packet p" "pk_data p \<noteq> []"
  shows "coremodel_process_packet p cm = Some (False, cm\<lparr>cm_host := say (map OutChar (pk_data p)) (cm_host cm),
    cm_heap := (cm_heap cm)(x \<mapsto> cif\<lparr>if_defer_pkt := False\<rparr>)\<rparr>)"
proof -
  have pl: "unat (payload_len p) = length (pk_data p)" by (rule unat_payload_len [OF p(3)])
  have sl: "payload_slice p 0 (unat (payload_len p)) = Some (pk_data p)" by (simp add: payload_slice_def pl)
  have "(of_nat (length (pk_data p)) :: u32) = payload_len p" using pl [symmetric] by simp
  then have "advance_pkt (UartF test_uart_func) p (if_core cif) (cm_host cm) =
      Some (0, if_core cif, say (map OutChar (pk_data p)) (cm_host cm))"
    using assms(8-10) p sl
    by (simp add: advance_pkt_def coremodel_advance_if_uart_def test_uart_func_def test_uart_tx_def Let_def)
  then have "coremodel_advance_if (cif\<lparr>if_rxbufs := [p], if_defer_pkt := False\<rparr>) (cm_host cm) =
      Some (cif\<lparr>if_defer_pkt := False\<rparr>, say (map OutChar (pk_data p)) (cm_host cm))"
    using assms(6,7) by (simp add: coremodel_advance_if_def advance_loop.simps(2))
  moreover have "coremodel_process_packet p cm = do {
      cm \<leftarrow> advance_at x (cm\<lparr>cm_heap := (cm_heap cm)(x \<mapsto> cif\<lparr>if_rxbufs := if_rxbufs cif @ [p],
               if_defer_pkt := (cm_conn_if cm = Some x)\<rparr>), cm_defer := (cm_defer cm \<or> cm_conn_if cm = Some x)\<rparr>);
      Some (False, cm) }"
    by (rule process_packet_delivers) (use assms in \<open>simp_all add: conn_of_def\<close>)
  ultimately show ?thesis using assms(3,7) by (simp add: advance_at_def)
qed

lemma say_append: "say ys (say xs h) = say (xs @ ys) h"
  by (simp add: say_def)

lemma uart_stream:
  assumes "cm_ok cm" "cm_ifs cm = [x]" "cm_conn_if cm = None" "h_oom (cm_host cm) = []" "cm_heap cm x = Some cif"
    "if_func cif = UartF test_uart_func" "if_rxbufs cif = []" "c_type (if_core cif) = COREMODEL_UART"
    "\<not> c_busy (if_core cif)" "c_offs (if_core cif) = 0" "c_conn (if_core cif) \<noteq> CONN_QUERY"
    and "\<forall>p \<in> set ps. pk_conn p = c_conn (if_core cif) \<and> pk_pkt p = PKT_UART_TX \<and> wf_packet p \<and> pk_data p \<noteq> [] \<and> wire_size p \<le> MAX_PKT"
  shows "\<exists>hp. deliver coremodel_process_packet ps cm =
    Some ([], cm\<lparr>cm_host := say (map OutChar (concat (map pk_data ps))) (cm_host cm), cm_heap := hp\<rparr>)"
  using assms
proof (induction ps arbitrary: cm cif)
  case Nil
  then show ?case by (intro exI [of _ "cm_heap cm"]) (simp add: say_def)
next
  case (Cons p ps)
  let ?cm = "cm\<lparr>cm_host := say (map OutChar (pk_data p)) (cm_host cm), cm_heap := (cm_heap cm)(x \<mapsto> cif\<lparr>if_defer_pkt := False\<rparr>)\<rparr>"
  have s: "coremodel_process_packet p cm = Some (False, ?cm)"
    using uart_data [OF Cons.prems(1-11), of p] Cons.prems(12) by simp
  have ok: "cm_ok ?cm" by (rule process_packet_ok [OF Cons.prems(1) s])
  obtain hp where "deliver coremodel_process_packet ps ?cm =
      Some ([], ?cm\<lparr>cm_host := say (map OutChar (concat (map pk_data ps))) (cm_host ?cm), cm_heap := hp\<rparr>)"
    using Cons.IH [OF ok, of "cif\<lparr>if_defer_pkt := False\<rparr>"] Cons.prems(2-12) by auto
  then show ?case using s Cons.prems(12) by (intro exI [of _ hp]) (simp add: say_append)
qed

text \<open>
  The program \<open>coremodel-uart host:port bus\<close> against a machine that accepts the connection, answers the
  attach and then sends data: it has sent its request, and printed all of the data, and waits for more.
\<close>

lemma uart_session:
  assumes a: "pg_argv pg = [prog, host @ 0x3A # decimal n, bus]" "pg_oom pg = []"
      "env_opens (pg_env pg) (pg_proc pg) host n rp wp fd"
    and q: "wf_packet (attach_request COREMODEL_UART bus 0 None 0)"
      "write_loop ws (h_txbufs (host_push (attach_request COREMODEL_UART bus 0 None 0) (cm_host (snd (coremodel_init [] ([] :: out_item list)))))) =
        (None, out, [])"
    and r: "pg_attach pg = attach_rounds ws rsp" "pk_conn rsp = CONN_QUERY" "pk_pkt rsp = PKT_QUERY_RSP_CONN"
      "pk_hflag rsp \<noteq> CONN_QUERY" "wf_packet rsp" "pk_data rsp = le_bytes 4 (cred :: u32)"
    and d: "pg_rounds pg = [data_round ps]" "ps \<noteq> []" "length (stream ps) \<le> MAX_PKT"
      "\<forall>p \<in> set ps. pk_conn p = pk_hflag rsp \<and> pk_pkt p = PKT_UART_TX \<and> wf_packet p \<and> pk_data p \<noteq> [] \<and> wire_size p \<le> MAX_PKT"
  shows "\<exists>r' cm'. uart_main pg = Some (Waits (r', cm')) \<and> cm_fd cm' = fd \<and> cm_out cm' = out \<and>
    printed (cm_host cm') = concat (map pk_data ps)"
proof -
  let ?cif = "attached_if COREMODEL_UART (UartF test_uart_func) 0 (pk_hflag rsp) cred"
  obtain cm k' r1 cm1 where c: "coremodel_connect (pg_env pg) [] [] (Some (host @ 0x3A # decimal n)) (pg_proc pg) = Inr ((ring_init, cm), k')"
    and s: "coremodel_attach_int COREMODEL_UART bus 0 None (UartF test_uart_func) 0 0 (pg_now pg)
      (attach_rounds ws rsp) (ring_init, cm) = Some (Inr (Some 0, r1, cm1))" "ring_ok r1" "ring_bytes r1 = []"
    "cm_ifs cm1 = [0]" "cm_out cm1 = out" "cm_heap cm1 0 = Some ?cif" "h_usr (cm_host cm1) = []" "cm_conn_if cm1 = None"
    "cm_fd cm1 = fd" "h_txbufs (cm_host cm1) = []" "h_oom (cm_host cm1) = []" "\<not> cm_defer cm1"
    and ok: "cm_ok cm1" "0 \<le> fd"
    using attach_opened [OF a(3) q r(2-6), of "UartF test_uart_func" 0 "pg_now pg"] by blast
  let ?cm = "(prepared cm1)\<lparr>cm_host := (cm_host (prepared cm1))\<lparr>h_need_wake := False\<rparr>\<rparr>"
  obtain hp where dl: "deliver coremodel_process_packet ps ?cm =
      Some ([], ?cm\<lparr>cm_host := say (map OutChar (concat (map pk_data ps))) (cm_host ?cm), cm_heap := hp\<rparr>)"
    using uart_stream [of ?cm 0 ?cif ps] ok(1) s d(4) r(4) by (auto simp: attached_if_def new_if_def)
  let ?cm' = "?cm\<lparr>cm_host := say (map OutChar (concat (map pk_data ps))) (cm_host ?cm), cm_heap := hp\<rparr>"
  obtain r' where r': "coremodel_mainloop (pg_start pg) (- 1) [data_round ps] (r1, cm1) = Some (Inl (r', prepared ?cm'))"
    using mainloop_waits [OF s(2,3) _ _ d(2) _ d(3) dl, of "pg_start pg"] s d(4) ok(2) by (auto simp: say_def)
  have pr: "printed (cm_host (prepared ?cm')) = concat (map pk_data ps)"
    using s(7) by (simp add: printed_def say_def comp_def)
  have "uart_main pg = Some (Waits (r', prepared ?cm'))"
    using a(1,2) c s(1) r(1) d(1) r'
    by (simp add: uart_main_def client_main_def coremodel_attach_uart_def main_loop_def)
  then show ?thesis using pr s(5,9) by (intro exI [of _ r'] exI [of _ "prepared ?cm'"]) simp
qed

section \<open>The CAN program\<close>

definition write_round :: "int \<Rightarrow> round" where
  "write_round t = \<lparr>r_fds = \<lparr>fd_wake = False, fd_read = False, fd_write = True\<rparr>, r_reads = [], r_writes = [WData 64], r_now = t\<rparr>"

text \<open>The loop with a time limit that has not passed writes a short packet, and waits.\<close>

lemma mainloop_writes:
  assumes "ring_ok r" "ring_bytes r = []" "0 \<le> cm_fd cm" "\<not> cm_defer cm" "0 \<le> usec"
    "h_txbufs (cm_host cm) = h_txbufs (host_push p h)" "h_txbufs h = []" "wf_packet p" "wire_size p \<le> 64"
  shows "\<exists>cm'. coremodel_mainloop now usec [write_round now] (r, cm) = Some (Inl (r, cm')) \<and>
    cm_out cm' = cm_out cm @ wire_image p \<and> h_txbufs (cm_host cm') = []"
proof -
  have u: "unat (ring_used r) < RX_BUF" using assms(1,2) by (rule ring_empty_used)
  have sz: "unat (pad4 (ucast (pk_len p))) = wire_size p" by (simp add: wire_size_eq unat_pad4_u16)
  have e: "of_nat (wire_size p) = pad4 (ucast (pk_len p))" unfolding sz [symmetric] by simp
  have m: "min 64 (wire_size p) = wire_size p" using assms(9) by simp
  have pos: "0 < wire_size p" using wire_image_ge_8 [OF assms(8)] assms(8) by simp
  have "write_loop [WData 64] (h_txbufs (cm_host (prepared cm))) = (None, wire_image p, [])"
    using assms(6-8) sz e m pos by (simp add: host_push_def Let_def)
  then have w: "coremodel_processfds \<lparr>fd_wake = False, fd_read = False, fd_write = True\<rparr> [] [WData 64] (r, prepared cm) =
      Some (0, r, (prepared cm)\<lparr>cm_host := (cm_host (prepared cm))\<lparr>h_need_wake := False, h_txbufs := []\<rparr>, cm_out := cm_out cm @ wire_image p\<rparr>)"
    using round_write [OF assms(1,2), of "prepared cm" "[WData 64]" "wire_image p" "[]"] assms(3) by simp
  let ?cm = "(prepared cm)\<lparr>cm_host := (cm_host (prepared cm))\<lparr>h_need_wake := False, h_txbufs := []\<rparr>, cm_out := cm_out cm @ wire_image p\<rparr>"
  have ne: "h_txbufs (cm_host cm) \<noteq> []" using assms(6) by (simp add: host_push_def)
  have l: "coremodel_mainloop_int now (now + usec) usec False [] (r, ?cm) = Some (Inl (r, prepared ?cm))"
    using preparefds_plain [of ?cm r 0] assms(3-5) u by (subst coremodel_mainloop_int.simps) auto
  have "coremodel_mainloop_int now (now + usec) usec False [write_round now] (r, cm) = Some (Inl (r, prepared ?cm))"
    using preparefds_plain [OF assms(3,4) u, of 0] assms(5) w l ne
    by (subst coremodel_mainloop_int.simps) (auto simp: write_round_def)
  then show ?thesis by (intro exI [of _ "prepared ?cm"]) (simp add: coremodel_mainloop_def)
qed

text \<open>
  The program \<open>coremodel-cansend host:port bus frame\<close> against a machine that accepts the connection and
  answers the attach: after its request it sends the frame, and waits for the end of its time.
\<close>

lemma cansend_session:
  assumes arg: "pg_argv pg = [prog, host @ 0x3A # decimal n, bus, frame_text upper a b c ds @ extra]" "pg_oom pg = []"
      "env_opens (pg_env pg) (pg_proc pg) host n rp wp fd"
    and t: "a < 10" "b < 10" "c < 10" "length ds \<le> 7 \<or> (length ds = 8 \<and> extra = [])" "length extra \<le> 1"
    and q: "wf_packet (attach_request COREMODEL_CAN bus 0 None 0)"
      "write_loop ws (h_txbufs (host_push (attach_request COREMODEL_CAN bus 0 None 0) (cm_host (snd (coremodel_init [] ()))))) =
        (None, out, [])"
    and r: "pg_attach pg = attach_rounds ws rsp" "pk_conn rsp = CONN_QUERY" "pk_pkt rsp = PKT_QUERY_RSP_CONN"
      "pk_hflag rsp \<noteq> CONN_QUERY" "wf_packet rsp" "pk_data rsp = le_bytes 4 (cred :: u32)"
    and w: "pg_rounds pg = [write_round (pg_start pg)]"
  shows "\<exists>r' cm' co. cansend_main fresh () pg = Some (Waits (r', cm')) \<and> c_conn co = pk_hflag rsp \<and> c_trnidx co = 1 \<and>
    cm_out cm' = out @ wire_image (can_frame co (push_bit 36 (of_nat (a * 256 + b * 16 + c)) OR of_nat (length ds), 0) ds)"
proof -
  let ?cif = "attached_if COREMODEL_CAN (CanF can_cansend_func :: unit func) 0 (pk_hflag rsp) cred"
  obtain cm k' r1 cm1 where k: "coremodel_connect (pg_env pg) [] () (Some (host @ 0x3A # decimal n)) (pg_proc pg) = Inr ((ring_init, cm), k')"
    and s: "coremodel_attach_int COREMODEL_CAN bus 0 None (CanF can_cansend_func) 0 0 (pg_now pg)
      (attach_rounds ws rsp) (ring_init, cm) = Some (Inr (Some 0, r1, cm1))" "ring_ok r1" "ring_bytes r1 = []"
    "cm_out cm1 = out" "cm_heap cm1 0 = Some ?cif" "cm_fd cm1 = fd" "h_txbufs (cm_host cm1) = []"
    "h_oom (cm_host cm1) = []" "\<not> cm_defer cm1" and fd: "0 \<le> fd"
    using attach_opened [OF arg(3) q r(2-6), of "CanF can_cansend_func" 0 "pg_now pg"] by blast
  have f: "c_ebusy (if_core ?cif) = 0" "c_conn (if_core ?cif) = pk_hflag rsp" "c_trnidx (if_core ?cif) = 0"
    by (simp_all add: attached_if_def new_if_def)
  have l8: "length ds \<le> 8" using t(4) by auto
  let ?ctrl = "(push_bit 36 (of_nat (a * 256 + b * 16 + c)) OR of_nat (length ds), 0) :: u64 \<times> u64"
  from cansend_sends [OF s(5) f(1) s(8) t(1-3) l8 t(5), of fresh upper]
  obtain co where co: "cansend_send fresh (frame_text upper a b c ds @ extra) 0 cm1 = Some (cm1\<lparr>
      cm_host := host_push (can_frame co ?ctrl ds) (cm_host cm1),
      cm_heap := (cm_heap cm1)(0 \<mapsto> ?cif\<lparr>if_core := co\<lparr>c_ebusy := 1\<rparr>\<rparr>)\<rparr>)" "c_conn co = c_conn (if_core ?cif)" "c_trnidx co = (c_trnidx (if_core ?cif) + 1) AND 255"
    by (elim exE conjE) (rule that)
  have ci: "c_conn co = pk_hflag rsp" "c_trnidx co = 1" using co(2,3) f(2,3) by simp_all
  let ?p = "can_frame co ?ctrl ds"
  let ?cm2 = "cm1\<lparr>cm_host := host_push ?p (cm_host cm1), cm_heap := (cm_heap cm1)(0 \<mapsto> ?cif\<lparr>if_core := co\<lparr>c_ebusy := 1\<rparr>\<rparr>)\<rparr>"
  have pl: "unat (pk_len ?p) = 24 + length ds" using l8 by (simp add: can_frame_def unat_len16)
  have wf: "wf_packet ?p" using pl by (simp add: wf_packet_def can_frame_def)
  have ws: "wire_size ?p \<le> 64" using l8 unfolding wire_size_eq pl by linarith
  obtain cm3 where m: "coremodel_mainloop (pg_start pg) 1 [write_round (pg_start pg)] (r1, ?cm2) = Some (Inl (r1, cm3))"
    "cm_out cm3 = out @ wire_image ?p"
    using mainloop_writes [OF s(2,3), of ?cm2 1 ?p "cm_host cm1" "pg_start pg"] s(4,6,7,9) wf ws fd by auto
  have us: "\<not> cansend_usage (pg_argv pg)" unfolding arg(1) by (rule cansend_accepts [OF t(4,5)])
  have "cansend_main fresh () pg = Some (Waits (r1, cm3))"
    using us arg(1,2) k s(1) r(1) w m(1) co(1)
    by (simp add: cansend_main_def client_main_def coremodel_attach_can_def main_loop_def)
  then show ?thesis using ci m(2) by blast
qed

end
