(* ===== verification/LoopMains.thy ===== *)
theory LoopMains
  imports Mains I2cMux SpiMux AdxlTimer
begin

text \<open>
  The \<open>main\<close> functions that call the main loop again and again: \<open>examples/gpio/coremodel-blinky.c\<close> and the
  two multiplexers; and what the accelerometer's \<open>main\<close> does before it starts its threads. Each call of
  the main loop takes a time and rounds from a script; \<open>Waits\<close> is a script that ended.
\<close>

type_synonym main_script = "(int \<times> round list) list"

definition next_call :: "main_script \<Rightarrow> int \<times> round list" where
  "next_call scs = (case scs of [] \<Rightarrow> (0, []) | sc # _ \<Rightarrow> sc)"

text \<open>A pin as \<open>strtoul\<close> gives it to a signed variable.\<close>

definition pin_number :: "byte list \<Rightarrow> int" where
  "pin_number a = sint (ucast (strtoul0 a) :: u32)"

section \<open>The blinking client\<close>

definition blinky_init :: coremodel_gpio_state where
  "blinky_init = \<lparr>bl_pin = replicate 54 \<lparr>pin_handle = None, pin_mvolt = 0\<rparr>, bl_live = False\<rparr>"

definition blinky_func :: "coremodel_gpio_state gpio_func" where
  "blinky_func = \<lparr>gf_notify = Some blinky_notify\<rparr>"

definition blinky_set :: "(coremodel_gpio_state \<Rightarrow> coremodel_gpio_state) \<Rightarrow> coremodel_gpio_state cm \<Rightarrow> coremodel_gpio_state cm" where
  "blinky_set f cm = cm\<lparr>cm_host := (cm_host cm)\<lparr>h_usr := f (h_usr (cm_host cm))\<rparr>\<rparr>"

definition blinky_valid :: "byte list \<Rightarrow> bool" where
  "blinky_valid a \<longleftrightarrow> 0 \<le> pin_number a \<and> pin_number a < 54"

text \<open>The handles of the pins are the interfaces \<open>hs\<close>; the callback finds a copy in its state.\<close>

fun blinky_attach ::
  "byte list \<Rightarrow> byte list list \<Rightarrow> main_script \<Rightarrow> (nat \<Rightarrow> nat option) \<Rightarrow> ring \<times> coremodel_gpio_state cm \<Rightarrow>
     (coremodel_gpio_state outcome + (nat \<Rightarrow> nat option) \<times> main_script \<times> ring \<times> coremodel_gpio_state cm) option" where
  "blinky_attach bus [] scs hs s = Some (Inr (hs, scs, s))"
| "blinky_attach bus (a # as) scs hs s =
    (if \<not> blinky_valid a then blinky_attach bus as scs hs s
     else let g = nat (pin_number a); (now, rs) = next_call scs in do {
       out \<leftarrow> coremodel_attach_gpio bus (of_nat g) blinky_func g now rs s;
       (case out of
          Inl s \<Rightarrow> Some (Inl (Waits s))
        | Inr (None, s) \<Rightarrow> map_option Inl (main_exit 1 s)
        | Inr (Some i, r, cm) \<Rightarrow> do {
            cif \<leftarrow> cm_heap cm i;
            let cm = blinky_set (\<lambda>st. st\<lparr>bl_pin := (bl_pin st)[g := (bl_pin st ! g)\<lparr>pin_handle := Some (if_core cif)\<rparr>]\<rparr>) cm;
            blinky_attach bus as (tl scs) (hs(g \<mapsto> i)) (r, cm) }) })"

fun blinky_loop ::
  "main_script \<Rightarrow> ring \<times> coremodel_gpio_state cm \<Rightarrow>
     ((ring \<times> coremodel_gpio_state cm) + main_script \<times> ring \<times> coremodel_gpio_state cm) option" where
  "blinky_loop [] s = Some (if bl_live (h_usr (cm_host (snd s))) then Inl s else Inr ([], s))"
| "blinky_loop (sc # scs) s =
    (if \<not> bl_live (h_usr (cm_host (snd s))) then Some (Inr (sc # scs, s))
     else do {
       out \<leftarrow> coremodel_mainloop (fst sc) 800000 (snd sc) s;
       (case out of Inl s \<Rightarrow> Some (Inl s) | Inr (_, s) \<Rightarrow> blinky_loop scs s) })"

definition blinky_pulse ::
  "nat \<Rightarrow> u32 \<Rightarrow> int \<times> round list \<Rightarrow> ring \<times> 'd cm \<Rightarrow> ((ring \<times> 'd cm) + ring \<times> 'd cm) option" where
  "blinky_pulse i drven sc s = do {
     cif \<leftarrow> cm_heap (snd s) i;
     h \<leftarrow> coremodel_gpio_set (Some (if_core cif)) drven 0 (cm_host (snd s));
     out \<leftarrow> coremodel_mainloop (fst sc) 100000 (snd sc) (fst s, (snd s)\<lparr>cm_host := h\<rparr>);
     Some (case out of Inl s \<Rightarrow> Inl s | Inr (_, s) \<Rightarrow> Inr s) }"

definition blinky_pin_off ::
  "nat \<Rightarrow> main_script \<Rightarrow> ring \<times> 'd cm \<Rightarrow> ((ring \<times> 'd cm) + main_script \<times> ring \<times> 'd cm) option" where
  "blinky_pin_off i scs s = do {
     out \<leftarrow> blinky_pulse i 1 (next_call scs) s;
     (case out of
        Inl s \<Rightarrow> Some (Inl s)
      | Inr s \<Rightarrow> do {
          out \<leftarrow> blinky_pulse i 0 (next_call (tl scs)) s;
          (case out of
             Inl s \<Rightarrow> Some (Inl s)
           | Inr (r, cm) \<Rightarrow> do { cm \<leftarrow> coremodel_detach (Some i) cm; Some (Inr (tl (tl scs), r, cm)) }) }) }"

fun pins_off ::
  "nat option list \<Rightarrow> main_script \<Rightarrow> ring \<times> 'd cm \<Rightarrow> ((ring \<times> 'd cm) + main_script \<times> ring \<times> 'd cm) option" where
  "pins_off [] scs s = Some (Inr (scs, s))"
| "pins_off (None # xs) scs s = pins_off xs scs s"
| "pins_off (Some i # xs) scs s = do {
     out \<leftarrow> blinky_pin_off i scs s;
     (case out of Inl s \<Rightarrow> Some (Inl s) | Inr (scs, s) \<Rightarrow> pins_off xs scs s) }"

definition blinky_pins :: "byte list list \<Rightarrow> (nat \<Rightarrow> nat option) \<Rightarrow> nat option list" where
  "blinky_pins as hs = map (\<lambda>a. if blinky_valid a then hs (nat (pin_number a)) else None) as"

definition blinky_run ::
  "byte list list \<Rightarrow> (nat \<Rightarrow> nat option) \<Rightarrow> main_script \<Rightarrow> ring \<times> coremodel_gpio_state cm \<Rightarrow> coremodel_gpio_state outcome option" where
  "blinky_run as hs scs s = do {
     out \<leftarrow> blinky_loop scs (fst s, blinky_set (\<lambda>st. st\<lparr>bl_live := True\<rparr>) (snd s));
     (case out of
        Inl s \<Rightarrow> Some (Waits s)
      | Inr (scs, s) \<Rightarrow> do {
          out \<leftarrow> pins_off (blinky_pins as hs) scs s;
          (case out of Inl s \<Rightarrow> Some (Waits s) | Inr (_, s) \<Rightarrow> main_exit 0 s) }) }"

text \<open>\<open>ok\<close>: both allocations of the program succeed.\<close>

definition blinky_main :: "bool \<Rightarrow> main_script \<Rightarrow> program \<Rightarrow> coremodel_gpio_state outcome option" where
  "blinky_main ok scs pg =
    (if length (pg_argv pg) < 3 \<or> \<not> ok then Some (Exits 1)
     else (case coremodel_connect (pg_env pg) (pg_oom pg) blinky_init (Some (pg_argv pg ! 1)) (pg_proc pg) of
       Inl (res, _) \<Rightarrow> if res \<noteq> 0 then Some (Exits 1) else None
     | Inr (s, _) \<Rightarrow> do {
         out \<leftarrow> blinky_attach (pg_argv pg ! 2) (drop 3 (pg_argv pg)) scs (\<lambda>_. None) s;
         (case out of
            Inl res \<Rightarrow> Some res
          | Inr (hs, scs, s) \<Rightarrow> blinky_run (drop 3 (pg_argv pg)) hs scs s) }))"

section \<open>The I2C multiplexer\<close>

text \<open>The loop has no end; the result of the main loop is not looked at.\<close>

fun i2c_mux_loop ::
  "(nat \<Rightarrow> i2c_mux_state i2c_func) \<Rightarrow> byte list \<Rightarrow> ((int \<times> round list) \<times> attach_script) list \<Rightarrow> ring \<times> i2c_mux_state cm \<Rightarrow>
     (ring \<times> i2c_mux_state cm) option" where
  "i2c_mux_loop tab bus [] s = Some s"
| "i2c_mux_loop tab bus ((sc, asc) # scs) s = do {
     out \<leftarrow> coremodel_mainloop (fst sc) 1000000 (snd sc) s;
     (case out of
        Inl s \<Rightarrow> Some s
      | Inr (_, s) \<Rightarrow> do {
          out \<leftarrow> i2c_mux_poll tab bus asc s;
          (case out of Inl s \<Rightarrow> Some s | Inr (_, s) \<Rightarrow> i2c_mux_loop tab bus scs s) }) }"

text \<open>The name of the bus is copied into 32 bytes; \<open>func\<close> is the address of the dummy's table.\<close>

definition i2c_mux_main ::
  "bool \<Rightarrow> (nat \<Rightarrow> i2c_mux_state i2c_func) \<Rightarrow> nat \<Rightarrow> ((int \<times> round list) \<times> attach_script) list \<Rightarrow> program \<Rightarrow>
     i2c_mux_state outcome option" where
  "i2c_mux_main ok tab func scs pg =
    (if \<not> ok then Some (Exits 0)
     else if length (pg_argv pg) \<noteq> 3 then Some (Exits 1)
     else (case coremodel_connect (pg_env pg) (pg_oom pg) i2c_mux_init (Some (pg_argv pg ! 1)) (pg_proc pg) of
       Inl (res, _) \<Rightarrow> if res \<noteq> 0 then Some (Exits 1) else None
     | Inr (s, _) \<Rightarrow> let bus = pg_argv pg ! 2 in
         if length bus \<ge> 32 then None
         else do {
           out \<leftarrow> coremodel_attach_i2c bus 0x70 i2c_mux_func 0 0 (pg_now pg) (pg_attach pg) s;
           (case out of
              Inl s \<Rightarrow> Some (Waits s)
            | Inr (None, s) \<Rightarrow> main_exit 1 s
            | Inr (Some i, r, cm) \<Rightarrow> do {
                st \<leftarrow> mux_connect_all func [0..<CHANNEL_LIMIT] (mux_of cm);
                s \<leftarrow> i2c_mux_loop tab bus scs (r, mux_update (\<lambda>_. st) cm);
                Some (Waits s) }) }))"

section \<open>The SPI multiplexer\<close>

fun spi_attach_pins ::
  "byte list \<Rightarrow> nat \<Rightarrow> int list \<Rightarrow> main_script \<Rightarrow> nat option list \<Rightarrow> ring \<times> spi_mux_state cm \<Rightarrow>
     (spi_mux_state outcome + nat option list \<times> ring \<times> spi_mux_state cm) option" where
  "spi_attach_pins bus k [] scs hs s = Some (Inr (hs, s))"
| "spi_attach_pins bus k (g # gs) scs hs s =
    (if g < 0 then spi_attach_pins bus (Suc k) gs scs (hs @ [None]) s
     else let (now, rs) = next_call scs in do {
       out \<leftarrow> coremodel_attach_gpio bus (word_of_int g) spi_mux_gpio_func k now rs s;
       (case out of
          Inl s \<Rightarrow> Some (Inl (Waits s))
        | Inr (None, s) \<Rightarrow> map_option Inl (main_exit 1 s)
        | Inr (Some i, s) \<Rightarrow> spi_attach_pins bus (Suc k) gs (tl scs) (hs @ [Some i]) s) })"

definition spi_name :: "nat \<Rightarrow> byte list" where
  "spi_name i = [0x73, 0x70, 0x69, 0x2D, 0x64, 0x75, 0x6D, 0x6D, 0x79, 0x3A, of_nat (48 + i)]"

fun spi_connect_all :: "nat \<Rightarrow> nat list \<Rightarrow> spi_mux_state \<Rightarrow> spi_mux_state option" where
  "spi_connect_all func [] st = Some st"
| "spi_connect_all func (i # is) st = do { (_, st) \<leftarrow> spi_mux_connect i func 0 (spi_name i) st; spi_connect_all func is st }"

text \<open>The loop ends when the main loop fails.\<close>

fun spi_mux_loop ::
  "(nat \<Rightarrow> spi_mux_state spi_func) \<Rightarrow> byte list \<Rightarrow> u32 \<Rightarrow> spi_script list \<Rightarrow> ring \<times> spi_mux_state cm \<Rightarrow>
     ((ring \<times> spi_mux_state cm) + ring \<times> spi_mux_state cm) option" where
  "spi_mux_loop tab bus cs [] s = Some (Inl s)"
| "spi_mux_loop tab bus cs (x # xs) s = do {
     out \<leftarrow> spi_mux_round tab bus cs x s;
     (case out of
        Inl s \<Rightarrow> Some (Inl s)
      | Inr (go, s) \<Rightarrow> if go then spi_mux_loop tab bus cs xs s else Some (Inr s)) }"

definition spi_mux_main ::
  "bool \<Rightarrow> (nat \<Rightarrow> spi_mux_state spi_func) \<Rightarrow> nat \<Rightarrow> main_script \<Rightarrow> spi_script list \<Rightarrow> main_script \<Rightarrow> program \<Rightarrow>
     spi_mux_state outcome option" where
  "spi_mux_main ok tab func asc scs esc pg =
    (if \<not> ok then Some (Exits 0)
     else if length (pg_argv pg) \<noteq> 9 then Some (Exits 1)
     else (case coremodel_connect (pg_env pg) (pg_oom pg) spi_mux_init (Some (pg_argv pg ! 1)) (pg_proc pg) of
       Inl (res, _) \<Rightarrow> if res \<noteq> 0 then Some (Exits 1) else None
     | Inr (s, _) \<Rightarrow> let bus = pg_argv pg ! 2; gpiobus = pg_argv pg ! 4 in
         if length bus \<ge> 32 \<or> length gpiobus \<ge> 32 then None
         else do {
           out \<leftarrow> spi_attach_pins gpiobus 0 (map pin_number (drop 5 (pg_argv pg))) asc [] s;
           (case out of
              Inl res \<Rightarrow> Some res
            | Inr (hs, r, cm) \<Rightarrow> do {
                st \<leftarrow> spi_connect_all func [0..<CHANNELS] (spi_of cm);
                out \<leftarrow> spi_mux_loop tab bus (atoi (pg_argv pg ! 3)) scs
                  (r, spi_update (\<lambda>_. spi_mux_reset st) cm);
                (case out of
                   Inl s \<Rightarrow> Some (Waits s)
                 | Inr s \<Rightarrow> do {
                     out \<leftarrow> pins_off hs esc s;
                     (case out of Inl s \<Rightarrow> Some (Waits s) | Inr (_, s) \<Rightarrow> main_exit 0 s) }) }) }))"

section \<open>The accelerometer, before its threads\<close>

text \<open>
  The two pins are disabled, so none is attached. \<open>Inr\<close> is the program with its handle, when it starts the threads.
\<close>

definition adxl_setup ::
  "bool \<Rightarrow> int \<Rightarrow> program \<Rightarrow> (adxl outcome + nat \<times> ring \<times> adxl cm) option" where
  "adxl_setup ok epfd pg =
    (if \<not> ok then Some (Inl (Exits 0))
     else if length (pg_argv pg) \<noteq> 3 then Some (Inl (Exits 1))
     else (case coremodel_connect (pg_env pg) (pg_oom pg) adxl_zero (Some (pg_argv pg ! 1)) (pg_proc pg) of
       Inl (res, _) \<Rightarrow> if res \<noteq> 0 then Some (Inl (Exits 1)) else None
     | Inr ((r, cm), _) \<Rightarrow> do {
         let cm = cm\<lparr>cm_host := (cm_host cm)\<lparr>h_usr := adxl_init epfd\<rparr>\<rparr>;
         out \<leftarrow> coremodel_attach_i2c (pg_argv pg ! 2) 0x53 adi_adxl36x_func 0 COREMODEL_I2C_WRITE_ACK (pg_now pg) (pg_attach pg) (r, cm);
         (case out of
            Inl s \<Rightarrow> Some (Inl (Waits s))
          | Inr (None, r, cm) \<Rightarrow>
              map_option Inl (main_exit 1 (r, cm\<lparr>cm_host := (cm_host cm)\<lparr>h_usr := timer_evt_free (h_usr (cm_host cm))\<rparr>\<rparr>))
          | Inr (Some i, s) \<Rightarrow> Some (Inr (i, s))) }))"

section \<open>A connection that is lost\<close>

text \<open>
  On a closed socket the main loop fails at once. The blinking client does not look at that: without the
  pin that ends it, it calls the main loop for ever.
\<close>

lemma mainloop_closed:
  assumes "cm_fd cm < 0" "0 \<le> usec"
  shows "coremodel_mainloop now usec (x # rs) (r, cm) =
    Some (Inr (- ENOTCONN, r, cm\<lparr>cm_host := (cm_host cm)\<lparr>h_need_wake := False\<rparr>\<rparr>))"
  using assms by (simp add: coremodel_mainloop_def coremodel_mainloop_int.simps coremodel_preparefds_def processfds_closed)

lemma blinky_stuck:
  "cm_fd cm < 0 \<Longrightarrow> bl_live (h_usr (cm_host cm)) \<Longrightarrow> \<forall>sc \<in> set scs. snd sc \<noteq> [] \<Longrightarrow>
     \<exists>cm'. blinky_loop scs (r, cm) = Some (Inl (r, cm')) \<and> bl_live (h_usr (cm_host cm'))"
proof (induction scs arbitrary: cm)
  case Nil
  then show ?case by simp
next
  case (Cons sc scs)
  obtain x rs where x: "snd sc = x # rs" using Cons.prems(3) by (cases "snd sc") auto
  have m: "coremodel_mainloop (fst sc) 800000 (snd sc) (r, cm) =
      Some (Inr (- ENOTCONN, r, cm\<lparr>cm_host := (cm_host cm)\<lparr>h_need_wake := False\<rparr>\<rparr>))"
    unfolding x by (rule mainloop_closed) (use Cons.prems(1) in simp_all)
  show ?case
    using Cons.IH [of "cm\<lparr>cm_host := (cm_host cm)\<lparr>h_need_wake := False\<rparr>\<rparr>"] Cons.prems m by simp
qed

section \<open>How they start\<close>

lemma mux_connected:
  "mux_connect_all func [0..<CHANNEL_LIMIT] i2c_mux_init = Some (i2c_mux_init\<lparr>mx_channel :=
     map (\<lambda>i. [\<lparr>md_name = mux_name i, md_addr = of_nat (0x60 + i), md_state = 0, md_func = func, md_handle = None\<rparr>])
       [0..<CHANNEL_LIMIT]\<rparr>)"
  by (simp add: upt_rec i2c_mux_connect_def i2c_mux_init_def mux_name_def) (simp add: numeral_eq_Suc)

text \<open>The I2C multiplexer comes to its loop with one device on each channel and no channel connected.\<close>

lemma mux_begins:
  assumes a: "pg_argv pg = [prog, host @ 0x3A # decimal n, bus]" "pg_oom pg = []" "length bus < 32"
      "env_opens (pg_env pg) (pg_proc pg) host n rp wp fd"
    and q: "wf_packet (attach_request COREMODEL_I2C bus 0x70 None 0)"
      "write_loop ws (h_txbufs (host_push (attach_request COREMODEL_I2C bus 0x70 None 0)
        (cm_host (snd (coremodel_init [] i2c_mux_init))))) = (None, out, [])"
    and r: "pg_attach pg = attach_rounds ws rsp" "pk_conn rsp = CONN_QUERY" "pk_pkt rsp = PKT_QUERY_RSP_CONN"
      "pk_hflag rsp \<noteq> CONN_QUERY" "wf_packet rsp" "pk_data rsp = le_bytes 4 (cred :: u32)"
  shows "\<exists>r' cm'. i2c_mux_main True tab func [] pg = Some (Waits (r', cm')) \<and> cm_ifs cm' = [0] \<and> mx_chan (mux_of cm') = 0 \<and>
    mx_channel (mux_of cm') = map (\<lambda>i. [\<lparr>md_name = mux_name i, md_addr = of_nat (0x60 + i), md_state = 0, md_func = func,
      md_handle = None\<rparr>]) [0..<CHANNEL_LIMIT]"
proof -
  obtain cm k' r1 cm1 where c: "coremodel_connect (pg_env pg) [] i2c_mux_init (Some (host @ 0x3A # decimal n)) (pg_proc pg) =
      Inr ((ring_init, cm), k')"
    and s: "coremodel_attach_int COREMODEL_I2C bus 0x70 None (I2cF i2c_mux_func) 0 0 (pg_now pg) (attach_rounds ws rsp)
      (ring_init, cm) = Some (Inr (Some 0, r1, cm1))" "cm_ifs cm1 = [0]" "h_usr (cm_host cm1) = i2c_mux_init"
    using attach_opened [OF a(4) q r(2-6), of "I2cF i2c_mux_func" 0 "pg_now pg"] by blast
  define st where "st = i2c_mux_init\<lparr>mx_channel := map (\<lambda>i. [\<lparr>md_name = mux_name i, md_addr = of_nat (0x60 + i), md_state = 0,
    md_func = func, md_handle = None\<rparr>]) [0..<CHANNEL_LIMIT]\<rparr>"
  have m: "mux_connect_all func [0..<CHANNEL_LIMIT] (mux_of cm1) = Some st"
    unfolding mux_of_def s(3) st_def by (rule mux_connected)
  have "i2c_mux_main True tab func [] pg = Some (Waits (r1, mux_update (\<lambda>_. st) cm1))"
    using a(1-3) c s(1) m r(1) by (simp add: i2c_mux_main_def coremodel_attach_i2c_def del: mux_connect_all.simps upt.simps)
  then show ?thesis using s(2)
    by (intro exI [of _ r1] exI [of _ "mux_update (\<lambda>_. st) cm1"]) (simp add: mux_update_def mux_of_def st_def i2c_mux_init_def)
qed

text \<open>The accelerometer's threads start in a state from which its properties hold.\<close>

lemma adxl_starts:
  assumes a: "pg_argv pg = [prog, host @ 0x3A # decimal n, bus]" "pg_oom pg = []" "epfd \<noteq> 0"
      "env_opens (pg_env pg) (pg_proc pg) host n rp wp fd"
    and q: "wf_packet (attach_request COREMODEL_I2C bus 0x53 None COREMODEL_I2C_WRITE_ACK)"
      "write_loop ws (h_txbufs (host_push (attach_request COREMODEL_I2C bus 0x53 None COREMODEL_I2C_WRITE_ACK)
        (cm_host (snd (coremodel_init [] adxl_zero))))) = (None, out, [])"
    and r: "pg_attach pg = attach_rounds ws rsp" "pk_conn rsp = CONN_QUERY" "pk_pkt rsp = PKT_QUERY_RSP_CONN"
      "pk_hflag rsp \<noteq> CONN_QUERY" "wf_packet rsp" "pk_data rsp = le_bytes 4 (cred :: u32)"
  shows "\<exists>r' cm'. adxl_setup True epfd pg = Some (Inr (0, r', cm')) \<and> cm_ifs cm' = [0] \<and> cm_out cm' = out \<and>
    adxl_reach (cm_host cm')"
proof -
  obtain cm k' r1 cm1 where c: "coremodel_connect (pg_env pg) [] adxl_zero (Some (host @ 0x3A # decimal n)) (pg_proc pg) =
      Inr ((ring_init, cm), k')"
    and s: "coremodel_attach_int COREMODEL_I2C bus 0x53 None (I2cF adi_adxl36x_func) 0 COREMODEL_I2C_WRITE_ACK (pg_now pg)
      (attach_rounds ws rsp) (ring_init, cm\<lparr>cm_host := (cm_host cm)\<lparr>h_usr := adxl_init epfd\<rparr>\<rparr>) = Some (Inr (Some 0, r1, cm1))"
    "cm_ifs cm1 = [0]" "cm_out cm1 = out" "h_usr (cm_host cm1) = adxl_init epfd"
    using attach_opened_state [OF a(4) q r(2-6), of "I2cF adi_adxl36x_func" 0 "pg_now pg" "adxl_init epfd"] by blast
  have "adxl_setup True epfd pg = Some (Inr (0, r1, cm1))"
    using a(1,2) c s(1) r(1) by (simp add: adxl_setup_def coremodel_attach_i2c_def)
  then show ?thesis using s(2-4) a(3) by (auto intro: reach_init)
qed

end
