(* ===== verification/ListSession.thy ===== *)
theory ListSession
  imports DeviceList Handshake
begin

text \<open>
  A whole query of the device list: the requests that leave through the socket, the answers of the
  machine, which may cut its list anywhere between two devices, and the array that is returned.
\<close>

section \<open>The machine\<close>

text \<open>The answer with the devices from the index \<open>k\<close> on; without a device it ends the list.\<close>

definition list_answer :: "nat \<Rightarrow> device list \<Rightarrow> packet" where
  "list_answer k ds = \<lparr>pk_len = len16 (8 + length (concat (map dev_bytes ds))), pk_conn = CONN_QUERY,
     pk_pkt = PKT_QUERY_RSP_LIST, pk_bflag = 0, pk_hflag = len16 k, pk_data = concat (map dev_bytes ds)\<rparr>"

fun list_answers :: "nat \<Rightarrow> device list list \<Rightarrow> packet list" where
  "list_answers k [] = [list_answer k []]"
| "list_answers k (ds # dss) = list_answer k ds # list_answers (k + length ds) dss"

text \<open>The requests, one for each answer.\<close>

fun list_asked :: "nat \<Rightarrow> device list list \<Rightarrow> byte list" where
  "list_asked k [] = wire_image (list_request (len16 k))"
| "list_asked k (ds # dss) = wire_image (list_request (len16 k)) @ list_asked (k + length ds) dss"

definition answer_ok :: "device list \<Rightarrow> bool" where
  "answer_ok ds \<longleftrightarrow> ds \<noteq> [] \<and> (\<forall>d \<in> set ds. dev_ok d) \<and> length (concat (map dev_bytes ds)) + 12 \<le> MAX_PKT"

text \<open>Each request is written in one piece, in a round before its answer is read.\<close>

definition list_rounds :: "packet list \<Rightarrow> round list" where
  "list_rounds ps = concat (map (attach_rounds [WData 8]) ps)"

lemma answer_wf:
  assumes "length (concat (map dev_bytes ds)) + 12 \<le> MAX_PKT"
  shows "wf_packet (list_answer k ds)" "wire_size (list_answer k ds) \<le> MAX_PKT"
proof -
  have u: "unat (pk_len (list_answer k ds)) = 8 + length (concat (map dev_bytes ds))"
    using assms by (simp add: list_answer_def unat_len16)
  then show "wf_packet (list_answer k ds)" by (simp add: wf_packet_def list_answer_def)
  show "wire_size (list_answer k ds) \<le> MAX_PKT" using assms unfolding wire_size_eq u by linarith
qed

section \<open>One request and its answer\<close>

definition listing :: "'d cm \<Rightarrow> device list \<Rightarrow> bool" where
  "listing cm ds \<longleftrightarrow> cm_query cm \<and> 0 \<le> cm_fd cm \<and> \<not> cm_defer cm \<and> h_oom (cm_host cm) = [] \<and>
     cm_list_pkt cm = None \<and> list_is cm ds \<and>
     h_txbufs (cm_host cm) = [\<lparr>tb_size = 8, tb_rptr = 0, tb_buf = wire_image (list_request (len16 (length ds)))\<rparr>]"

lemma request_image: "length (wire_image (list_request k)) = 8" "pad4 (ucast (pk_len (list_request k))) = 8"
proof -
  have "wf_packet (list_request k)" by (simp add: wf_packet_def list_request_def)
  then show "length (wire_image (list_request k)) = 8" by (simp add: wire_size_eq list_request_def)
  show "pad4 (ucast (pk_len (list_request k))) = 8" by (simp add: list_request_def pad4_def)
qed

text \<open>The two rounds, for any result of handling the answer that leaves nothing unsent but what it queued.\<close>

lemma list_exchange:
  assumes l: "listing cm ds" and r: "ring_ok r" "ring_bytes r = []" and p: "wf_packet p" "wire_size p \<le> MAX_PKT"
    and h: "\<And>c. c = cm\<lparr>cm_host := (cm_host cm)\<lparr>h_need_wake := False, h_txflag := False, h_txbufs := []\<rparr>,
        cm_out := cm_out cm @ wire_image (list_request (len16 (length ds)))\<rparr> \<Longrightarrow>
        coremodel_process_packet p c = Some (False, cm') \<and> (h_txbufs (cm_host cm') = [] \<or> h_txflag (cm_host cm'))"
  shows "\<exists>r'. coremodel_mainloop_int now e (- 1) True (attach_rounds [WData 8] p @ rs) (r, cm) =
      coremodel_mainloop_int 0 e (- 1) True rs (r', cm') \<and> ring_ok r' \<and> ring_bytes r' = []"
proof -
  let ?q = "wire_image (list_request (len16 (length ds)))"
  let ?x1 = "hd (attach_rounds [WData 8] p)" and ?x2 = "hd (tl (attach_rounds [WData 8] p))"
  let ?c1 = "(prepared cm)\<lparr>cm_host := (cm_host (prepared cm))\<lparr>h_need_wake := False, h_txbufs := []\<rparr>, cm_out := cm_out cm @ ?q\<rparr>"
  have cm: "cm_query cm" "0 \<le> cm_fd cm" "\<not> cm_defer cm" using l by (simp_all add: listing_def)
  have u: "unat (ring_used r) < RX_BUF" using r by (rule ring_empty_used)
  have tx: "h_txbufs (cm_host cm) = [\<lparr>tb_size = 8, tb_rptr = 0, tb_buf = ?q\<rparr>]" using l by (simp add: listing_def)
  have "write_loop [WData 8] (h_txbufs (cm_host (prepared cm))) = (None, ?q, [])"
    using request_image(1) by (simp add: tx Let_def)
  then have w1: "coremodel_processfds \<lparr>fd_wake = False, fd_read = False, fd_write = True\<rparr> [] [WData 8] (r, prepared cm) =
      Some (0, r, ?c1)"
    using round_write [OF r, of "prepared cm" "[WData 8]" ?q "[]"] cm by simp
  have m1: "coremodel_mainloop_int now e (- 1) True (?x1 # ?x2 # rs) (r, cm) =
      coremodel_mainloop_int 0 e (- 1) True (?x2 # rs) (r, ?c1)"
    using mainloop_round [of cm r ?x1 "(r, ?c1)" now e "?x2 # rs"] cm u tx w1 by (simp add: attach_rounds_def)
  have c: "(prepared ?c1)\<lparr>cm_host := (cm_host (prepared ?c1))\<lparr>h_need_wake := False\<rparr>\<rparr> =
      cm\<lparr>cm_host := (cm_host cm)\<lparr>h_need_wake := False, h_txflag := False, h_txbufs := []\<rparr>, cm_out := cm_out cm @ ?q\<rparr>"
    by simp
  have pp: "coremodel_process_packet p ((prepared ?c1)\<lparr>cm_host := (cm_host (prepared ?c1))\<lparr>h_need_wake := False\<rparr>\<rparr>) = Some (False, cm')"
    "h_txbufs (cm_host cm') = [] \<or> h_txflag (cm_host cm')"
    using h [of "(prepared ?c1)\<lparr>cm_host := (cm_host (prepared ?c1))\<lparr>h_need_wake := False\<rparr>\<rparr>", OF c] by blast+
  obtain r2 where r2: "coremodel_processfds \<lparr>fd_wake = False, fd_read = True, fd_write = False\<rparr>
      [RData (wire_image p)] [] (r, prepared ?c1) = Some (0, r2, cm')" "ring_ok r2" "ring_bytes r2 = []"
    using round_packet_queued [OF r _ p pp(1)] pp(2) cm by auto
  have m2: "coremodel_mainloop_int 0 e (- 1) True (?x2 # rs) (r, ?c1) = coremodel_mainloop_int 0 e (- 1) True rs (r2, cm')"
    using mainloop_round [of ?c1 r ?x2 "(r2, cm')" 0 e rs] cm u r2(1) by (simp add: attach_rounds_def)
  have x: "attach_rounds [WData 8] p @ rs = ?x1 # ?x2 # rs" by (simp add: attach_rounds_def)
  show ?thesis by (intro exI [of _ r2]) (simp only: x m1 m2 r2(2,3) simp_thms)
qed

lemma list_step:
  assumes "listing cm ds0" "ring_ok r" "ring_bytes r = []" "answer_ok ds" "length ds0 + length ds < 32768"
  shows "\<exists>r' cm'. coremodel_mainloop_int now e (- 1) True (attach_rounds [WData 8] (list_answer (length ds0) ds) @ rs) (r, cm) =
      coremodel_mainloop_int 0 e (- 1) True rs (r', cm') \<and> ring_ok r' \<and> ring_bytes r' = [] \<and> listing cm' (ds0 @ ds) \<and>
    cm_out cm' = cm_out cm @ wire_image (list_request (len16 (length ds0)))"
proof -
  let ?p = "list_answer (length ds0) ds"
  have ok: "\<forall>d \<in> set ds. dev_ok d" "ds \<noteq> []" "length (concat (map dev_bytes ds)) + 12 \<le> MAX_PKT"
    using assms(4) by (simp_all add: answer_ok_def)
  let ?c = "cm\<lparr>cm_host := (cm_host cm)\<lparr>h_need_wake := False, h_txflag := False, h_txbufs := []\<rparr>,
        cm_out := cm_out cm @ wire_image (list_request (len16 (length ds0)))\<rparr>"
  have l: "list_is ?c ds0" "h_oom (cm_host ?c) = []" "cm_list_pkt ?c = None" "cm_query ?c"
    using assms(1) by (simp_all add: listing_def list_is_def)
  have p: "pk_data ?p = concat (map dev_bytes ds)" "pk_hflag ?p = len16 (length ds0)" "pk_conn ?p = CONN_QUERY"
    "pk_pkt ?p = PKT_QUERY_RSP_LIST"
    by (simp_all add: list_answer_def)
  let ?h = "host_push (list_request (len16 (length ds0 + length ds))) (cm_host ?c)"
  obtain arr where a: "coremodel_process_list_response ?p ?c =
      Some (False, ?c\<lparr>cm_list := Some arr, cm_list_size := length ds0 + length ds + 1, cm_host := ?h\<rparr>)"
    "list_is (?c\<lparr>cm_list := Some arr, cm_list_size := length ds0 + length ds + 1, cm_host := ?h\<rparr>) (ds0 @ ds)"
    using list_response_appends [OF l(1) ok(1,2) assms(5) p(1) answer_wf(1) [OF ok(3)] p(2) l(2,3)] by blast
  let ?cm' = "?c\<lparr>cm_list := Some arr, cm_list_size := length ds0 + length ds + 1, cm_host := ?h\<rparr>"
  have pp: "coremodel_process_packet ?p ?c = Some (False, ?cm')" using a(1) p(3,4) l(4) by (simp add: coremodel_process_packet_def)
  have "h_txbufs ?h = [\<lparr>tb_size = 8, tb_rptr = 0, tb_buf = wire_image (list_request (len16 (length ds0 + length ds)))\<rparr>]"
    unfolding host_push_def request_image(2) by simp
  then have "listing ?cm' (ds0 @ ds)" using a(2) assms(1) by (simp add: listing_def)
  moreover obtain r' where "coremodel_mainloop_int now e (- 1) True (attach_rounds [WData 8] ?p @ rs) (r, cm) =
      coremodel_mainloop_int 0 e (- 1) True rs (r', ?cm')" "ring_ok r'" "ring_bytes r' = []"
    using list_exchange [OF assms(1-3) answer_wf [OF ok(3)], of "length ds0" ?cm' now e rs] pp by auto
  ultimately show ?thesis by (intro exI [of _ r'] exI [of _ ?cm']) simp
qed

section \<open>The whole list\<close>

lemma list_end:
  assumes "listing cm ds" "ring_ok r" "ring_bytes r = []"
  shows "\<exists>r' cm'. coremodel_mainloop_int now e (- 1) True (attach_rounds [WData 8] (list_answer (length ds) [])) (r, cm) =
      Some (Inr (0, r', cm')) \<and> list_is cm' ds \<and> cm_out cm' = cm_out cm @ wire_image (list_request (len16 (length ds))) \<and>
    \<not> cm_query cm' \<and> h_txbufs (cm_host cm') = [] \<and> ring_ok r' \<and> ring_bytes r' = [] \<and> cm_list cm' = cm_list cm"
proof -
  let ?p = "list_answer (length ds) []"
  let ?c = "cm\<lparr>cm_host := (cm_host cm)\<lparr>h_need_wake := False, h_txflag := False, h_txbufs := []\<rparr>,
        cm_out := cm_out cm @ wire_image (list_request (len16 (length ds)))\<rparr>"
  have "pk_len ?p = 8" by (simp add: list_answer_def len16_def)
  then have pp: "coremodel_process_packet ?p ?c = Some (False, ?c\<lparr>cm_query := False\<rparr>)"
    using assms(1) by (simp add: coremodel_process_packet_def coremodel_process_list_response_def list_answer_def listing_def)
  have wf: "wf_packet ?p" "wire_size ?p \<le> MAX_PKT" using answer_wf [of "[]"] by simp_all
  obtain r' where r': "coremodel_mainloop_int now e (- 1) True (attach_rounds [WData 8] ?p @ []) (r, cm) =
      coremodel_mainloop_int 0 e (- 1) True [] (r', ?c\<lparr>cm_query := False\<rparr>)" "ring_ok r'" "ring_bytes r' = []"
    using list_exchange [OF assms wf, of "?c\<lparr>cm_query := False\<rparr>" now e "[]"] pp by auto
  moreover have "coremodel_mainloop_int 0 e (- 1) True [] (r', ?c\<lparr>cm_query := False\<rparr>) = Some (Inr (0, r', ?c\<lparr>cm_query := False\<rparr>))"
    by (subst coremodel_mainloop_int.simps) simp
  ultimately show ?thesis using assms(1)
    by (intro exI [of _ r'] exI [of _ "?c\<lparr>cm_query := False\<rparr>"]) (simp add: listing_def list_is_def)
qed

lemma list_all:
  assumes "listing cm ds0" "ring_ok r" "ring_bytes r = []" "\<forall>ds \<in> set dss. answer_ok ds"
    "length ds0 + length (concat dss) < 32768"
  shows "\<exists>r' cm'. coremodel_mainloop_int now e (- 1) True (list_rounds (list_answers (length ds0) dss)) (r, cm) =
      Some (Inr (0, r', cm')) \<and> list_is cm' (ds0 @ concat dss) \<and> cm_out cm' = cm_out cm @ list_asked (length ds0) dss \<and>
    \<not> cm_query cm' \<and> h_txbufs (cm_host cm') = [] \<and> ring_ok r' \<and> ring_bytes r' = [] \<and>
    (dss = [] \<longrightarrow> cm_list cm' = cm_list cm)"
  using assms
proof (induction dss arbitrary: cm r ds0 now)
  case Nil
  then show ?case using list_end [of cm ds0 r now e] by (simp add: list_rounds_def)
next
  case (Cons ds dss)
  have b: "answer_ok ds" "length ds0 + length ds < 32768" using Cons.prems(4,5) by simp_all
  obtain r1 cm1 where s: "coremodel_mainloop_int now e (- 1) True
        (attach_rounds [WData 8] (list_answer (length ds0) ds) @ list_rounds (list_answers (length ds0 + length ds) dss)) (r, cm) =
      coremodel_mainloop_int 0 e (- 1) True (list_rounds (list_answers (length ds0 + length ds) dss)) (r1, cm1)"
    "ring_ok r1" "ring_bytes r1 = []" "listing cm1 (ds0 @ ds)" "cm_out cm1 = cm_out cm @ wire_image (list_request (len16 (length ds0)))"
    using list_step [OF Cons.prems(1-3) b] by blast
  have "length (ds0 @ ds) + length (concat dss) < 32768" using Cons.prems(5) by simp
  then obtain r' cm' where "coremodel_mainloop_int 0 e (- 1) True (list_rounds (list_answers (length (ds0 @ ds)) dss)) (r1, cm1) =
      Some (Inr (0, r', cm'))" "list_is cm' ((ds0 @ ds) @ concat dss)" "cm_out cm' = cm_out cm1 @ list_asked (length (ds0 @ ds)) dss"
    "\<not> cm_query cm'" "h_txbufs (cm_host cm') = []" "ring_ok r'" "ring_bytes r' = []"
    using Cons.IH [OF s(4,2,3), of 0] Cons.prems(4) by auto
  then show ?case using s(1,5) by (intro exI [of _ r'] exI [of _ cm']) (simp add: list_rounds_def)
qed

text \<open>The array that is returned has the devices, and an element that ends it; without a device it is NULL.\<close>

definition list_array :: "device list \<Rightarrow> device_array option \<Rightarrow> bool" where
  "list_array ds l \<longleftrightarrow> (if ds = [] then l = None
     else \<exists>t. l = Some (map (\<lambda>d. Some (dev_entry d)) ds @ [Some t]) \<and> dl_type t = COREMODEL_INVALID)"

lemma list_complete:
  assumes cm: "\<not> cm_query cm" "0 \<le> cm_fd cm" "\<not> cm_defer cm" "h_oom (cm_host cm) = []" "h_txbufs (cm_host cm) = []"
      "cm_list cm = None" "cm_list_size cm = 0" "cm_list_pkt cm = None"
    and r: "ring_ok r" "ring_bytes r = []"
    and ds: "\<forall>ds \<in> set dss. answer_ok ds" "length (concat dss) < 32768"
  shows "\<exists>l r' cm'. coremodel_list now (list_rounds (list_answers 0 dss)) (r, cm) = Some (Inr (l, r', cm')) \<and>
    list_array (concat dss) l \<and> coremodel_free_list l = Some () \<and> cm_out cm' = cm_out cm @ list_asked 0 dss \<and>
    \<not> cm_query cm' \<and> cm_list cm' = None \<and> h_txbufs (cm_host cm') = [] \<and> ring_ok r' \<and> ring_bytes r' = []"
proof -
  have wf: "wf_packet (list_request 0)" by (simp add: wf_packet_def list_request_def)
  let ?h = "host_push (list_request 0) (cm_host cm)"
  let ?cm = "cm\<lparr>cm_host := ?h, cm_query := True\<rparr>"
  have z: "len16 0 = 0" by (simp add: len16_def)
  have "h_txbufs ?h = [\<lparr>tb_size = 8, tb_rptr = 0, tb_buf = wire_image (list_request 0)\<rparr>]"
    unfolding host_push_def request_image(2) using cm(5) by simp
  then have l: "listing ?cm []" using cm z by (simp add: listing_def list_is_def)
  obtain r' cm' where m: "coremodel_mainloop_int now (now - 1) (- 1) True (list_rounds (list_answers 0 dss)) (r, ?cm) =
      Some (Inr (0, r', cm'))" "list_is cm' (concat dss)" "cm_out cm' = cm_out cm @ list_asked 0 dss"
    "\<not> cm_query cm'" "h_txbufs (cm_host cm') = []" "ring_ok r'" "ring_bytes r' = []" "dss = [] \<longrightarrow> cm_list cm' = None"
    using list_all [OF l r ds(1), of now "now - 1"] ds(2) cm(6) by auto
  have "dss = [] \<or> concat dss \<noteq> []" using ds(1) by (cases dss) (auto simp: answer_ok_def)
  then have "list_array (concat dss) (cm_list cm')" using m(2,8) by (auto simp: list_is_def list_array_def)
  moreover have "coremodel_list now (list_rounds (list_answers 0 dss)) (r, cm) =
      Some (Inr (cm_list cm', r', cm'\<lparr>cm_list := None, cm_list_size := 0\<rparr>))"
    using cm(1) m(1) push_packet_self [OF wf cm(4)] by (simp add: coremodel_list_def list_result_def)
  ultimately show ?thesis using m(3-) length_list_is_free [OF m(2)]
    by (intro exI [of _ "cm_list cm'"] exI [of _ r'] exI [of _ "cm'\<lparr>cm_list := None, cm_list_size := 0\<rparr>"]) simp
qed

end
