(* ===== verification/ListTool.thy ===== *)
theory ListTool
  imports Mains ListSession
begin

text \<open>
  The program \<open>examples/list/coremodel-list.c\<close>, which prints the devices of a machine. The lines it prints
  are values, not text.
\<close>

section \<open>The program\<close>

text \<open>uart, i2c, spi, gpio, usbh, can, eth, event.\<close>

definition type_string :: "byte list list" where
  "type_string = [[0x75, 0x61, 0x72, 0x74], [0x69, 0x32, 0x63], [0x73, 0x70, 0x69], [0x67, 0x70, 0x69, 0x6F],
     [0x75, 0x73, 0x62, 0x68], [0x63, 0x61, 0x6E], [0x65, 0x74, 0x68], [0x65, 0x76, 0x65, 0x6E, 0x74]]"

datatype list_line = DevLine nat "byte list" "byte list" u32 | SubLine "byte list" u32

fun print_subdevices :: "device_array \<Rightarrow> list_line list option" where
  "print_subdevices [] = None"
| "print_subdevices (None # es) = None"
| "print_subdevices (Some e # es) =
    (if dl_type e = COREMODEL_INVALID then Some []
     else do {
       name \<leftarrow> dl_name e;
       ls \<leftarrow> print_subdevices es;
       Some ((if name \<noteq> [] then [SubLine name (dl_num e)] else []) @ ls) })"

definition has_subdevices :: "int \<Rightarrow> bool" where
  "has_subdevices ty \<longleftrightarrow> ty = uint COREMODEL_SPI \<or> ty = uint COREMODEL_GPIO \<or> ty = uint COREMODEL_EVENT"

text \<open>
  The devices from the array's element \<open>idx\<close> on; each query for subdevices takes a time and rounds from
  the script. \<open>Inl\<close> is a query that still waits when its rounds end.
\<close>

fun print_devices ::
  "nat \<Rightarrow> device_array \<Rightarrow> (int \<times> round list) list \<Rightarrow> ring \<times> 'd cm \<Rightarrow>
     ((ring \<times> 'd cm) + list_line list \<times> ring \<times> 'd cm) option" where
  "print_devices idx [] scs s = None"
| "print_devices idx (None # es) scs s = None"
| "print_devices idx (Some e # es) scs s =
    (if dl_type e = COREMODEL_INVALID then Some (Inr ([], s))
     else do {
       _ \<leftarrow> (if 0 \<le> dl_type e \<and> nat (dl_type e) < length type_string then Some () else None);
       name \<leftarrow> dl_name e;
       let line = DevLine idx (type_string ! nat (dl_type e)) name (dl_num e);
       let (now, rs) = (case scs of [] \<Rightarrow> (0, []) | sc # _ \<Rightarrow> sc);
       out \<leftarrow> (if has_subdevices (dl_type e) then do {
                out \<leftarrow> coremodel_list_subdevices (word_of_int (dl_type e)) name now rs s;
                (case out of
                   Inl s \<Rightarrow> Some (Inl s)
                 | Inr (None, s) \<Rightarrow> Some (Inr ([], s))
                 | Inr (Some sub, s) \<Rightarrow> do {
                     ls \<leftarrow> print_subdevices sub;
                     _ \<leftarrow> coremodel_free_list (Some sub);
                     Some (Inr (ls, s)) }) }
              else Some (Inr ([], s)));
       (case out of
          Inl s \<Rightarrow> Some (Inl s)
        | Inr (ls, s) \<Rightarrow> do {
            out \<leftarrow> print_devices (Suc idx) es (if has_subdevices (dl_type e) then tl scs else scs) s;
            Some (case out of Inl s \<Rightarrow> Inl s | Inr (ls', s) \<Rightarrow> Inr (line # ls @ ls', s)) }) })"

definition list_main :: "(int \<times> round list) list \<Rightarrow> program \<Rightarrow> unit outcome option" where
  "list_main scs pg =
    (if length (pg_argv pg) \<noteq> 2 then Some (Exits 1)
     else (case coremodel_connect (pg_env pg) (pg_oom pg) () (Some (pg_argv pg ! 1)) (pg_proc pg) of
       Inl (res, _) \<Rightarrow> if res \<noteq> 0 then Some (Exits 1) else None
     | Inr (s, _) \<Rightarrow> do {
         out \<leftarrow> coremodel_list (pg_now pg) (pg_rounds pg) s;
         (case out of
            Inl s \<Rightarrow> Some (Waits s)
          | Inr (None, s) \<Rightarrow> main_exit 1 s
          | Inr (Some list, s) \<Rightarrow> do {
              out \<leftarrow> print_devices 0 list scs s;
              (case out of
                 Inl s \<Rightarrow> Some (Waits s)
               | Inr (_, s) \<Rightarrow> do { _ \<leftarrow> coremodel_free_list (Some list); main_exit 0 s }) }) }))"

section \<open>What it prints\<close>

text \<open>Devices without subdevices are printed in order, with the name of their type.\<close>

definition dev_line :: "nat \<Rightarrow> device \<Rightarrow> list_line" where
  "dev_line idx d = (case d of (ty, nm, num) \<Rightarrow> DevLine idx (type_string ! unat ty) nm num)"

lemma uint_not_neg: "uint (w :: 'a::len word) \<noteq> - 1"
  using uint_ge_0 [of w] by linarith

lemma print_plain:
  assumes "dl_type t = COREMODEL_INVALID"
  shows "\<forall>d \<in> set ds. fst d < 8 \<and> fst d \<notin> {2, 3, 7} \<Longrightarrow>
    print_devices idx (map (\<lambda>d. Some (dev_entry d)) ds @ [Some t]) scs s =
      Some (Inr (map (\<lambda>(i, d). dev_line i d) (enumerate idx ds), s))"
proof (induction ds arbitrary: idx)
  case Nil
  then show ?case using assms by simp
next
  case (Cons d ds)
  obtain ty nm num where d: "d = (ty, nm, num)" by (cases d)
  have ty: "ty < 8" "ty \<noteq> 2" "ty \<noteq> 3" "ty \<noteq> 7" using Cons.prems d by simp_all
  have u: "unat ty < 8" using ty(1) by (simp add: word_less_nat_alt)
  have "uint ty \<noteq> uint (2 :: u16)" "uint ty \<noteq> uint (3 :: u16)" "uint ty \<noteq> uint (7 :: u16)"
    using ty(2-) by (simp_all only: word_uint_eq_iff [symmetric] not_False_eq_True)
  then have "\<not> has_subdevices (uint ty)" by (simp add: has_subdevices_def)
  moreover have "nat (uint ty) = unat ty" by simp
  moreover have "length type_string = 8" by (simp add: type_string_def)
  ultimately show ?case using Cons u by (simp add: d dev_entry_def dev_line_def uint_not_neg)
qed

text \<open>A type that the table does not have reads outside it.\<close>

lemma print_unknown: "8 \<le> ty \<Longrightarrow> print_devices idx (Some (dev_entry (ty, nm, num)) # es) scs s = None"
  by (simp add: dev_entry_def type_string_def word_le_nat_alt uint_not_neg)

end
