(* ===== verification/Fixtures.thy ===== *)
theory Fixtures
  imports Handshake Clients Ds3231 Connect I2cMux SpiMux AdxlFifo AdxlRegs SwitchRounds Runs LoopMains ListTool
begin

text \<open>
  Concrete states and packets, on which the properties of the root theory are evaluated.
\<close>

definition ex_core :: "u32 \<Rightarrow> core" where
  "ex_core ty = \<lparr>c_conn = 1, c_trnidx = 0, c_type = ty, c_cred = 0, c_busy = False, c_offs = 0,
     c_ebusy = 0, c_priv = 0, c_rdbuf = replicate RDBUF 0\<rparr>"

definition ex_host :: "'d \<Rightarrow> 'd host" where
  "ex_host d = \<lparr>h_txbufs = [], h_txflag = False, h_need_wake = False, h_wake = 0, h_oom = [], h_usr = d\<rparr>"

definition ex_packet :: "u16 \<Rightarrow> u8 \<Rightarrow> u8 \<Rightarrow> u16 \<Rightarrow> byte list \<Rightarrow> packet" where
  "ex_packet conn pkt bflag hflag d = \<lparr>pk_len = len16 (8 + length d), pk_conn = conn, pk_pkt = pkt,
     pk_bflag = bflag, pk_hflag = hflag, pk_data = d\<rparr>"

text \<open>A connection without interfaces, and one with the interface 0.\<close>

definition ex_cm :: "'d \<Rightarrow> 'd cm" where
  "ex_cm d = \<lparr>cm_fd = 3, cm_wake_fd = 4, cm_host = ex_host d, cm_list = None, cm_list_size = 0,
     cm_list_pkt = None, cm_query = False, cm_defer = False, cm_ifs = [], cm_conn_if = None,
     cm_heap = (\<lambda>_. None), cm_next = 0, cm_out = []\<rparr>"

definition ex_if :: "u32 \<Rightarrow> 'd func \<Rightarrow> 'd coremodel_if" where
  "ex_if ty fn = \<lparr>if_core = ex_core ty, if_func = fn, if_rxbufs = [], if_defer_pkt = False\<rparr>"

definition ex_cm1 :: "u32 \<Rightarrow> 'd func \<Rightarrow> 'd \<Rightarrow> 'd cm" where
  "ex_cm1 ty fn d = (ex_cm d)\<lparr>cm_ifs := [0], cm_heap := [0 \<mapsto> ex_if ty fn], cm_next := 1\<rparr>"

lemma ex_core_simps [simp]:
  "c_conn (ex_core ty) = 1" "c_type (ex_core ty) = ty" "c_cred (ex_core ty) = 0" "\<not> c_busy (ex_core ty)"
  "c_offs (ex_core ty) = 0" "c_ebusy (ex_core ty) = 0" "c_priv (ex_core ty) = 0" "c_trnidx (ex_core ty) = 0"
  "c_rdbuf (ex_core ty) = replicate RDBUF 0"
  by (simp_all add: ex_core_def)

lemma ex_host_simps [simp]:
  "h_txbufs (ex_host d) = []" "h_oom (ex_host d) = []" "h_usr (ex_host d) = d" "\<not> h_need_wake (ex_host d)"
  by (simp_all add: ex_host_def)

lemma ex_packet_simps [simp]:
  "pk_conn (ex_packet conn pkt b hf d) = conn" "pk_pkt (ex_packet conn pkt b hf d) = pkt"
  "pk_bflag (ex_packet conn pkt b hf d) = b" "pk_hflag (ex_packet conn pkt b hf d) = hf"
  "pk_data (ex_packet conn pkt b hf d) = d" "pk_len (ex_packet conn pkt b hf d) = len16 (8 + length d)"
  by (simp_all add: ex_packet_def)

lemma wf_ex_packet [simp]: "length d < 65528 \<Longrightarrow> wf_packet (ex_packet conn pkt b hf d)"
  by (simp add: wf_packet_def unat_len16)

lemma ex_cm_simps [simp]:
  "cm_fd (ex_cm d) = 3" "cm_host (ex_cm d) = ex_host d" "cm_list (ex_cm d) = None" "cm_list_size (ex_cm d) = 0"
  "cm_list_pkt (ex_cm d) = None" "\<not> cm_query (ex_cm d)" "\<not> cm_defer (ex_cm d)" "cm_ifs (ex_cm d) = []"
  "cm_conn_if (ex_cm d) = None" "cm_heap (ex_cm d) = (\<lambda>_. None)" "cm_next (ex_cm d) = 0" "cm_out (ex_cm d) = []"
  by (simp_all add: ex_cm_def)

lemma ex_cm1_simps [simp]:
  "cm_fd (ex_cm1 ty fn d) = 3" "cm_host (ex_cm1 ty fn d) = ex_host d" "cm_list (ex_cm1 ty fn d) = None"
  "\<not> cm_query (ex_cm1 ty fn d)" "\<not> cm_defer (ex_cm1 ty fn d)" "cm_ifs (ex_cm1 ty fn d) = [0]"
  "cm_conn_if (ex_cm1 ty fn d) = None" "cm_heap (ex_cm1 ty fn d) = [0 \<mapsto> ex_if ty fn]"
  by (simp_all add: ex_cm1_def)

lemma ex_cm_ok [simp]: "cm_ok (ex_cm d)" and ex_cm1_ok [simp]: "cm_ok (ex_cm1 ty fn d)"
  by (simp_all add: cm_ok_def ex_cm1_def)

text \<open>The request to attach to a UART with the name \<open>u\<close>, and its way through the socket.\<close>

abbreviation (input) ex_request :: packet where
  "ex_request \<equiv> attach_request COREMODEL_UART [0x75] 0 None 0"

lemma ex_request_wf: "wf_packet ex_request"
  by (simp add: attach_request_def wf_packet_def unat_len16)

lemma ex_request_length: "length (wire_image ex_request) = 20"
  using ex_request_wf by (simp add: wire_size_eq attach_request_def unat_len16)

lemma ex_request_written:
  "write_loop [WData 20] (h_txbufs (host_push ex_request (cm_host (ex_cm d)))) = (None, wire_image ex_request, [])"
proof -
  have "pk_len ex_request = 17" by (simp add: attach_request_def len16_def)
  then have p: "pad4 (ucast (pk_len ex_request)) = 20" by (simp add: pad4_def)
  show ?thesis unfolding host_push_def p using ex_request_length by (simp add: Let_def)
qed

text \<open>A time zone in which it is always noon of the first of January 1970.\<close>

definition ex_localtime :: "int \<Rightarrow> tm" where
  "ex_localtime t = \<lparr>tm_sec = 0, tm_min = 0, tm_hour = 12, tm_mday = 1, tm_mon = 0, tm_year = 70, tm_wday = 4\<rparr>"

text \<open>The blinking client with every pin attached to the same kind of handle.\<close>

definition ex_blinky :: coremodel_gpio_state where
  "ex_blinky = \<lparr>bl_pin = replicate 54 \<lparr>pin_handle = Some (ex_core COREMODEL_GPIO), pin_mvolt = 0\<rparr>, bl_live = True\<rparr>"

text \<open>An environment in which everything succeeds, and the process before the connection is opened.\<close>

definition ex_env :: env where
  "ex_env = \<lparr>e_calloc = True, e_mutex = True, e_pipe = Inr (3, 4), e_setfl = (\<lambda>_. None), e_getenv = None,
     e_malloc = True, e_host = (\<lambda>name. if name = [0x68] then Some 0x7F000001 else None), e_socket = Inr 5,
     e_connect = (\<lambda>addr port. if port = 1900 then None else Some 111)\<rparr>"

definition ex_proc :: proc where
  "ex_proc = \<lparr>k_errno = 0, k_fds = [0, 1, 2], k_flags = (\<lambda>_. 2), k_blocks = 0, k_mutex = False\<rparr>"

lemma ex_env_ok: "env_ok ex_env ex_proc"
  by (simp add: env_ok_def ex_env_def ex_proc_def)

text \<open>The multiplexer with a dummy on its second channel, which was just selected.\<close>

definition ex_mux :: i2c_mux_state where
  "ex_mux = i2c_mux_init\<lparr>mx_channel := (replicate CHANNEL_LIMIT [])[1 :=
     [\<lparr>md_name = [0x64], md_addr = 0x61, md_state = 0, md_func = 0, md_handle = None\<rparr>]],
     mx_chan := 2, mx_write := 1, mx_stop := 1\<rparr>"

text \<open>The same after its device was attached as interface 0, when a write has selected no channel.\<close>

definition ex_mux_attached :: i2c_mux_state where
  "ex_mux_attached = ex_mux\<lparr>mx_channel := (replicate CHANNEL_LIMIT [])[1 :=
     [\<lparr>md_name = [0x64], md_addr = 0x61, md_state = 0, md_func = 0, md_handle = Some 0\<rparr>]],
     mx_chanp := 2, mx_chan := 0\<rparr>"

abbreviation (input) ex_mux_request :: packet where
  "ex_mux_request \<equiv> attach_request COREMODEL_I2C [0x62] 0x61 None COREMODEL_I2C_WRITE_ACK"

lemma ex_mux_request_wf: "wf_packet ex_mux_request"
  by (simp add: attach_request_def wf_packet_def unat_len16)

lemma ex_mux_written:
  "write_loop [WData 20] (h_txbufs (host_push ex_mux_request (cm_host (ex_cm d)))) = (None, wire_image ex_mux_request, [])"
proof -
  have "pk_len ex_mux_request = 17" by (simp add: attach_request_def len16_def)
  then have p: "pad4 (ucast (pk_len ex_mux_request)) = 20" by (simp add: pad4_def)
  have "length (wire_image ex_mux_request) = 20"
    using ex_mux_request_wf by (simp add: wire_size_eq attach_request_def unat_len16)
  then show ?thesis unfolding host_push_def p by (simp add: Let_def)
qed

text \<open>A switch with the clients 0 and 1, none of which has sent anything.\<close>

definition ex_client :: "nat option \<Rightarrow> client" where
  "ex_client next = \<lparr>cl_conn = Some (ex_host ()), cl_name = None, cl_next = next, cl_tuple = None,
     cl_handle = Some (ex_core COREMODEL_ETH\<lparr>c_cred := 1\<rparr>), cl_me = None, cl_nme = 0\<rparr>"

definition ex_switch :: switch_state where
  "ex_switch = \<lparr>sw_run = 1, sw_reload = 0, sw_head = Some 0, sw_nclients = 2,
     sw_client = [0 \<mapsto> ex_client (Some 1), 1 \<mapsto> ex_client None], sw_mac = (\<lambda>_. None), sw_next = 0\<rparr>"

lemma ex_switch_ok: "switch_ok [0, 1] (\<lambda>_. []) ex_switch" "all_fresh now ex_switch"
  by (auto simp: switch_ok_def all_fresh_def ex_switch_def ex_client_def)

text \<open>That switch with the connection of the client 0, and a frame of its machine to all others.\<close>

definition ex_world :: switch_world where
  "ex_world = \<lparr>ww_state = ex_switch, ww_conn = [0 \<mapsto> (ring_init, ex_cm1 COREMODEL_ETH (EthF (switch_eth_func 0)) ex_switch)],
     ww_if = [0 \<mapsto> 0], ww_next = 2, ww_now = 0, ww_proc = ex_proc\<rparr>"

abbreviation (input) ex_frame :: "byte list" where
  "ex_frame \<equiv> [0xFF, 0xFF, 0xFF, 0xFF, 0xFF, 0xFF, 2, 2, 2, 2, 2, 2]"

lemma ex_world_simps [simp]: "ww_state ex_world = ex_switch" "ww_now ex_world = 0" "ww_next ex_world = 2" "ww_proc ex_world = ex_proc"
  by (simp_all add: ex_world_def)

lemma ex_enter: "\<exists>cm. client_enter 0 ex_world = Some (ring_init, cm) \<and> cm_fd cm = 3"
  by (simp add: client_enter_def ex_world_def ex_switch_def ex_client_def ex_cm1_def Let_def)

lemma ex_world_ready: "client_ready 0 ex_world" "client_conn 0 ex_world = Some 1"
  by (simp_all add: client_ready_def client_enter_def ex_world_def ex_switch_def ex_client_def Let_def conn_ready_def
      ring_init_ok ring_init_bytes ex_if_def cm_ok_def client_conn_def host_put_def ex_cm1_def)

lemma ex_broadcast: "destination [0, 1] (\<lambda>_. []) ex_switch 0 ex_frame = None"
  by (simp add: buf2mac_def destination_def)

lemma ex_port_up: "\<exists>p. sw_port ex_switch 1 = Some p \<and> port_up p"
  by (simp add: sw_port_def ex_switch_def ex_client_def port_of_def port_up_def)

text \<open>The environment opens the host \<open>h\<close>; the request of a switch's client for its interface \<open>e\<close>.\<close>

lemma ex_env_opens: "env_opens ex_env ex_proc [0x68] 1900 3 4 5"
  using ex_env_ok by (simp add: env_opens_def ex_env_def)

lemma init_written:
  assumes "wf_packet p" "length (wire_image p) = 20" "pk_len p = 17"
  shows "write_loop [WData 20] (h_txbufs (host_push p (cm_host (snd (coremodel_init [] d))))) = (None, wire_image p, [])"
proof -
  have "pad4 (ucast (pk_len p)) = 20" by (simp add: assms(3) pad4_def)
  then show ?thesis using assms(2) by (simp add: host_push_def coremodel_init_def Let_def)
qed

lemma request_written:
  "write_loop [WData 20] (h_txbufs (host_push (attach_request ty [b] 0 None 0) (cm_host (snd (coremodel_init [] d))))) =
     (None, wire_image (attach_request ty [b] 0 None 0), [])"
proof -
  have l: "pk_len (attach_request ty [b] 0 None 0) = 17" by (simp add: attach_request_def len16_def)
  have wf: "wf_packet (attach_request ty [b] 0 None 0)" by (simp add: attach_request_def wf_packet_def unat_len16)
  have "length (wire_image (attach_request ty [b] 0 None 0)) = 20" using wf l by (simp add: wire_size_eq)
  then show ?thesis using init_written [OF wf _ l] by simp
qed

text \<open>The arguments \<open>uart h:1900 u\<close>, and a machine that gives the interface the index 5 and 100 credits.\<close>

definition ex_program :: "packet list \<Rightarrow> program" where
  "ex_program ps = \<lparr>pg_argv = [[0x75, 0x61, 0x72, 0x74], [0x68, 0x3A, 0x31, 0x39, 0x30, 0x30], [0x75]], pg_env = ex_env,
     pg_proc = ex_proc, pg_oom = [], pg_now = 0,
     pg_attach = attach_rounds [WData 20] (ex_packet CONN_QUERY 3 0 5 (le_bytes 4 (100 :: u32))), pg_start = 0,
     pg_rounds = [data_round ps]\<rparr>"

lemma ex_program_simps [simp]:
  "pg_argv (ex_program ps) = [[0x75, 0x61, 0x72, 0x74], [0x68, 0x3A, 0x31, 0x39, 0x30, 0x30], [0x75]]"
  "pg_env (ex_program ps) = ex_env" "pg_proc (ex_program ps) = ex_proc" "pg_oom (ex_program ps) = []"
  "pg_attach (ex_program ps) = attach_rounds [WData 20] (ex_packet CONN_QUERY 3 0 5 (le_bytes 4 (100 :: u32)))"
  "pg_rounds (ex_program ps) = [data_round ps]"
  by (simp_all add: ex_program_def)

lemma ex_port: "[0x68] @ 0x3A # decimal 1900 = [0x68, 0x3A, 0x31, 0x39, 0x30, 0x30]"
  by code_simp

text \<open>The arguments \<open>c h:1900 c 123#AB07\<close>.\<close>

definition ex_can_program :: program where
  "ex_can_program = (ex_program [])\<lparr>pg_argv := [[0x63], [0x68, 0x3A, 0x31, 0x39, 0x30, 0x30], [0x63],
     [0x31, 0x32, 0x33, 0x23, 0x41, 0x42, 0x30, 0x37]], pg_rounds := [write_round 0]\<rparr>"

lemma ex_can_program_simps [simp]:
  "pg_argv ex_can_program = [[0x63], [0x68, 0x3A, 0x31, 0x39, 0x30, 0x30], [0x63], [0x31, 0x32, 0x33, 0x23, 0x41, 0x42, 0x30, 0x37]]"
  "pg_env ex_can_program = ex_env" "pg_proc ex_can_program = ex_proc" "pg_oom ex_can_program = []"
  "pg_attach ex_can_program = attach_rounds [WData 20] (ex_packet CONN_QUERY 3 0 5 (le_bytes 4 (100 :: u32)))"
  "pg_start ex_can_program = 0" "pg_rounds ex_can_program = [write_round 0]"
  by (simp_all add: ex_can_program_def ex_program_def)

lemma ex_frame_text: "frame_text True 1 2 3 [0xAB, 7] @ [] = [0x31, 0x32, 0x33, 0x23, 0x41, 0x42, 0x30, 0x37]"
  by code_simp

end
