(* ===== verification/Spec2Isabelle.thy ===== *)
theory Spec2Isabelle
  imports Fixtures Ds3234 Cr3020 Keyboard
begin

text \<open>
  A model of CoreModel (\<open>coremodel.c\<close>, \<open>coremodel.h\<close>), the C library by which a program on the
  host implements peripherals of a virtual machine, and of its example device models
  (\<open>examples/\<close>), with the properties that make them correct.

  \<^bold>\<open>The program.\<close> A connection (\<open>struct coremodel\<close>) owns a socket to the virtual machine, a ring buffer
  of received bytes, a chain of buffers to be written and the interfaces the program attached
  (\<open>struct coremodel_if\<close>). The main loop waits with \<open>select\<close>, reads the socket into the ring, writes
  what is waiting, and cuts the ring into packets. A packet for the connection itself answers a
  query (a list of devices, or the index and credits of a new interface); any other packet goes to
  the queue of the interface with its index. The queue is worked off by the interface's handler,
  which calls the program's callbacks; a callback may stall, which pauses the queue until the program
  calls the matching \<open>ready\<close> function. Callbacks and the program answer by pushing packets.

  \<^bold>\<open>From the code to the theories.\<close>
  \<^item> \<open>Prelude\<close>: bytes, little-endian words, bounded reads and writes of buffers (\<open>rd\<close>, \<open>write_at\<close>,
    whose result \<open>None\<close> is an access outside the buffer), the collections of hints.
  \<^item> \<open>Wire\<close>: \<open>struct coremodel_packet\<close>, its image on the wire, the transmit queue, \<open>coremodel_push_packet\<close>.
  \<^item> \<open>Ring\<close> and \<open>Splitter\<close>: \<open>rxq\<close>, \<open>rxqwp\<close>, \<open>rxqrp\<close> with their 32-bit wrap-around; \<open>coremodel_process_rxq\<close>.
  \<^item> \<open>Iface\<close>: the interface object in three parts (the scalar fields, the table of callbacks, the
    queue), and callbacks as steps on the scalar fields and the host. The host has what every
    function can reach: the transmit queue, the outcomes of the coming allocations, the wake-up pipe
    and, as a type parameter, the state of the program's own device models.
  \<^item> \<open>Uart\<close>, \<open>I2c\<close>, \<open>Spi\<close>, \<open>Gpio\<close>, \<open>Usbh\<close>, \<open>Can\<close>, \<open>Eth\<close>, \<open>Event\<close>: one handler
    \<open>coremodel_advance_if_...\<close> each, with the functions a client sends with.
  \<^item> \<open>Advance\<close>: \<open>coremodel_advance_if\<close> with its queue, and the \<open>ready\<close> functions.
  \<^item> \<open>Session\<close> and \<open>DeviceList\<close>: \<open>struct coremodel\<close> with a heap of interfaces, \<open>coremodel_process_packet\<close>,
    the answers to queries, deferred packets, device lists.
  \<^item> \<open>Fds\<close>: \<open>coremodel_preparefds\<close>, \<open>coremodel_processfds\<close>, \<open>coremodel_mainloop_int\<close>. What \<open>select\<close>,
    \<open>read\<close> and \<open>write\<close> return and the clock says is a script, an argument of the model.
  \<^item> \<open>Connect\<close>: \<open>coremodel_connect\<close> with all its exits. The answers of the C library and the operating
    system are a record \<open>env\<close>; the descriptors, allocations and \<open>errno\<close> are the state \<open>proc\<close>.
  \<^item> \<open>Attach\<close> and \<open>Handshake\<close>: list, attach, detach, disconnect, and the round trip of an attach.
  \<^item> \<open>Clients\<close>: the callbacks of the small examples. \<open>Ds3231\<close>, \<open>Ds3234\<close>, \<open>Cr3020\<close>, \<open>Keyboard\<close>: three
    real-time clocks (I2C, SPI, CAN) and a USB keyboard.
  \<^item> \<open>I2cMux\<close>, \<open>SpiMux\<close>: the multiplexers, which attach and detach the devices of their channels from
    the loop of \<open>main\<close>. \<open>EthSwitch\<close>: the switch's clients and tables as linked lists, and its callback.
  \<^item> \<open>SwitchTuple\<close>, \<open>SwitchLoop\<close>, \<open>SwitchRounds\<close>: the switch's clients, each with a connection of its own: the
    argument that names one, adding and freeing them, the rounds over all of them and \<open>main\<close>; what a
    frame does from one socket to another.
  \<^item> \<open>Mains\<close>: the \<open>main\<close> functions of the clients, the clocks and the keyboard. \<open>LoopMains\<close>: those of
    \<open>coremodel-blinky.c\<close>, the multiplexers, and the accelerometer up to its threads. \<open>CanSend\<close>, \<open>ListTool\<close>:
    the programs \<open>can-cansend.c\<close> and \<open>coremodel-list.c\<close>. \<open>Runs\<close>: whole runs of programs, from the
    arguments to what they sent and printed. \<open>ListSession\<close>: a whole query of the device list.
  \<^item> \<open>Adxl\<close>, \<open>AdxlIo\<close>, \<open>AdxlTimer\<close>, \<open>AdxlFifo\<close>, \<open>AdxlRegs\<close>: the ADXL36x accelerometer, that is its state
    with timers, pins and samples; the I2C callbacks; the timer's handlers and the states they and the bus
    can reach; the FIFO and the registers' properties; the names and fields of the registers.
  \<^item> \<open>Fixtures\<close>: the concrete states used to evaluate the properties below.

  \<^bold>\<open>Errors.\<close> A result \<open>None\<close> is undefined behaviour of the C code: an access outside a buffer, a
  pointer to freed or no memory, a shift by more than the width, or a loop that does not end. A
  failed allocation is an outcome of the script \<open>h_oom\<close> and takes the code's own error path, which
  returns through the flag or the sum type of the function. So every theorem that concludes
  \<open>... = Some ...\<close> says that the code returns and accesses no memory it does not own, and the theorems
  that conclude \<open>... = None\<close> show where it does.

  \<^bold>\<open>Interfaces.\<close> The client side of each handler is a locale: what the handler relies on in a callback
  (\<open>tx_client\<close>, \<open>tx_sink\<close>, \<open>i2c_device\<close>, \<open>spi_device\<close>, \<open>usb_device\<close>, \<open>can_node\<close>) with the handler's
  behaviour proved from it, interpreted with the example clients and device models.

  \<^bold>\<open>The lemmas.\<close> Each handler has the result of every branch and each client function the packet it
  sends; the ring has its invariant \<open>ring_ok\<close> and its contents \<open>ring_bytes\<close>; the connection the
  invariants \<open>cm_ok\<close> (every listed interface is live) and \<open>attach_ok\<close> (with the interface being
  attached), kept by packets, rounds, attaches and detaches. \<open>Splitter\<close> refines the ring to lists of
  packets (\<open>deliver\<close>), \<open>I2c\<close> the queue of an interface to the history of a bus.

  \<^bold>\<open>Loops and termination.\<close> There is no fuel in the model of the library. The loop of the splitter
  (\<open>coremodel_process_rxq\<close>) need not end and is a partial function over its body \<open>rxq_step\<close>; so are the
  walks over the switch's linked lists, in forwarding a frame, freeing a client and the rounds. Their value \<open>None\<close>
  is an error or no return. For the splitter the two are told apart: \<open>process_rxq_None\<close> shows that it returns
  unless an iteration fails or a length field of zero comes to the head of the ring, since any other
  iteration takes four bytes or more of it, and \<open>zero_length_hangs\<close> that such a packet for nobody is an
  iteration which succeeds and repeats for ever. The walks end on the well-formed lists the
  switch keeps where a property rests on them. The rounding of a rational to floating point, which the C
  compiler and not the program does, tries 200 exponents, more than single precision has for the values
  that occur. All other loops are total functions with a measure: the length of the data, of a queue, of
  the list of interfaces or of the script.

  \<^bold>\<open>Not modelled.\<close> The recursive mutex and the second thread that could call a client function while
  the main loop waits: the model has one thread, and the wake-up pipe is a counter. A callback that calls back
  into the library while the library is in its queue: the lock is recursive, so in C a callback could call
  a ready function, \<open>coremodel_detach\<close> or the main loop; here a callback is a step on the scalar fields of its own
  interface and on the host, which lets it send (as those of the examples do) but not touch a queue or the
  list of interfaces. The threads of the
  accelerometer's timers: its lock makes each callback and timer event one step, and the steps come in
  any order (\<open>adxl_step\<close>). What the programs print for the user, except the output a property is
  about. The loops of the accelerometer's threads and the end of its \<open>main\<close>: the threads meet between
  the callbacks of a round, which the model handles in one step. \<open>getopt\<close> and the reading of the wall clock,
  whose results are arguments. The Python bindings, which are not C.
\<close>

section \<open>The byte stream and the packets\<close>

text \<open>
  C1. The stream of packets may reach the library cut into segments in any way: reading each
  segment into the ring buffer and running the packet splitter after each delivers every
  packet to \<open>coremodel_process_packet\<close>, once, whole and in order, exactly as handling the
  packets one after the other would, and leaves the ring empty.
\<close>

theorem stream_delivery:
  assumes "concat cs = stream ps" "\<forall>p \<in> set ps. wf_packet p \<and> wire_size p \<le> MAX_PKT"
    "\<forall>c \<in> set cs. c \<noteq> [] \<and> length c \<le> MAX_PKT"
    "deliver coremodel_process_packet ps cm = Some ([], cm')"
  shows "\<exists>r. receive coremodel_process_packet cs (ring_init, cm) = Some (r, cm') \<and>
    ring_ok r \<and> ring_bytes r = []"
  using receive_delivers [of ring_init cs ps coremodel_process_packet cm cm'] assms
  by (simp add: ring_init_ok ring_init_bytes incomplete_def)

theorem stream_delivery_witness:
  "\<exists>r. receive coremodel_process_packet
      [take 5 (wire_image (ex_packet 7 0 0 0 [1, 2, 3])), drop 5 (wire_image (ex_packet 7 0 0 0 [1, 2, 3]))]
      (ring_init, ex_cm ()) = Some (r, ex_cm ()) \<and> ring_ok r \<and> ring_bytes r = []"
proof (rule stream_delivery [where ps = "[ex_packet 7 0 0 0 [1, 2, 3]]"])
  let ?p = "ex_packet 7 0 0 0 [1, 2, 3]"
  have wf: "wf_packet ?p" by simp
  have ws: "wire_size ?p = 12" by (simp add: wire_size_eq unat_len16)
  show "concat [take 5 (wire_image ?p), drop 5 (wire_image ?p)] = stream [?p]" by (simp add: stream_def)
  show "\<forall>p \<in> set [?p]. wf_packet p \<and> wire_size p \<le> MAX_PKT" using wf ws by simp
  have l: "length (wire_image ?p) = 12" using wf ws by simp
  then have "wire_image ?p \<noteq> []" by (metis list.size(3) zero_neq_numeral)
  with l show "\<forall>c \<in> set [take 5 (wire_image ?p), drop 5 (wire_image ?p)]. c \<noteq> [] \<and> length c \<le> MAX_PKT"
    by auto
  have "coremodel_process_packet ?p (ex_cm ()) = Some (False, ex_cm ())"
    by (rule process_packet_unknown) (simp_all add: ex_cm_def cm_ok_def)
  then show "deliver coremodel_process_packet [?p] (ex_cm ()) = Some ([], ex_cm ())" using ws by simp
qed

text \<open>
  C2. The splitter refines the abstract delivery: on a ring that holds the packets \<open>ps\<close> and an
  incomplete tail it returns, every packet is handed to the handler in order until one reports an
  error, a packet above \<open>MAX_PKT\<close> is dropped, and exactly the packets not handled and the tail
  stay in the ring. It fails only where a handler does.
\<close>

theorem splitter_refines:
  assumes "ring_ok r" "ring_bytes r = stream ps @ t" "\<forall>p \<in> set ps. wf_packet p" "incomplete t"
  shows "case deliver h ps s of
      None \<Rightarrow> coremodel_process_rxq h (r, s) = None
    | Some (rest, s') \<Rightarrow> \<exists>r'. coremodel_process_rxq h (r, s) = Some (r', s') \<and> ring_ok r' \<and>
        ring_bytes r' = stream rest @ t"
  by (rule process_rxq_refines [OF assms])

theorem splitter_refines_witness:
  "\<exists>r r'. ring_ok r \<and> ring_bytes r = stream [ex_packet 7 0 0 0 [1, 2, 3], ex_packet 7 0 0 0 [4]] @ [9, 0, 7] \<and>
     coremodel_process_rxq (\<lambda>p seen. Some (seen \<noteq> [], seen @ [pk_data p])) (r, []) =
       Some (r', [[1, 2, 3], [4]]) \<and>
     ring_ok r' \<and> ring_bytes r' = stream [ex_packet 7 0 0 0 [4]] @ [9, 0, 7]"
proof -
  let ?p = "ex_packet 7 0 0 0 [1, 2, 3]" and ?q = "ex_packet 7 0 0 0 [4]" and ?t = "[9, 0, 7] :: byte list"
  let ?h = "\<lambda>p seen. Some (seen \<noteq> [], seen @ [pk_data p])"
  have wf: "wf_packet ?p" "wf_packet ?q" by simp_all
  have ws: "wire_size ?p = 12" "wire_size ?q = 12" by (simp_all add: wire_size_eq unat_len16)
  have "length (stream [?p, ?q] @ ?t) = 27" using wf ws by simp
  then obtain r where r: "ring_ok r" "ring_bytes r = stream [?p, ?q] @ ?t"
    using read_loop_chunk [OF ring_init_ok, of "stream [?p, ?q] @ ?t"] ring_init_bytes by auto
  have "deliver ?h [?p, ?q] [] = Some ([?q], [[1, 2, 3], [4]])" using ws by simp
  then show ?thesis
    using splitter_refines [OF r, of ?h "[]"] wf r by (auto simp: incomplete_def)
qed

text \<open>
  C3. What one side sends the other can read: with memory available \<open>coremodel_push_packet\<close>
  appends to the bytes waiting for the socket an image of the packet whose length is a
  multiple of four, and which decodes to the same packet whatever bytes follow it.
\<close>

theorem push_roundtrip:
  assumes "wf_packet p" "h_oom h = []"
  shows "\<exists>bs h'. coremodel_push_packet p None h = Some (False, h') \<and>
    tx_pending (h_txbufs h') = tx_pending (h_txbufs h) @ bs \<and> 4 dvd length bs \<and>
    decode_packet (bs @ rest) = Some p"
  using push_packet_self [OF assms] host_push_pending [OF assms(1), of h] decode_wire_image [OF assms(1), of rest]
    wire_size_dvd [of p] assms(1) by auto

theorem push_roundtrip_witness:
  "\<exists>bs h'. coremodel_push_packet (ex_packet 1 0 0 0 [1, 2, 3]) None (ex_host ()) = Some (False, h') \<and>
    tx_pending (h_txbufs h') = bs \<and> 4 dvd length bs \<and> decode_packet (bs @ [9]) = Some (ex_packet 1 0 0 0 [1, 2, 3])"
  using push_roundtrip [of "ex_packet 1 0 0 0 [1, 2, 3]" "ex_host ()" "[9]"] by simp

section \<open>The socket\<close>

text \<open>
  C4. Writing conserves the stream: however the socket cuts, interrupts or refuses the writes,
  the bytes written followed by the bytes still queued are the bytes that were queued, and the
  queue stays well formed.
\<close>

theorem write_conserves:
  assumes "\<forall>t \<in> set ts. wf_txbuf t" "write_loop evs ts = (e, out, ts')"
  shows "out @ tx_pending ts' = tx_pending ts \<and> (\<forall>t \<in> set ts'. wf_txbuf t)"
  by (rule write_loop_conserves [OF assms])

theorem write_conserves_witness:
  "write_loop [WData 3, WIntr, WAgain] [\<lparr>tb_size = 8, tb_rptr = 0, tb_buf = [1, 2, 3, 4, 5, 6, 7, 8]\<rparr>] =
     (None, [1, 2, 3], [\<lparr>tb_size = 8, tb_rptr = 3, tb_buf = [1, 2, 3, 4, 5, 6, 7, 8]\<rparr>]) \<and>
   [1, 2, 3] @ tx_pending [\<lparr>tb_size = 8, tb_rptr = 3, tb_buf = [1, 2, 3, 4, 5, 6, 7, 8]\<rparr>] =
     tx_pending [\<lparr>tb_size = 8, tb_rptr = 0, tb_buf = [1, 2, 3, 4, 5, 6, 7, 8]\<rparr>]"
  using write_conserves [of "[\<lparr>tb_size = 8, tb_rptr = 0, tb_buf = [1, 2, 3, 4, 5, 6, 7, 8]\<rparr>]"
      "[WData 3, WIntr, WAgain]" None "[1, 2, 3]" "[\<lparr>tb_size = 8, tb_rptr = 3, tb_buf = [1, 2, 3, 4, 5, 6, 7, 8]\<rparr>]"]
  by (simp add: wf_txbuf_def Let_def)

text \<open>
  C5. Reading takes, in order, exactly the bytes the socket has before it blocks, fails or ends,
  up to the room in the ring, and never stores outside it.
\<close>

theorem read_takes:
  assumes "ring_ok r"
  shows "\<exists>e r'. read_loop evs r = Some (e, r') \<and> ring_ok r' \<and>
    ring_bytes r' = ring_bytes r @ take (RX_BUF - length (ring_bytes r)) (rd_bytes evs)"
  by (rule read_loop_takes [OF assms])

theorem read_takes_witness:
  "\<exists>e r'. read_loop [RData [1, 2], RIntr, RData [3], RAgain, RData [4]] ring_init = Some (e, r') \<and> ring_ok r' \<and>
    ring_bytes r' = [1, 2, 3]"
  using read_takes [OF ring_init_ok, of "[RData [1, 2], RIntr, RData [3], RAgain, RData [4]]"]
  by (simp add: ring_init_bytes)



section \<open>Packets and interfaces\<close>

text \<open>
  C7. A packet for a connection goes to the tail of the queue of the one interface with that
  connection index, which then runs with the packet behind what was already queued; no other
  interface is touched.
\<close>

theorem packet_delivered:
  assumes "cm_ok cm" "pk_conn p \<noteq> CONN_QUERY" "wf_packet p" "i \<in> set (cm_ifs cm)" "conn_of cm i = pk_conn p"
    "\<forall>j \<in> set (cm_ifs cm). conn_of cm j = pk_conn p \<longrightarrow> j = i" "h_oom (cm_host cm) = []"
    "cm_heap cm i = Some cif" "cm_conn_if cm = None"
    "coremodel_process_packet p cm = Some (e, cm')"
  shows "\<not> e \<and> (\<exists>cif' h'. coremodel_advance_if (cif\<lparr>if_rxbufs := if_rxbufs cif @ [p], if_defer_pkt := False\<rparr>)
      (cm_host cm) = Some (cif', h') \<and> cm' = cm\<lparr>cm_heap := (cm_heap cm)(i \<mapsto> cif'), cm_host := h'\<rparr>)"
  using assms(9,10) unfolding process_packet_delivers [OF assms(1-8)]
  by (auto simp: advance_at_def split: Option.bind_split_asm)

theorem packet_delivered_witness:
  "\<exists>cif' h'. coremodel_advance_if ((ex_if COREMODEL_UART (UartF test_uart_func))
      \<lparr>if_rxbufs := [ex_packet 1 0 0 0 [65]], if_defer_pkt := False\<rparr>) (ex_host []) = Some (cif', h') \<and>
    coremodel_process_packet (ex_packet 1 0 0 0 [65]) (ex_cm1 COREMODEL_UART (UartF test_uart_func) []) =
      Some (False, (ex_cm1 COREMODEL_UART (UartF test_uart_func) [])\<lparr>cm_heap := [0 \<mapsto> cif'], cm_host := h'\<rparr>)"
proof -
  let ?p = "ex_packet 1 0 0 0 [65]" and ?cm = "ex_cm1 COREMODEL_UART (UartF test_uart_func) []"
  let ?cif = "ex_if COREMODEL_UART (UartF test_uart_func)"
  let ?cq = "?cif\<lparr>if_rxbufs := [?p], if_defer_pkt := False\<rparr>"
  have f: "cm_heap ?cm = [0 \<mapsto> ?cif]" "cm_ifs ?cm = [0]" "cm_conn_if ?cm = None" "cm_host ?cm = ex_host []"
    "\<not> cm_defer ?cm"
    by simp_all
  have i: "if_rxbufs ?cif = []" "conn_of ?cm 0 = 1" by (simp_all add: ex_if_def conn_of_def f)
  obtain c' h' where "coremodel_advance_if_uart test_uart_func ?p (ex_core COREMODEL_UART) (ex_host []) = Some (0, c', h')"
    using uart_test.packet_taken [of ?p test_uart_func "ex_core COREMODEL_UART" "ex_host []"]
    by (auto simp: test_uart_func_def)
  then have "advance_pkt (UartF test_uart_func) ?p (ex_core COREMODEL_UART) (ex_host []) = Some (0, c', h')"
    by (simp add: advance_pkt_def)
  from advance_loop_done [OF this, of "[]"]
  have a: "coremodel_advance_if ?cq (ex_host []) = Some (?cq\<lparr>if_rxbufs := [], if_core := c'\<rparr>, h')"
    by (simp add: coremodel_advance_if_def ex_if_def)
  obtain cm' where st: "coremodel_process_packet ?p ?cm = Some (False, cm')"
    using process_packet_delivers [of ?cm ?p 0 ?cif] a f i
    by (simp add: advance_at_def)
  show ?thesis
    using packet_delivered [of ?cm ?p 0 ?cif False cm'] st f i by simp
qed

text \<open>
  C8. An attach succeeds: when the request has gone out and the virtual machine answers with a
  connection index and credits, the call returns the handle of a new interface that has both,
  at the head of the list of interfaces, and the socket saw exactly the request.
\<close>

theorem attach_completes:
  assumes "\<not> cm_query cm" "0 \<le> cm_fd cm" "\<not> cm_defer cm" "h_oom (cm_host cm) = []"
    "ring_ok r" "ring_bytes r = []" "wf_packet (attach_request ty name addr subname flags)"
    "write_loop ws (h_txbufs (host_push (attach_request ty name addr subname flags) (cm_host cm))) = (None, out, [])"
    "pk_conn p = CONN_QUERY" "pk_pkt p = PKT_QUERY_RSP_CONN" "pk_hflag p \<noteq> CONN_QUERY" "wf_packet p"
    "pk_data p = le_bytes 4 cred"
  shows "\<exists>r' cm'. coremodel_attach_int ty name addr subname fn ifpriv flags now (attach_rounds ws p) (r, cm) =
      Some (Inr (Some (cm_next cm), r', cm')) \<and> ring_ok r' \<and> ring_bytes r' = [] \<and>
    cm_ifs cm' = cm_next cm # cm_ifs cm \<and> cm_out cm' = cm_out cm @ out \<and>
    cm_heap cm' = (cm_heap cm)(cm_next cm \<mapsto> attached_if ty fn ifpriv (pk_hflag p) cred)"
  by (rule attach_answered [OF assms])

theorem attach_completes_witness:
  "\<exists>r' cm'. coremodel_attach_int COREMODEL_UART [0x75] 0 None (UartF test_uart_func) 0 0 0
      (attach_rounds [WData 20] (ex_packet CONN_QUERY 3 0 5 (le_bytes 4 (100 :: u32)))) (ring_init, ex_cm []) =
      Some (Inr (Some 0, r', cm')) \<and> cm_ifs cm' = [0] \<and> length (cm_out cm') = 20"
  using attach_completes [OF _ _ _ _ ring_init_ok ring_init_bytes ex_request_wf ex_request_written [of "[]"],
      where p = "ex_packet CONN_QUERY 3 0 5 (le_bytes 4 (100 :: u32))" and cred = 100 and now = 0
        and fn = "UartF test_uart_func" and ifpriv = 0] ex_request_length
  by auto



text \<open>
  C10. Detaching a live interface always succeeds; afterwards the object is gone, the list does
  not name it, and the rest of the connection is as sound as before.
\<close>

theorem detach_closes:
  assumes "cm_ok cm" "cm_heap cm i \<noteq> None" "cm_conn_if cm \<noteq> Some i"
  shows "\<exists>cm'. coremodel_detach (Some i) cm = Some cm' \<and> cm_ok cm' \<and> cm_heap cm' i = None \<and>
    cm_ifs cm' = removeAll i (cm_ifs cm)"
  by (rule detach_live [OF assms])

theorem detach_closes_witness:
  "\<exists>cm'. coremodel_detach (Some 0) (ex_cm1 COREMODEL_UART (UartF test_uart_func) []) = Some cm' \<and> cm_ifs cm' = []"
  using detach_closes [of "ex_cm1 COREMODEL_UART (UartF test_uart_func) []" 0] by auto

text \<open>
  C11. Disconnecting a sound connection closes every interface, empties both queues and closes
  the socket; but the call as a whole is a memory error, because it goes on to use the
  connection object it has just freed.
\<close>

theorem disconnect_frees_then_uses:
  assumes "cm_ok cm" "cm_conn_if cm = None" "coremodel_free_list (cm_list cm) = Some ()"
  shows "(\<exists>r' cm'. disconnect_release (r, cm) = Some (r', cm') \<and> cm_ok cm' \<and> cm_ifs cm' = [] \<and>
    ring_used r' = 0 \<and> cm_fd cm' = - 1 \<and> h_txbufs (cm_host cm') = []) \<and> coremodel_disconnect (r, cm) = None"
  using disconnect_release_ok [OF assms, of r] disconnect_use_after_free [of "(r, cm)"] by blast

theorem disconnect_frees_then_uses_witness:
  "(\<exists>r' cm'. disconnect_release (ring_init, ex_cm1 COREMODEL_UART (UartF test_uart_func) []) = Some (r', cm') \<and>
      cm_ok cm' \<and> cm_ifs cm' = [] \<and> ring_used r' = 0 \<and> cm_fd cm' = - 1 \<and> h_txbufs (cm_host cm') = []) \<and>
   cm_ifs (ex_cm1 COREMODEL_UART (UartF test_uart_func) []) = [0] \<and>
   coremodel_disconnect (ring_init, ex_cm1 COREMODEL_UART (UartF test_uart_func) []) = None"
  using disconnect_frees_then_uses [of "ex_cm1 COREMODEL_UART (UartF test_uart_func) []" ring_init]
  by (simp add: coremodel_free_list_def)

section \<open>Device lists\<close>

text \<open>
  C12. Listing the devices of a machine returns exactly its devices, in order, with their types, names and
  numbers, however the machine divides its list among its answers: each answer is followed by one request
  for the devices after it, the array is terminated and can be freed, and without a device it is NULL.
\<close>

theorem devices_listed:
  assumes "\<not> cm_query cm" "0 \<le> cm_fd cm" "\<not> cm_defer cm" "h_oom (cm_host cm) = []" "h_txbufs (cm_host cm) = []"
    "cm_list cm = None" "cm_list_size cm = 0" "cm_list_pkt cm = None" "ring_ok r" "ring_bytes r = []"
    "\<forall>ds \<in> set dss. answer_ok ds" "length (concat dss) < 32768"
  shows "\<exists>l r' cm'. coremodel_list now (list_rounds (list_answers 0 dss)) (r, cm) = Some (Inr (l, r', cm')) \<and>
    list_array (concat dss) l \<and> coremodel_free_list l = Some () \<and> cm_out cm' = cm_out cm @ list_asked 0 dss \<and>
    \<not> cm_query cm' \<and> cm_list cm' = None \<and> h_txbufs (cm_host cm') = [] \<and> ring_ok r' \<and> ring_bytes r' = []"
  by (rule list_complete [OF assms])

theorem devices_listed_witness:
  "\<exists>l r' cm'. coremodel_list 0 (list_rounds (list_answers 0 [[(0, [0x75, 0x30], 1)], [(1, [0x69], 2)]])) (ring_init, ex_cm ()) =
      Some (Inr (l, r', cm')) \<and> list_array [(0, [0x75, 0x30], 1), (1, [0x69], 2)] l"
proof -
  have ok: "dev_ok (0, [0x75, 0x30], 1)" "dev_ok (1, [0x69], 2)" by (simp_all add: dev_ok_def)
  have "\<forall>ds \<in> set [[(0, [0x75, 0x30], 1)], [(1, [0x69], 2)]]. answer_ok ds"
    using ok by (simp add: answer_ok_def length_dev_bytes list_step_eq unat_len16)
  from devices_listed [OF _ _ _ _ _ _ _ _ ring_init_ok ring_init_bytes this, of "ex_cm ()" 0]
  show ?thesis by auto
qed

section \<open>Queues of an interface\<close>

text \<open>
  C13. What handling an interface's queue does to it is exactly what the calls of the handler say:
  there is a sequence of calls, made one after the other on packets of the queue, such that the packets
  whose call returned 0 are taken out, each once, and all others stay, in their order. When no
  call asked to skip its packet, those taken out are the first ones, first come first served. The
  work stops only when the queue is empty or at a packet that is not done with, which stays. The
  callbacks are any functions of the client, except that they do not call back into the library's
  queues (the ready functions, detach, the main loop).
\<close>

theorem queue_order:
  assumes "coremodel_advance_if cif h = Some (cif', h')" "\<not> if_defer_pkt cif"
  shows "\<exists>tr. handler_calls (if_func cif) tr (if_core cif, h) = Some (if_core cif', h') \<and>
    mset (if_rxbufs cif) = mset (handled tr) + mset (if_rxbufs cif') \<and> subseq (if_rxbufs cif') (if_rxbufs cif) \<and>
    ((\<forall>x \<in> set tr. 0 \<le> snd x) \<longrightarrow> if_rxbufs cif = handled tr @ if_rxbufs cif') \<and>
    (if_rxbufs cif' \<noteq> [] \<longrightarrow> tr \<noteq> [] \<and> snd (last tr) \<noteq> 0 \<and> fst (last tr) \<in> set (if_rxbufs cif')) \<and>
    if_func cif' = if_func cif \<and> \<not> if_defer_pkt cif'"
proof -
  obtain ps c where a: "advance_loop (if_func cif) [] (if_rxbufs cif) (if_core cif) h = Some (ps, c, h')"
    and cif': "cif' = cif\<lparr>if_rxbufs := ps, if_core := c\<rparr>"
    using assms by (auto simp: coremodel_advance_if_def split: Option.bind_split_asm)
  obtain tr where tr: "handler_calls (if_func cif) tr (if_core cif, h) = Some (c, h')"
    "mset (if_rxbufs cif) = mset (handled tr) + mset ps" "subseq ps (if_rxbufs cif)"
    "(\<forall>x \<in> set tr. 0 \<le> snd x) \<longrightarrow> if_rxbufs cif = handled tr @ ps"
    "if_rxbufs cif \<noteq> [] \<longrightarrow> tr \<noteq> []" "tr \<noteq> [] \<and> ps \<noteq> [] \<longrightarrow> snd (last tr) \<noteq> 0 \<and> fst (last tr) \<in> set ps"
    using advance_loop_calls [OF a] by auto
  have "ps \<noteq> [] \<longrightarrow> tr \<noteq> []" using tr(3,5) by auto
  with tr assms(2) show ?thesis unfolding cif' by (intro exI [of _ tr]) simp
qed

theorem queue_order_witness:
  "\<exists>cif' h' tr. coremodel_advance_if ((ex_if COREMODEL_UART (UartF test_uart_func))
      \<lparr>if_rxbufs := [ex_packet 1 0 0 0 [65], ex_packet 1 0 0 0 [66]]\<rparr>) (ex_host []) = Some (cif', h') \<and>
    handler_calls (UartF test_uart_func) tr (ex_core COREMODEL_UART, ex_host []) = Some (if_core cif', h') \<and>
    if_rxbufs cif' = [] \<and> mset (handled tr) = mset [ex_packet 1 0 0 0 [65], ex_packet 1 0 0 0 [66]]"
proof -
  let ?ps = "[ex_packet 1 0 0 0 [65], ex_packet 1 0 0 0 [66]]"
  let ?cif = "(ex_if COREMODEL_UART (UartF test_uart_func))\<lparr>if_rxbufs := ?ps\<rparr>"
  obtain c' h' where "advance_loop (UartF test_uart_func) [] ?ps (ex_core COREMODEL_UART) (ex_host []) = Some ([], c', h')"
    using uart_test.queue_sent [of test_uart_func "ex_core COREMODEL_UART" ?ps "ex_host []"]
    by (auto simp: test_uart_func_def)
  then have a: "coremodel_advance_if ?cif (ex_host []) = Some (?cif\<lparr>if_rxbufs := [], if_core := c'\<rparr>, h')"
    by (simp add: coremodel_advance_if_def ex_if_def)
  have d: "\<not> if_defer_pkt ?cif" by (simp add: ex_if_def)
  have "\<exists>tr. handler_calls (if_func ?cif) tr (if_core ?cif, ex_host []) = Some (if_core (?cif\<lparr>if_rxbufs := [], if_core := c'\<rparr>), h') \<and>
      mset (if_rxbufs ?cif) = mset (handled tr) + mset (if_rxbufs (?cif\<lparr>if_rxbufs := [], if_core := c'\<rparr>))"
    using queue_order [OF a d] by blast
  then obtain tr where "handler_calls (UartF test_uart_func) tr (ex_core COREMODEL_UART, ex_host []) = Some (c', h')"
    "mset (handled tr) = mset ?ps"
    by (auto simp: ex_if_def)
  with a show ?thesis
    by (intro exI [of _ "?cif\<lparr>if_rxbufs := [], if_core := c'\<rparr>"] exI [of _ h'] exI [of _ tr]) simp
qed

section \<open>Clients\<close>

text \<open>
  C14. What a UART client may send is bounded by its credits: the call takes the smaller of what
  is offered and what has been granted, sends exactly these bytes in one packet, and reduces
  the credits by as much.
\<close>

theorem uart_rx_credits:
  assumes "c_cred c \<noteq> 0" "n = min (unat len) (unat (c_cred c))" "n \<le> 65527" "n \<le> length data"
    "calloc h = (True, h')"
  shows "\<exists>c' p. coremodel_uart_rx (Some c) len data h = Some (int n, Some c', host_push p h') \<and>
    wf_packet p \<and> pk_data p = take n data \<and> pk_conn p = c_conn c \<and> unat (c_cred c') + n = unat (c_cred c)"
proof -
  have "n \<le> unat (c_cred c)" using assms(2) by simp
  then have "unat (c_cred c - of_nat n) + n = unat (c_cred c)"
    using assms(3) by (simp add: unat_sub_nat word_le_nat_alt unat_of_nat_u32)
  moreover have "wf_packet (uart_rx_packet c (take n data))" using assms(3) by (intro wf_uart_rx_packet) simp
  ultimately show ?thesis
    using uart_rx_sends [OF assms]
    by (intro exI [of _ "c\<lparr>c_cred := c_cred c - of_nat n\<rparr>"] exI [of _ "uart_rx_packet c (take n data)"])
      (simp add: uart_rx_packet_def)
qed

theorem uart_rx_credits_witness:
  "\<exists>c' p. coremodel_uart_rx (Some ((ex_core COREMODEL_UART)\<lparr>c_cred := 2\<rparr>)) 5 [1, 2, 3, 4, 5] (ex_host ()) =
     Some (int 2, Some c', host_push p (ex_host ())) \<and> wf_packet p \<and> pk_data p = take 2 [1, 2, 3, 4, 5] \<and>
     pk_conn p = c_conn ((ex_core COREMODEL_UART)\<lparr>c_cred := 2\<rparr>) \<and>
     unat (c_cred c') + 2 = unat (c_cred ((ex_core COREMODEL_UART)\<lparr>c_cred := 2\<rparr>))"
  by (rule uart_rx_credits) simp_all

text \<open>
  C15. The real-time clock behind the I2C interface: a queue of starts, writes, reads and stops
  is served completely, as the clock's functions serve them one after the other, with exactly
  the acknowledgements and data they owe, and the interface is idle again.
\<close>

theorem i2c_clock_served:
  assumes "c_type c = COREMODEL_I2C" "\<not> c_busy c" "c_offs c = 0" "length (c_rdbuf c) = RDBUF" "h_oom h = []"
    "\<forall>p \<in> set ps. i2c_request p"
  shows "\<exists>rs d' c'. i2c_serves (i2c_ds3231_start lt) i2c_ds3231_write (i2c_ds3231_read lt) i2c_ds3231_stop c ps (h_usr h)
        = Some (rs, d') \<and>
      advance_loop (I2cF (i2c_table (i2c_ds3231_start lt) i2c_ds3231_write (i2c_ds3231_read lt) i2c_ds3231_stop)) [] ps c h =
        Some ([], c', host_pushes rs (h\<lparr>h_usr := d'\<rparr>)) \<and> \<not> c_busy c' \<and> c_offs c' = 0"
  using ds3231.requests_done [OF assms(1), of h ps lt] assms(2-6) by (auto simp: ds3231.idle_def)

theorem i2c_clock_served_witness:
  "\<exists>rs d' c'. i2c_serves (i2c_ds3231_start ex_localtime) i2c_ds3231_write (i2c_ds3231_read ex_localtime) i2c_ds3231_stop
        (ex_core COREMODEL_I2C) [ex_packet 1 0 1 5 [], ex_packet 1 1 1 6 [0], ex_packet 1 2 7 7 []]
        (h_usr (ex_host (ds3231_init 0 []))) = Some (rs, d') \<and>
      advance_loop (I2cF (i2c_table (i2c_ds3231_start ex_localtime) i2c_ds3231_write (i2c_ds3231_read ex_localtime)
          i2c_ds3231_stop)) [] [ex_packet 1 0 1 5 [], ex_packet 1 1 1 6 [0], ex_packet 1 2 7 7 []]
        (ex_core COREMODEL_I2C) (ex_host (ds3231_init 0 [])) =
        Some ([], c', host_pushes rs ((ex_host (ds3231_init 0 []))\<lparr>h_usr := d'\<rparr>)) \<and> \<not> c_busy c' \<and> c_offs c' = 0"
  by (rule i2c_clock_served) (simp_all add: i2c_request_def)

text \<open>
  C16. An SPI transfer that fits the interface's buffer is handed to the client in pieces of at
  most 256 bytes, and answered by one packet with every byte the client shifted out. One piece is
  answered at once. Two pieces are not: the work on the queue stops after the first, with the packet at
  the head of the queue and nothing sent, although the client is not busy, and the answer goes out only when
  something else, here \<open>coremodel_spi_ready\<close>, makes the library look at the queue again.
\<close>

theorem spi_transfer:
  fixes cif :: "out_item list coremodel_if"
  assumes "if_func cif = SpiF (spi_table test_spi_cs test_spi_xfr)" "c_type (if_core cif) = COREMODEL_SPI"
    "\<not> if_defer_pkt cif" "if_rxbufs cif = [p]" "pk_pkt p = PKT_SPI_TX" "wf_packet p"
    "length (pk_data p) \<le> RDBUF" "pk_data p \<noteq> []" "\<not> c_busy (if_core cif)" "c_offs (if_core cif) = 0"
    "length (c_rdbuf (if_core cif)) = RDBUF" "h_oom h = []"
  shows "\<exists>out d'. spi_pieces test_spi_xfr (pk_data p) (h_usr h) = Some (out, d') \<and> length out = length (pk_data p) \<and>
    (if length (pk_data p) \<le> 256
     then \<exists>cif'. coremodel_advance_if cif h =
         Some (cif', host_push (spi_reply (if_core cif) (pk_hflag p) out) (h\<lparr>h_usr := d'\<rparr>)) \<and> if_rxbufs cif' = []
     else \<exists>cif1 d1 cif2. coremodel_advance_if cif h = Some (cif1, h\<lparr>h_usr := d1\<rparr>) \<and> if_rxbufs cif1 = [p] \<and>
         \<not> c_busy (if_core cif1) \<and> c_offs (if_core cif1) = 256 \<and>
         coremodel_spi_ready (Some cif1) (h\<lparr>h_usr := d1\<rparr>) =
           Some (Some cif2, host_push (spi_reply (if_core cif) (pk_hflag p) out) (h\<lparr>h_usr := d'\<rparr>)) \<and> if_rxbufs cif2 = [])"
proof -
  let ?f = "spi_table test_spi_cs test_spi_xfr" and ?c = "if_core cif"
  have adv: "advance_pkt (SpiF ?f) p c k = coremodel_advance_if_spi ?f p c k" if "c_type c = COREMODEL_SPI"
    for c and k :: "out_item list host"
    using that by (simp add: advance_pkt_def)
  show ?thesis
  proof (cases "length (pk_data p) \<le> 256")
    case True
    obtain out d' c' where t: "spi_pieces test_spi_xfr (pk_data p) (h_usr h) = Some (out, d')" "length out = length (pk_data p)"
      "coremodel_advance_if_spi ?f p ?c h = Some (0, c', host_push (spi_reply ?c (pk_hflag p) out) (h\<lparr>h_usr := d'\<rparr>))"
      using spi_test.transfer_short [OF assms(5,6) True assms(8-12)] by auto
    then have "coremodel_advance_if cif h = Some (cif\<lparr>if_rxbufs := [], if_core := c'\<rparr>,
        host_push (spi_reply ?c (pk_hflag p) out) (h\<lparr>h_usr := d'\<rparr>))"
      using assms(1-4) adv [of ?c h] by (simp add: coremodel_advance_if_def advance_loop.simps(2))
    with t True show ?thesis by auto
  next
    case False
    then obtain out d1 d' c1 c2 where t: "spi_pieces test_spi_xfr (pk_data p) (h_usr h) = Some (out, d')"
      "length out = length (pk_data p)" "coremodel_advance_if_spi ?f p ?c h = Some (1, c1, h\<lparr>h_usr := d1\<rparr>)"
      "\<not> c_busy c1" "c_offs c1 = 256" "c_type c1 = c_type ?c"
      "coremodel_advance_if_spi ?f p c1 (h\<lparr>h_usr := d1\<rparr>) =
        Some (0, c2, host_push (spi_reply ?c (pk_hflag p) out) (h\<lparr>h_usr := d'\<rparr>))"
      using spi_test.transfer_long [OF assms(5,6) _ assms(7,9-12)] by auto
    let ?cif1 = "cif\<lparr>if_rxbufs := [p], if_core := c1\<rparr>"
    have "coremodel_advance_if cif h = Some (?cif1, h\<lparr>h_usr := d1\<rparr>)"
      using assms(1-4) adv [of ?c h] t(3) by (simp add: coremodel_advance_if_def advance_loop.simps(2))
    moreover have "c1\<lparr>c_busy := False\<rparr> = c1" using t(4) by simp
    then have "coremodel_spi_ready (Some ?cif1) (h\<lparr>h_usr := d1\<rparr>) = Some (Some (cif\<lparr>if_rxbufs := [], if_core := c2\<rparr>),
        host_push (spi_reply ?c (pk_hflag p) out) (h\<lparr>h_usr := d'\<rparr>))"
      using assms(1-3) adv [of c1 "h\<lparr>h_usr := d1\<rparr>"] t(6,7)
      by (simp add: coremodel_spi_ready_def coremodel_ready_int_def coremodel_advance_if_def advance_loop.simps(2))
    ultimately show ?thesis using t False by auto
  qed
qed

theorem spi_transfer_witness:
  "\<exists>out d' cif1 d1 cif2. spi_pieces test_spi_xfr (replicate 300 7) [] = Some (out, d') \<and> length out = 300 \<and>
    coremodel_advance_if ((ex_if COREMODEL_SPI (SpiF (spi_table test_spi_cs test_spi_xfr)))
        \<lparr>if_rxbufs := [ex_packet 1 1 0 9 (replicate 300 7)]\<rparr>) (ex_host []) = Some (cif1, (ex_host [])\<lparr>h_usr := d1\<rparr>) \<and>
    if_rxbufs cif1 = [ex_packet 1 1 0 9 (replicate 300 7)] \<and>
    coremodel_spi_ready (Some cif1) ((ex_host [])\<lparr>h_usr := d1\<rparr>) =
      Some (Some cif2, host_push (spi_reply (ex_core COREMODEL_SPI) 9 out) ((ex_host [])\<lparr>h_usr := d'\<rparr>)) \<and> if_rxbufs cif2 = []"
proof -
  let ?p = "ex_packet 1 1 0 9 (replicate 300 7)"
  have "replicate 300 (7 :: byte) \<noteq> []" by (metis length_replicate list.size(3) zero_neq_numeral)
  then show ?thesis
    using spi_transfer [of "(ex_if COREMODEL_SPI (SpiF (spi_table test_spi_cs test_spi_xfr)))\<lparr>if_rxbufs := [?p]\<rparr>" ?p "ex_host []"]
    by (simp add: ex_if_def) blast
qed

text \<open>
  C17. The CAN client acknowledges every classic frame that carries its data: the frame reaches
  the client whole and is printed, the client sends its own frame, or prints that it could not because
  the last one is not acknowledged yet, and behind it goes the acknowledgement, which bears the sequence
  number of the frame and says that it was accepted.
\<close>

theorem can_acked:
  assumes "pk_pkt p = PKT_CAN_TX" "wf_packet p" "pk_data p = le_bytes 8 c0 @ le_bytes 8 c1 @ d"
    "can_dlen c0 \<le> length d" "can_classic (c0, c1)" "\<not> c_busy c" "h_oom h = []"
  shows "coremodel_advance_if_can test_can_func p c h =
    (let seen = OutCan (c0, c1) (take (can_dlen c0) d);
         ack = \<lparr>pk_len = 8, pk_conn = c_conn c, pk_pkt = PKT_CAN_TX_ACK, pk_bflag = pk_bflag p, pk_hflag = 0, pk_data = []\<rparr>;
         c' = c\<lparr>c_trnidx := (c_trnidx c + 1) AND 255\<rparr> in
     if c_ebusy c = 0 then Some (0, c'\<lparr>c_ebusy := 1\<rparr>, host_push ack (host_push (test_can_reply c') (say [seen] h)))
     else Some (0, c, host_push ack (say [seen, OutCanFailed] h)))"
proof -
  note tx = test_can_tx_result [of "(c0, c1)" "take (can_dlen c0) d" h "c_priv c" c]
  show ?thesis
  proof (cases "c_ebusy c = 0")
    case True
    then show ?thesis
      using can_tx_frame [OF assms(1-4,6), of test_can_func test_can_tx] tx assms(4,5,7)
      by (simp add: test_can_func_def can_ack_def Let_def)
  next
    case False
    then show ?thesis
      using can_tx_frame [OF assms(1-4,6), of test_can_func test_can_tx] tx assms(4,5,7)
      by (simp add: test_can_func_def can_ack_def Let_def)
  qed
qed

theorem can_acked_witness:
  "\<exists>c' h'. coremodel_advance_if_can test_can_func
      (ex_packet 1 0 7 0 (le_bytes 8 (1 :: u64) @ le_bytes 8 (0 :: u64) @ [0xAA])) (ex_core COREMODEL_CAN) (ex_host []) =
    Some (0, c', host_push \<lparr>pk_len = 8, pk_conn = 1, pk_pkt = PKT_CAN_TX_ACK, pk_bflag = 7, pk_hflag = 0, pk_data = []\<rparr> h') \<and>
    h_usr h' = [OutCan (1, 0) [0xAA]]"
proof -
  have "can_dlc 1 = 1" by (simp add: can_dlc_def)
  then have "can_dlen 1 = 1" "can_classic (1, 0)"
    by (simp_all add: can_dlen_def can_classic_def coremodel_can_datalen_def)
  moreover define h' where "h' = host_push (test_can_reply ((ex_core COREMODEL_CAN)\<lparr>c_trnidx := 1\<rparr>)) (say [OutCan (1, 0) [0xAA]] (ex_host []))"
  ultimately have "coremodel_advance_if_can test_can_func
      (ex_packet 1 0 7 0 (le_bytes 8 (1 :: u64) @ le_bytes 8 (0 :: u64) @ [0xAA])) (ex_core COREMODEL_CAN) (ex_host []) =
    Some (0, (ex_core COREMODEL_CAN)\<lparr>c_trnidx := 1, c_ebusy := 1\<rparr>,
      host_push \<lparr>pk_len = 8, pk_conn = 1, pk_pkt = PKT_CAN_TX_ACK, pk_bflag = 7, pk_hflag = 0, pk_data = []\<rparr> h')"
    using can_acked [of "ex_packet 1 0 7 0 (le_bytes 8 (1 :: u64) @ le_bytes 8 (0 :: u64) @ [0xAA])" 1 0 "[0xAA]"
        "ex_core COREMODEL_CAN" "ex_host []"]
    by (simp add: Let_def)
  moreover have "h_usr h' = [OutCan (1, 0) [0xAA]]" by (simp add: h'_def host_push_def)
  ultimately show ?thesis by blast
qed

text \<open>
  C18. One CAN frame at a time: a frame sent makes the interface busy, the next one is refused,
  and exactly the acknowledgement with the sequence number of the frame makes it free again. The
  client may have a callback for the completion, as the three of the repository have, which returns and
  sends nothing itself.
\<close>

theorem can_one_at_a_time:
  assumes "c_ebusy c = 0" "can_dlen (fst ctrl) \<le> length d" "h_oom h = []"
    "\<And>g n c1 h1. cf_rxcomplete f = Some g \<Longrightarrow> \<exists>h'. g (c_priv c) n c1 h1 = Some ((), c1, h')"
  shows "\<exists>c' p. coremodel_can_rx (Some c) ctrl (Some d) h = Some (0, Some c', host_push p h) \<and>
    coremodel_can_rx_busy c' = 1 \<and> coremodel_can_rx (Some c') ctrl2 data2 h2 = Some (1, Some c', h2) \<and>
    (\<forall>q. pk_pkt q = PKT_CAN_RX_ACK \<longrightarrow> (\<exists>c'' h3. coremodel_advance_if_can f q c' h2 = Some (0, c'', h3) \<and>
       coremodel_can_rx_busy c'' = (if pk_bflag q = pk_bflag p then 0 else 1)))"
proof -
  let ?c = "(c\<lparr>c_trnidx := (c_trnidx c + 1) AND 255\<rparr>)\<lparr>c_ebusy := 1\<rparr>"
  let ?p = "can_frame (c\<lparr>c_trnidx := (c_trnidx c + 1) AND 255\<rparr>) ctrl (take (can_dlen (fst ctrl)) d)"
  have s: "coremodel_can_rx (Some c) ctrl (Some d) h = Some (0, Some ?c, host_push ?p h)"
    using can_rx_sends [OF assms(1-3)] by (simp add: Let_def)
  have u: "(ucast (pk_bflag q) :: u16) = (c_trnidx c + 1) AND 255 \<longleftrightarrow> pk_bflag q = pk_bflag ?p" for q :: packet
    using can_frame_acked [of "c_trnidx c" c ctrl "take (can_dlen (fst ctrl)) d"] ucast_u8_inj [of "pk_bflag q" "pk_bflag ?p"]
    by simp
  have a: "\<exists>h3. coremodel_advance_if_can f q ?c h2 = Some (0, if pk_bflag q = pk_bflag ?p then ?c\<lparr>c_ebusy := 0\<rparr> else ?c, h3)"
    if "pk_pkt q = PKT_CAN_RX_ACK" for q
    using can_rx_ack [OF that, of f ?c h2] assms(4) u [of q] by simp
  have "\<exists>c'' h3. coremodel_advance_if_can f q ?c h2 = Some (0, c'', h3) \<and>
       coremodel_can_rx_busy c'' = (if pk_bflag q = pk_bflag ?p then 0 else 1)" if "pk_pkt q = PKT_CAN_RX_ACK" for q
    using a [OF that] by (cases "pk_bflag q = pk_bflag ?p") auto
  then show ?thesis
    using s can_rx_refuses [of ?c ctrl2 data2 h2] by (intro exI [of _ ?c] exI [of _ ?p]) simp
qed

theorem can_one_at_a_time_witness:
  "\<exists>c' p. coremodel_can_rx (Some (ex_core COREMODEL_CAN)) (0, 0) (Some []) (ex_host ([] :: out_item list)) = Some (0, Some c', host_push p (ex_host ([] :: out_item list))) \<and>
    coremodel_can_rx_busy c' = 1 \<and> coremodel_can_rx (Some c') (0, 0) None (ex_host ([] :: out_item list)) = Some (1, Some c', ex_host ([] :: out_item list)) \<and>
    (\<exists>c'' h3. coremodel_advance_if_can test_can_func (ex_packet 1 PKT_CAN_RX_ACK (pk_bflag p) 0 []) c' (ex_host ([] :: out_item list)) = Some (0, c'', h3) \<and>
       coremodel_can_rx_busy c'' = 0)"
proof -
  have "can_dlen 0 = 0" by (simp add: can_dlen_def can_dlc_def coremodel_can_datalen_def)
  moreover have "\<exists>h'. g (c_priv (ex_core COREMODEL_CAN)) n c1 h1 = Some ((), c1, h')"
    if "cf_rxcomplete test_can_func = Some g" for g n c1 h1
    using that by (auto simp: test_can_func_def test_can_rxcomplete_def)
  ultimately have "\<exists>c' p. coremodel_can_rx (Some (ex_core COREMODEL_CAN)) (0, 0) (Some []) (ex_host ([] :: out_item list)) =
      Some (0, Some c', host_push p (ex_host ([] :: out_item list))) \<and> coremodel_can_rx_busy c' = 1 \<and>
    coremodel_can_rx (Some c') (0, 0) None (ex_host ([] :: out_item list)) = Some (1, Some c', ex_host ([] :: out_item list)) \<and>
    (\<forall>q. pk_pkt q = PKT_CAN_RX_ACK \<longrightarrow> (\<exists>c'' h3. coremodel_advance_if_can test_can_func q c' (ex_host ([] :: out_item list)) = Some (0, c'', h3) \<and>
       coremodel_can_rx_busy c'' = (if pk_bflag q = pk_bflag p then 0 else 1)))"
    by (intro can_one_at_a_time) simp_all
  then obtain c' p where w: "coremodel_can_rx (Some (ex_core COREMODEL_CAN)) (0, 0) (Some []) (ex_host ([] :: out_item list)) =
      Some (0, Some c', host_push p (ex_host ([] :: out_item list)))" "coremodel_can_rx_busy c' = 1"
    "coremodel_can_rx (Some c') (0, 0) None (ex_host ([] :: out_item list)) = Some (1, Some c', ex_host ([] :: out_item list))"
    "\<forall>q. pk_pkt q = PKT_CAN_RX_ACK \<longrightarrow> (\<exists>c'' h3. coremodel_advance_if_can test_can_func q c' (ex_host ([] :: out_item list)) = Some (0, c'', h3) \<and>
       coremodel_can_rx_busy c'' = (if pk_bflag q = pk_bflag p then 0 else 1))"
    by (elim exE conjE) (rule that)
  then show ?thesis using w(4) [rule_format, of "ex_packet 1 PKT_CAN_RX_ACK (pk_bflag p) 0 []"]
    by (intro exI [of _ c'] exI [of _ p]) simp
qed

text \<open>
  C19. The Ethernet client loops frames back: with a credit left, a frame from the virtual machine
  is handed to it whole and returns to the machine byte for byte in one packet, for one credit.
\<close>

theorem eth_loopback:
  assumes "pk_pkt p = PKT_ETH_TX" "wf_packet p" "pk_data p \<noteq> []" "\<not> c_busy c" "c_offs c = 0" "c_cred c \<noteq> 0" "h_oom h = []"
  shows "\<exists>q. coremodel_advance_if_eth test_eth_func p c h = Some (0, c\<lparr>c_cred := c_cred c - 1\<rparr>,
      host_push q (say [OutFrame (pk_data p)] h)) \<and>
    pk_pkt q = PKT_ETH_RX \<and> pk_conn q = c_conn c \<and> pk_data q = pk_data p \<and> wf_packet q"
  using eth_echo [OF assms] wf_packet_data_bound [OF assms(2)]
  by (intro exI [of _ "eth_rx_packet c (pk_data p)"]) (simp add: eth_rx_packet_def wf_packet_def unat_len16)

theorem eth_loopback_witness:
  "\<exists>q. coremodel_advance_if_eth test_eth_func (ex_packet 1 0 0 0 [1, 2]) ((ex_core COREMODEL_ETH)\<lparr>c_cred := 1\<rparr>) (ex_host []) =
     Some (0, (ex_core COREMODEL_ETH)\<lparr>c_cred := 0\<rparr>, host_push q (say [OutFrame [1, 2]] (ex_host []))) \<and> pk_data q = [1, 2]"
  using eth_loopback [of "ex_packet 1 0 0 0 [1, 2]" "(ex_core COREMODEL_ETH)\<lparr>c_cred := 1\<rparr>" "ex_host []"] by auto

section \<open>Malformed streams\<close>

text \<open>
  C20. A packet whose length field is zero and whose connection index is nobody's (or whose answer is not
  expected) hangs the library: an iteration of the splitter's loop accesses no memory it must
  not, goes round again and has changed nothing, neither the ring nor the connection; so the
  loop never returns. The hypothesis on the read position leaves out the last four bytes of the array,
  where the packet's header is read beyond its end.
\<close>

theorem zero_length_hangs:
  assumes "cm_ok cm" "ring_ok r" "8 \<le> unat (ring_used r)" "of_le (take 2 (ring_bytes r)) = (0 :: u16)"
    "unat (rxqrp r) mod RX_BUF + 8 \<le> RX_BUF" "conn = of_le (take 2 (drop 2 (ring_bytes r)))"
    "if conn = CONN_QUERY then \<not> cm_query cm else \<forall>i \<in> set (cm_ifs cm). conn_of cm i \<noteq> conn"
  shows "rxq_step coremodel_process_packet (r, cm) = Some (Inl (r, cm)) \<and>
    coremodel_process_rxq coremodel_process_packet (r, cm) = None"
proof -
  have "coremodel_process_packet p cm = Some (False, cm)" if "pk_conn p = conn" for p
    using that assms(1,7) process_packet_unknown [of cm p]
    by (cases "conn = CONN_QUERY") (auto simp: coremodel_process_packet_def)
  then have "rxq_step coremodel_process_packet (r, cm) = Some (Inl (r, cm))"
    using assms(6) by (intro rxq_step_zero [OF assms(2-5)]) simp
  then show ?thesis using process_rxq_loops by blast
qed

theorem zero_length_hangs_witness:
  "\<exists>r. ring_bytes r = replicate 8 0 \<and> cm_ifs (ex_cm1 COREMODEL_UART (UartF test_uart_func) []) = [0] \<and>
     rxq_step coremodel_process_packet (r, ex_cm1 COREMODEL_UART (UartF test_uart_func) []) =
       Some (Inl (r, ex_cm1 COREMODEL_UART (UartF test_uart_func) [])) \<and>
     coremodel_process_rxq coremodel_process_packet (r, ex_cm1 COREMODEL_UART (UartF test_uart_func) []) = None"
proof -
  obtain r where r: "ring_store (replicate 8 0) ring_init = Some r" "ring_ok r" "ring_bytes r = replicate 8 0"
    using ring_store_ok [OF ring_init_ok, of "replicate 8 0"] ring_init_bytes
    by (auto simp: ring_step_def ring_init_def ring_used_def)
  have u: "unat (ring_used r) = 8" using length_ring_bytes [of r] r(3) by simp
  have rp: "rxqrp r = 0" using r(1) by (auto simp: ring_store_def ring_init_def split: Option.bind_split_asm)
  have "take 2 (ring_bytes r) = [0, 0]" "take 2 (drop 2 (ring_bytes r)) = [0, 0]"
    by (simp_all add: r(3) numeral_eq_Suc)
  then have z: "of_le (take 2 (ring_bytes r)) = (0 :: u16)" "of_le (take 2 (drop 2 (ring_bytes r))) = (0 :: u16)"
    by simp_all
  have "conn_of (ex_cm1 COREMODEL_UART (UartF test_uart_func) []) 0 = 1" by (simp add: conn_of_def ex_if_def)
  then show ?thesis
    using zero_length_hangs [of "ex_cm1 COREMODEL_UART (UartF test_uart_func) []" r 0] r(2,3) u rp z by auto
qed

section \<open>Device models\<close>

text \<open>
  C21. The USB keyboard's device descriptor can be read with any length asked for and in transfers
  of any sizes: the SETUP is accepted and what the IN transfers return together is the
  descriptor, cut to the length asked for and to the room given.
\<close>

theorem keyboard_descriptor:
  assumes "vkb_ok st"
  shows "\<exists>st' out st''. test_usbh_xfr dev 0 USB_TKN_SETUP (Inl ([0x80, 6, 0, 1, 0, 0] @ le_bytes 2 (len :: u16))) e st =
      Some ((8, []), st') \<and> vkb_ok st' \<and>
    vkb_ins ns st' = Some (take (sum_list (map unat ns)) (take (unat len) vkb_dev_desc), st'')"
  by (rule device_descriptor [OF assms])

theorem keyboard_descriptor_witness:
  "\<exists>st' st''. test_usbh_xfr 1 0 USB_TKN_SETUP (Inl [0x80, 6, 0, 1, 0, 0, 8, 0]) 1 vkb_init = Some ((8, []), st') \<and>
    vkb_ins [8] st' = Some ([0x12, 0x01, 0x00, 0x02, 0x00, 0x00, 0x00, 0x08], st'')"
proof -
  have "vkb_ok vkb_init" by (simp add: vkb_ok_def vkb_init_def)
  moreover have "[0x80, 6, 0, 1, 0, 0] @ le_bytes 2 (8 :: u16) = [0x80, 6, 0, 1, 0, 0, 8, 0]"
    by code_simp
  moreover have "take 8 (take 8 vkb_dev_desc) = [0x12, 0x01, 0x00, 0x02, 0x00, 0x00, 0x00, 0x08]"
    by (simp add: vkb_dev_desc_def)
  ultimately show ?thesis using keyboard_descriptor [of vkb_init 1 8 1 "[8]"] by auto
qed

text \<open>
  C22. Every IN transfer to the keyboard that is not paused is answered or, when the keyboard has
  nothing to say, paused: the reply carries at most the number of bytes asked for, it repeats
  the transfer's endpoint, token and device, and a stall has its flag.
\<close>

theorem keyboard_in_answered:
  assumes "pk_pkt p = PKT_USBH_XFR" "usbh_tkn p = USB_TKN_IN" "wf_packet p" "2 \<le> length (pk_data p)"
    "\<not> c_busy c" "\<not> usbh_paused c (usbh_ep p) USB_TKN_IN" "length (c_rdbuf c) = RDBUF"
    "h_oom h = []" "vkb_ok (h_usr h)"
  shows "\<exists>res c' h' d'. vkb_ok d' \<and> res \<le> int (usbh_in_size p) \<and>
    coremodel_advance_if_usbh (usbh_table test_usbh_rst test_usbh_xfr) p c h =
      (if res = USB_XFR_NAK then Some (- 1, c', h\<lparr>h_usr := d'\<rparr>)
       else Some (0, c', host_push (if res < 0 then usbh_reply c p True [] else usbh_reply c p False (take (nat res) (c_rdbuf c')))
           (h\<lparr>h_usr := d'\<rparr>))) \<and>
    (usbh_paused c' (usbh_ep p) USB_TKN_IN \<longleftrightarrow> res = USB_XFR_NAK)"
proof -
  obtain res bs d' buf b where *: "vkb_ok d'" "res \<le> int (usbh_in_size p)" "usbh_bit (usbh_ep p) USB_TKN_IN = Some b"
    "coremodel_advance_if_usbh (usbh_table test_usbh_rst test_usbh_xfr) p c h =
      (if res = USB_XFR_NAK then Some (- 1, c\<lparr>c_rdbuf := buf, c_ebusy := c_ebusy c OR b\<rparr>, h\<lparr>h_usr := d'\<rparr>)
       else Some (0, c\<lparr>c_rdbuf := buf\<rparr>,
         host_push (if res < 0 then usbh_reply c p True [] else usbh_reply c p False (take (nat res) buf)) (h\<lparr>h_usr := d'\<rparr>)))"
    using keyboard.in_reply [OF assms] by blast
  have "usbh_paused (c\<lparr>c_rdbuf := buf, c_ebusy := c_ebusy c OR b\<rparr>) (usbh_ep p) USB_TKN_IN"
    using usbh_pause_frame [OF *(3), of USB_TKN_IN "c\<lparr>c_rdbuf := buf\<rparr>" "usbh_ep p"] by simp
  moreover have "\<not> usbh_paused (c\<lparr>c_rdbuf := buf\<rparr>) (usbh_ep p) USB_TKN_IN" using assms(6) by (simp add: usbh_paused_def)
  ultimately show ?thesis
    using *(1,2,4)
    by (intro exI [of _ res] exI [of _ "if res = USB_XFR_NAK then c\<lparr>c_rdbuf := buf, c_ebusy := c_ebusy c OR b\<rparr> else c\<lparr>c_rdbuf := buf\<rparr>"] exI [of _ d'])
      (auto cong: if_cong)
qed

theorem keyboard_in_answered_witness:
  "\<exists>res c' h' d'. vkb_ok d' \<and> res \<le> 8 \<and>
    coremodel_advance_if_usbh (usbh_table test_usbh_rst test_usbh_xfr) (ex_packet 1 1 0 0x11 [8, 0]) (ex_core COREMODEL_USBH)
      (ex_host vkb_init) =
      (if res = USB_XFR_NAK then Some (- 1, c', (ex_host vkb_init)\<lparr>h_usr := d'\<rparr>)
       else Some (0, c', h'))"
proof -
  let ?p = "ex_packet 1 1 0 0x11 [8, 0]"
  have "usbh_tkn ?p = USB_TKN_IN" "usbh_ep ?p = 1" "vkb_ok vkb_init" "usbh_in_size ?p = 8"
    by (simp_all add: usbh_tkn_def usbh_ep_def vkb_ok_def vkb_init_def usbh_in_size_def)
  then obtain res c' h' d' where "vkb_ok d'" "res \<le> 8"
    "coremodel_advance_if_usbh (usbh_table test_usbh_rst test_usbh_xfr) ?p (ex_core COREMODEL_USBH) (ex_host vkb_init) =
      (if res = USB_XFR_NAK then Some (- 1, c', (ex_host vkb_init)\<lparr>h_usr := d'\<rparr>) else Some (0, c', h'))"
    using keyboard_in_answered [of ?p "ex_core COREMODEL_USBH" "ex_host vkb_init"]
    by (auto simp: usbh_paused_def)
  then show ?thesis by blast
qed

text \<open>
  C23. What a master writes to the memory of the DS3234 it reads back: the address, the data, the
  address again and a read of as many bytes, each its own transfer, return the data, as long as
  it stays below the last byte of the memory.
\<close>

theorem ds3234_memory:
  assumes "sram_ok st" "a < 255" "a + length bs \<le> 255" "length ws = length bs" "bs \<noteq> []"
  shows "\<exists>st1 st2 st3 st4.
    spi_ds3234_xfr lt [0x98, of_nat a] st = Some ((2, [0, of_nat a]), st1) \<and>
    spi_ds3234_xfr lt (0x99 # bs) st1 = Some ((1 + int (length bs), 0 # bs), st2) \<and>
    spi_ds3234_xfr lt [0x98, of_nat a] st2 = Some ((2, [0, of_nat a]), st3) \<and>
    spi_ds3234_xfr lt (0x19 # ws) st3 = Some ((1 + int (length bs), 0 # bs), st4)"
  by (rule sram_roundtrip [OF assms])

theorem ds3234_memory_witness:
  "\<exists>st1 st2 st3 st4.
    spi_ds3234_xfr ex_localtime [0x98, of_nat 40] (ds3234_init 0 [] (replicate 256 0)) = Some ((2, [0, of_nat 40]), st1) \<and>
    spi_ds3234_xfr ex_localtime (0x99 # [7, 9]) st1 = Some ((1 + int (length [7 :: u8, 9]), 0 # [7, 9]), st2) \<and>
    spi_ds3234_xfr ex_localtime [0x98, of_nat 40] st2 = Some ((2, [0, of_nat 40]), st3) \<and>
    spi_ds3234_xfr ex_localtime (0x19 # [0, 0]) st3 = Some ((1 + int (length [7 :: u8, 9]), 0 # [7, 9]), st4)"
  by (rule ds3234_memory) (simp_all add: sram_ok_def ds3234_init_def)

text \<open>
  C24. An initialised CR3020 answers the request for the time with one frame of eight bytes under
  its reply identifier, which shows the local time and date of the years 1900 to 2099 in BCD: the day of
  the month, the month with the century in its highest bit, the year of the century, hours, minutes, seconds and
  the day of the week from 1; the byte for the battery is zero.
\<close>

theorem cr3020_time_answered:
  assumes "cr_initialized (h_usr h) \<noteq> 0" "can_dlc (fst ctrl) = 0" "\<not> bit (fst ctrl) 34"
    "cr_id (fst ctrl) = 0x200 + unat (node_id (h_usr h))" "h_oom h = []" "c_ebusy c = 0" "valid_tm (lt now)"
  shows "\<exists>c' d. can_cr3020_receive fresh lt now p ctrl [] c h =
      Some (CAN_ACK, c', host_push (can_frame c' (cr_ctrl (0x180 + ucast (node_id (h_usr h))) 8, 0) d) h) \<and>
    length d = 8 \<and> bcd_value (d ! 0) = tm_mday (lt now) \<and> bcd_value (d ! 1 AND 0x7F) = tm_mon (lt now) + 1 \<and>
    (bit (d ! 1) 7 \<longleftrightarrow> 100 \<le> tm_year (lt now)) \<and> bcd_value (d ! 2) = tm_year (lt now) mod 100 \<and>
    bcd_value (d ! 3) = tm_hour (lt now) \<and> bcd_value (d ! 4) = tm_min (lt now) \<and>
    bcd_value (d ! 5) = tm_sec (lt now) \<and> uint (d ! 6) = tm_wday (lt now) + 1 \<and> d ! 7 = 0"
  by (rule receive_request; fact)

theorem cr3020_time_answered_witness:
  "\<exists>c' d. can_cr3020_receive 0 ex_localtime 0 0 (0x213000000000, 0) [] (ex_core COREMODEL_CAN)
      (ex_host (cr3020_init\<lparr>cr_initialized := 1\<rparr>)) = Some (CAN_ACK, c', host_push (can_frame c'
        (cr_ctrl (0x180 + ucast (node_id cr3020_init)) 8, 0) d) (ex_host (cr3020_init\<lparr>cr_initialized := 1\<rparr>))) \<and>
    bcd_value (d ! 3) = 12 \<and> bcd_value (d ! 1 AND 0x7F) = 1 \<and> bcd_value (d ! 2) = 70"
proof -
  let ?c = "(0x213000000000, 0) :: u64 \<times> u64"
  have "can_dlc (fst ?c) = 0" "\<not> bit (fst ?c) 34" "cr_id (fst ?c) = 0x213"
    by (simp_all add: can_dlc_def cr_id_def drop_bit_eq_div bit_iff_odd_drop_bit)
  then show ?thesis
    using cr3020_time_answered [of "ex_host (cr3020_init\<lparr>cr_initialized := 1\<rparr>)" ?c "ex_core COREMODEL_CAN" ex_localtime 0 0 0]
    by (auto simp: valid_tm_def ex_localtime_def cr3020_init_def)
qed

section \<open>Opening a connection\<close>

text \<open>
  C25. Connecting to \<open>host:port\<close>, with the port in decimal, reaches that port of the host: when
  the system does not fail, the caller gets a connection with the socket that was opened, which does
  not block, an empty receive buffer and no interface. The process then holds the socket, the
  wake-up pipe and two allocations, one of which, the copy of the target, nobody frees.
\<close>

theorem connect_opens:
  assumes "env_ok e k" "e_calloc e" "e_mutex e" "e_malloc e" "e_pipe e = Inr (r, w)" "e_socket e = Inr fd"
    "e_setfl e r = None" "e_setfl e fd = None" "0x3A \<notin> set host" "n < 65536" "e_host e host = Some addr"
    "e_connect e addr (of_nat n) = None"
  shows "\<exists>cm k'. coremodel_connect e oom usr (Some (host @ 0x3A # decimal n)) k = Inr ((ring_init, cm), k') \<and>
    cm_fd cm = fd \<and> cm_wake_fd cm = r \<and> cm_ifs cm = [] \<and> attach_ok cm \<and> k_fds k' = fd # r # w # k_fds k \<and>
    k_flags k' fd = k_flags k fd OR O_NONBLOCK \<and> k_blocks k' = k_blocks k + 2"
proof -
  have "conn_target (host @ 0x3A # decimal n) k = (host, of_nat n, k)"
    using conn_target_decimal [OF assms(9), of n k] assms(10) by simp
  moreover have "e_connect e addr (ucast (of_nat n :: u32)) = None" using assms(12) using assms(10)
    by (simp add: unsigned_of_nat take_bit_nat_eq_self)
  ultimately obtain q cm k' where c: "coremodel_connect e oom usr (Some (host @ 0x3A # decimal n)) k = Inr ((q, cm), k')"
    using connect_reaches [of e "(r, w)" fd "host @ 0x3A # decimal n" k host "of_nat n" k addr oom usr] assms by auto
  show ?thesis using connect_succeeds [OF assms(1) c] c assms(5,6) by auto
qed

theorem connect_opens_witness:
  "\<exists>cm k'. coremodel_connect ex_env [] () (Some ([0x68] @ 0x3A # decimal 1900)) ex_proc = Inr ((ring_init, cm), k') \<and>
    cm_fd cm = 5 \<and> k_fds k' = [5, 3, 4, 0, 1, 2]"
  using connect_opens [where e = ex_env and k = ex_proc and r = 3 and w = 4 and fd = 5 and host = "[0x68]" and n = 1900
      and addr = "0x7F000001" and oom = "[]" and usr = "()"] ex_env_ok
  by (simp add: ex_env_def ex_proc_def) blast

text \<open>
  C26. A connection that fails after its lock was made gives everything back: the descriptors
  are those of before, the allocations too, and the lock is gone. The value returned is always the
  one for a bad descriptor, whatever failed: the exit closes descriptor -1 before it reads \<open>errno\<close>.
\<close>

theorem connect_failure_releases:
  assumes "env_ok e k" "e_calloc e" "e_mutex e" "coremodel_connect e oom usr target k = Inl (res, k')"
  shows "res = - EBADF \<and> k_fds k' = k_fds k \<and> k_blocks k' = k_blocks k \<and> \<not> k_mutex k'"
  using connect_fails [OF assms] by (simp add: released_def)

theorem connect_failure_releases_witness:
  "\<exists>k'. coremodel_connect ex_env [] () (Some [0x67]) ex_proc = Inl (- EBADF, k') \<and> k_fds k' = [0, 1, 2] \<and> k_blocks k' = 0"
proof -
  have "isl (coremodel_connect ex_env [] () (Some [0x67]) ex_proc)"
    by (simp add: coremodel_connect_def conn_resolve_def conn_target_def ex_env_def os_setfl_def Let_def case_prod_unfold)
  then obtain res k' where c: "coremodel_connect ex_env [] () (Some [0x67]) ex_proc = Inl (res, k')"
    by (cases "coremodel_connect ex_env [] () (Some [0x67]) ex_proc") auto
  have "e_calloc ex_env" "e_mutex ex_env" by (simp_all add: ex_env_def)
  from connect_failure_releases [OF ex_env_ok this c] c show ?thesis by (simp add: ex_proc_def)
qed

section \<open>The multiplexers\<close>

text \<open>
  C27. Selecting a channel of the I2C multiplexer attaches its device: when the register has one
  channel more than before, whose device is attached with a request the virtual machine answers,
  the device's interface is linked with the device's callbacks, and the channel keeps its handle.
\<close>

theorem i2c_mux_selects:
  assumes "mux_select i (mux_of cm)" "i < length (mx_channel (mux_of cm))" "mx_channel (mux_of cm) ! i = [d]"
    "\<not> cm_query cm" "0 \<le> cm_fd cm" "\<not> cm_defer cm" "h_oom (cm_host cm) = []" "ring_ok r" "ring_bytes r = []"
    "req = attach_request COREMODEL_I2C bus (ucast (md_addr d)) None COREMODEL_I2C_WRITE_ACK" "wf_packet req"
    "write_loop ws (h_txbufs (host_push req (cm_host cm))) = (None, out, [])"
    "pk_conn p = CONN_QUERY" "pk_pkt p = PKT_QUERY_RSP_CONN" "pk_hflag p \<noteq> CONN_QUERY" "wf_packet p"
    "pk_data p = le_bytes 4 cred"
  shows "\<exists>r' cm'. i2c_mux_poll tab bus [(now, attach_rounds ws p)] (r, cm) = Some (Inr ([], r', cm')) \<and>
    cm_ifs cm' = cm_next cm # cm_ifs cm \<and> mx_channel (mux_of cm') ! i = [d\<lparr>md_handle := Some (cm_next cm)\<rparr>] \<and>
    cm_heap cm' = (cm_heap cm)(cm_next cm \<mapsto>
      attached_if COREMODEL_I2C (I2cF (tab (md_func d))) (md_state d) (pk_hflag p) cred)"
  by (rule select_attaches [OF assms])

theorem i2c_mux_selects_witness:
  "\<exists>r' cm'. i2c_mux_poll (\<lambda>_. dummy_i2c_func) [0x62]
      [(0, attach_rounds [WData 20] (ex_packet CONN_QUERY 3 0 5 (le_bytes 4 (100 :: u32))))] (ring_init, ex_cm ex_mux) =
      Some (Inr ([], r', cm')) \<and> cm_ifs cm' = [0]"
proof -
  let ?d = "\<lparr>md_name = [0x64], md_addr = 0x61, md_state = 0, md_func = 0, md_handle = None\<rparr>"
  have b: "bit (2 :: u8) j \<longleftrightarrow> j = 1" if "j < 8" for j
    using that by (simp add: bit_iff_odd drop_bit_eq_div less_Suc_eq numeral_eq_Suc) auto
  have m: "mux_of (ex_cm ex_mux) = ex_mux" by (simp add: mux_of_def)
  have s: "mux_select 1 (mux_of (ex_cm ex_mux))"
    unfolding m mux_select_def using b by (simp add: ex_mux_def i2c_mux_init_def)
  have c: "mx_channel (mux_of (ex_cm ex_mux)) ! 1 = [?d]" "1 < length (mx_channel (mux_of (ex_cm ex_mux)))"
    unfolding m by (simp_all add: ex_mux_def)
  have q: "ex_mux_request = attach_request COREMODEL_I2C [0x62] (ucast (md_addr ?d)) None COREMODEL_I2C_WRITE_ACK" by simp
  show ?thesis
    using i2c_mux_selects [OF s c(2,1) _ _ _ _ ring_init_ok ring_init_bytes q ex_mux_request_wf, of "[WData 20]"
          "wire_image ex_mux_request", where p = "ex_packet CONN_QUERY 3 0 5 (le_bytes 4 (100 :: u32))" and cred = 100 and now = 0
          and tab = "\<lambda>_. dummy_i2c_func"] ex_mux_written [of ex_mux] by simp blast
qed

text \<open>
  C28. Taking channels away from the I2C multiplexer closes exactly the interfaces of the devices on
  those channels and forgets their handles; the connection stays sound and the other channels
  keep their devices.
\<close>

theorem i2c_mux_deselects:
  assumes "cm_ok cm" "cm_conn_if cm = None" "length (mx_channel (mux_of cm)) = CHANNEL_LIMIT"
    "mx_write (mux_of cm) \<noteq> 0" "mx_stop (mux_of cm) \<noteq> 0"
    "changed = mx_chanp (mux_of cm) XOR mx_chan (mux_of cm)" "changed AND mx_chan (mux_of cm) = 0"
    "distinct (concat (map md_handles (mx_channel (mux_of cm))))"
    "\<forall>x \<in> set (concat (map md_handles (mx_channel (mux_of cm)))). cm_heap cm x \<noteq> None"
  shows "\<exists>cm'. i2c_mux_poll tab bus sc (r, cm) = Some (Inr (sc, r, cm')) \<and> cm_ok cm' \<and>
    cm_ifs cm' = filter (\<lambda>x. x \<notin> changed_handles changed {..<CHANNEL_LIMIT} (mux_of cm)) (cm_ifs cm) \<and>
    (\<forall>x \<in> changed_handles changed {..<CHANNEL_LIMIT} (mux_of cm). cm_heap cm' x = None) \<and>
    (\<forall>k < CHANNEL_LIMIT. mx_channel (mux_of cm') ! k =
      (if bit changed k then map md_clear (mx_channel (mux_of cm) ! k) else mx_channel (mux_of cm) ! k))"
  by (rule poll_deselects [OF assms])

theorem i2c_mux_deselects_witness:
  "\<exists>cm'. cm_heap (ex_cm1 COREMODEL_I2C (I2cF dummy_i2c_func) ex_mux_attached) 0 \<noteq> None \<and>
    md_handle (mx_channel (mux_of (ex_cm1 COREMODEL_I2C (I2cF dummy_i2c_func) ex_mux_attached)) ! 1 ! 0) = Some 0 \<and>
    i2c_mux_poll (\<lambda>_. dummy_i2c_func) [0x62] [] (ring_init, ex_cm1 COREMODEL_I2C (I2cF dummy_i2c_func) ex_mux_attached) =
      Some (Inr ([], ring_init, cm')) \<and> cm_ok cm' \<and> cm_ifs cm' = [] \<and> cm_heap cm' 0 = None \<and>
    md_handle (mx_channel (mux_of cm') ! 1 ! 0) = None"
proof -
  let ?cm = "ex_cm1 COREMODEL_I2C (I2cF dummy_i2c_func) ex_mux_attached"
  have m: "mux_of ?cm = ex_mux_attached" by (simp add: mux_of_def)
  have b: "bit (2 :: u8) j \<longleftrightarrow> j = 1" if "j < 8" for j
    using that by (simp add: bit_iff_odd drop_bit_eq_div less_Suc_eq numeral_eq_Suc) auto
  have c: "concat (map md_handles (mx_channel (mux_of ?cm))) = [0]"
    unfolding m by (simp add: ex_mux_attached_def ex_mux_def numeral_eq_Suc)
  have one: "mx_channel (mux_of ?cm) ! 1 = [\<lparr>md_name = [0x64], md_addr = 0x61, md_state = 0, md_func = 0, md_handle = Some 0\<rparr>]"
    unfolding m by (simp add: ex_mux_attached_def ex_mux_def)
  have "\<exists>cm'. i2c_mux_poll (\<lambda>_. dummy_i2c_func) [0x62] [] (ring_init, ?cm) = Some (Inr ([], ring_init, cm')) \<and> cm_ok cm' \<and>
      cm_ifs cm' = filter (\<lambda>x. x \<notin> changed_handles 2 {..<CHANNEL_LIMIT} (mux_of ?cm)) (cm_ifs ?cm) \<and>
      (\<forall>x \<in> changed_handles 2 {..<CHANNEL_LIMIT} (mux_of ?cm). cm_heap cm' x = None) \<and>
      (\<forall>k < CHANNEL_LIMIT. mx_channel (mux_of cm') ! k =
        (if bit (2 :: u8) k then map md_clear (mx_channel (mux_of ?cm) ! k) else mx_channel (mux_of ?cm) ! k))"
    by (rule i2c_mux_deselects) (simp_all only: c, simp_all add: mux_of_def ex_mux_attached_def ex_mux_def)
  then obtain cm' where w: "i2c_mux_poll (\<lambda>_. dummy_i2c_func) [0x62] [] (ring_init, ?cm) = Some (Inr ([], ring_init, cm'))"
    "cm_ok cm'" "cm_ifs cm' = filter (\<lambda>x. x \<notin> changed_handles 2 {..<CHANNEL_LIMIT} (mux_of ?cm)) (cm_ifs ?cm)"
    "\<forall>x \<in> changed_handles 2 {..<CHANNEL_LIMIT} (mux_of ?cm). cm_heap cm' x = None"
    "mx_channel (mux_of cm') ! 1 = map md_clear (mx_channel (mux_of ?cm) ! 1)"
    using b [of 1] by auto
  have "0 \<in> changed_handles 2 {..<CHANNEL_LIMIT} (mux_of ?cm)"
    using one b [of 1] unfolding changed_handles_def by (intro UN_I [of 1]) simp_all
  then show ?thesis using w one by (intro exI [of _ cm']) (simp add: md_clear_def)
qed

text \<open>
  C29. What the channel of the SPI multiplexer is, whatever the pins do while they are attached (\<open>es\<close>)
  and after \<open>main\<close> has then set the channel to zero (\<open>es'\<close>): the state keeps the last level of each
  pin, and bit \<open>i\<close> of the channel is the level of pin \<open>i\<close> if that has moved since, and zero otherwise. So
  a pin that was high when it was attached does not count until it moves. The selected channel
  and the one before are below eight, no index leaves the array of channels, and the fourth pin enables.
\<close>

theorem spi_mux_pins:
  assumes "\<forall>(i, v) \<in> set (es @ es'). i < PIN_NUM"
  shows "\<exists>st st'. notifies es spi_mux_init = Some st \<and> notifies es' (spi_mux_reset st) = Some st' \<and>
    (\<forall>i < 3. bit (sx_chan st') i \<longleftrightarrow> i \<in> fst ` set es' \<and> sx_pin st' ! i \<noteq> 0) \<and>
    sx_chan st' < 8 \<and> sx_chanp st' < 8 \<and> length (sx_channel st') = CHANNELS \<and>
    (sx_en st' \<noteq> 0 \<longleftrightarrow> sx_pin st' ! 3 \<noteq> 0) \<and>
    sx_pin st' = foldl (\<lambda>ps (i, v). ps[i := v]) (replicate PIN_NUM 0) (es @ es')"
proof -
  have r: "\<forall>(i, v) \<in> set es. i < PIN_NUM" "\<forall>(i, v) \<in> set es'. i < PIN_NUM" using assms by auto
  obtain st where st: "notifies es spi_mux_init = Some st" "spi_mux_ok st"
    "sx_pin st = foldl (\<lambda>ps (i, v). ps[i := v]) (sx_pin spi_mux_init) es"
    using notifies_ok [OF spi_init_ok spi_init_shows r(1)] by blast
  obtain st' where st': "notifies es' (spi_mux_reset st) = Some st'" "spi_mux_ok st'" "spi_mux_shows ({} \<union> fst ` set es') st'"
    "sx_pin st' = foldl (\<lambda>ps (i, v). ps[i := v]) (sx_pin (spi_mux_reset st)) es'"
    using notifies_ok [OF spi_reset_ok [OF st(2)] spi_reset_shows r(2)] by blast
  show ?thesis
    using st st' by (intro exI [of _ st] exI [of _ st'])
      (simp add: spi_mux_ok_def spi_mux_shows_def spi_mux_init_def spi_mux_reset_def)
qed

theorem spi_mux_pins_witness:
  "\<exists>st st'. notifies [(0, 3300), (3, 3300)] spi_mux_init = Some st \<and>
    notifies [(2, 3300), (1, 0)] (spi_mux_reset st) = Some st' \<and> sx_pin st' = [3300, 0, 3300, 3300] \<and>
    \<not> bit (sx_chan st') 0 \<and> \<not> bit (sx_chan st') 1 \<and> bit (sx_chan st') 2 \<and> sx_en st' \<noteq> 0"
proof -
  obtain st st' where w: "notifies [(0, 3300), (3, 3300)] spi_mux_init = Some st"
    "notifies [(2, 3300), (1, 0)] (spi_mux_reset st) = Some st'"
    "\<forall>i < 3. bit (sx_chan st') i \<longleftrightarrow> i \<in> fst ` set [(2, 3300 :: int), (1, 0)] \<and> sx_pin st' ! i \<noteq> 0"
    "sx_en st' \<noteq> 0 \<longleftrightarrow> sx_pin st' ! 3 \<noteq> 0"
    "sx_pin st' = foldl (\<lambda>ps (i, v). ps[i := v]) (replicate PIN_NUM 0) ([(0, 3300), (3, 3300)] @ [(2, 3300), (1, 0)])"
    using spi_mux_pins [of "[(0, 3300), (3, 3300)]" "[(2, 3300), (1, 0)]"] by auto
  moreover have "sx_pin st' = [3300, 0, 3300, 3300]" using w(5) by (simp add: numeral_eq_Suc)
  ultimately show ?thesis by (intro exI [of _ st] exI [of _ st']) simp
qed

section \<open>The accelerometer\<close>

text \<open>
  C30. The accelerometer never reports an event: in no state that its bus and its timers can reach is a
  one-shot timer due, since they are set with an interval and no first expiry, which switches a
  timer off; so activity, inactivity, taps and temperatures stay unreported whatever is
  configured.
\<close>

theorem adxl_no_event:
  assumes "adxl_reach h"
  shows "(\<forall>i > 0. \<not> due i (h_usr h)) \<and> ax_reg (h_usr h) REG_STATUS AND 0x30 = 0 \<and> ax_reg (h_usr h) REG_STATUS_2 = 0"
  using reach_no_event [OF assms] by simp

theorem adxl_no_event_witness:
  "\<exists>h. adxl_reach h \<and> ax_reg (h_usr h) REG_POWER_CTL = 2 \<and> ax_reg (h_usr h) REG_STATUS_2 = 0 \<and> \<not> due 1 (h_usr h)"
proof -
  let ?h = "ex_host (adxl_init 3)"
  have i: "adxl_reach ?h" using reach_init [of ?h 3] by simp
  obtain st where w: "adi_adxl36x_write [REG_POWER_CTL, 2] (ex_core COREMODEL_I2C) ?h =
      Some (2, ex_core COREMODEL_I2C, ?h\<lparr>h_usr := st\<rparr>)" "ax_reg st = store_regs REG_POWER_CTL [2] (ax_reg (h_usr ?h))"
    using write_stores [of ?h REG_POWER_CTL "[2]" "ex_core COREMODEL_I2C"]
    by (auto simp: store_only_def adxl_init_def adi_adxl36x_reset_def timer_evt_reset_def timer_evt_init_def adxl_zero_def)
  have r: "adxl_reach (?h\<lparr>h_usr := st\<rparr>)" by (rule reach_step [OF i step_write [OF w(1)]])
  have "ax_reg st REG_POWER_CTL = 2" by (simp add: w(2) reg_mask_def)
  then show ?thesis using adxl_no_event [OF r] r by (intro exI [of _ "?h\<lparr>h_usr := st\<rparr>"]) simp
qed

text \<open>
  C31. What is written to the accelerometer's plain registers in one transaction the next one reads back,
  masked to the bits each register has: a run of any length from any address, with the samples the
  START takes in between.
\<close>

theorem adxl_registers:
  assumes "ax_count (h_usr h) = 0" "a < 0x80" "length bs < 255" "\<forall>i < length bs. store_only (a + of_nat i)"
    "filter_range (h_usr h) < 3" "length data = length bs"
  shows "\<exists>h1 st2 st3 h4 st5.
    adi_adxl36x_write (a # bs) c h = Some (int (Suc (length bs)), c, h1) \<and>
    adi_adxl36x_stop (h_usr h1) = Some ((), st2) \<and> adi_adxl36x_start st2 = Some (1, st3) \<and>
    adi_adxl36x_write [a] c (h1\<lparr>h_usr := st3\<rparr>) = Some (1, c, h4) \<and>
    adi_adxl36x_read data (h_usr h4) =
      Some ((int (length bs), map (\<lambda>i. bs ! i AND the (reg_mask (a + of_nat i))) [0..<length bs]), st5)"
  by (rule registers_read_back [OF assms])

theorem adxl_registers_witness:
  "\<exists>h1 st2 st3 h4 st5.
    adi_adxl36x_write [0x2D, 0xFF, 0xFF] (ex_core COREMODEL_I2C) (ex_host (adxl_init 3)) = Some (3, ex_core COREMODEL_I2C, h1) \<and>
    adi_adxl36x_stop (h_usr h1) = Some ((), st2) \<and> adi_adxl36x_start st2 = Some (1, st3) \<and>
    adi_adxl36x_write [0x2D] (ex_core COREMODEL_I2C) (h1\<lparr>h_usr := st3\<rparr>) = Some (1, ex_core COREMODEL_I2C, h4) \<and>
    adi_adxl36x_read [0, 0] (h_usr h4) = Some ((2, [0x7F, 3]), st5)"
proof -
  have s: "\<forall>i < length [0xFF, 0xFF :: byte]. store_only (0x2D + of_nat i)"
    by (simp add: less_Suc_eq all_conj_distrib store_only_def)
  have c: "ax_count (h_usr (ex_host (adxl_init 3))) = 0" "filter_range (h_usr (ex_host (adxl_init 3))) < 3"
    by (simp_all add: adxl_init_def adi_adxl36x_reset_def timer_evt_reset_def timer_evt_init_def adxl_zero_def
        filter_range_def reset_reg_def)
  have "map (\<lambda>i. [0xFF, 0xFF] ! i AND the (reg_mask (0x2D + of_nat i))) [0..<length [0xFF, 0xFF :: byte]] = [0x7F, 3]"
    by (simp add: reg_mask_def)
  then show ?thesis
    using adxl_registers [OF c(1) _ _ s c(2), of "[0, 0]" "ex_core COREMODEL_I2C"] by simp
qed

text \<open>
  C32. The accelerometer's ring of samples is a queue in every mode of the FIFO: taking a sample
  appends the values of the selected channels, or leaves the queue alone: when there is no room for all
  of them, and in the trigger mode also as long as no trigger was seen (the flag \<open>fifo_trig\<close>, which no code
  sets) or when the set number of samples is reached. A full queue in the mode that keeps the oldest
  samples is reported as an overrun.
\<close>

theorem adxl_fifo_stores:
  assumes "adxl_ok st" "fifo_select (ax_reg st REG_FIFO_CONTROL AND 0x78) (temp_buf st) = Some vs"
    "mode = ax_reg st REG_FIFO_CONTROL AND 3" "st' = adi_adxl36x_fifo_sample st"
  shows "fifo_entries st' =
      (if unat (fifo_count st) + length vs \<le> FIFO_SIZE \<and>
          (mode = 3 \<longrightarrow> fifo_trig st \<noteq> 0 \<and> sample_count st \<noteq> fifo_samples st)
       then fifo_entries st @ vs else fifo_entries st) \<and>
    (mode = 1 \<and> unat (fifo_count st) = FIFO_SIZE \<longrightarrow> bit (ax_reg st' REG_STATUS) 3)"
  using sample_entries [OF assms(1,2)] assms(3,4) by simp

theorem adxl_fifo_stores_witness:
  "fifo_entries (adi_adxl36x_fifo_sample (set_reg REG_FIFO_CONTROL 0x0A (adxl_init 3))) = [256] \<and>
   fifo_entries (adi_adxl36x_fifo_sample (set_reg REG_FIFO_CONTROL 0x0B (adxl_init 3))) = []"
proof -
  let ?st = "\<lambda>c. set_reg REG_FIFO_CONTROL c (adxl_init 3)"
  have ok: "adxl_ok (?st c)" for c by (rule ok_set_reg [OF ok_init]) simp_all
  have i: "ax_accel (?st c) ! 0 = 256" "ax_reg (?st c) REG_ADC_CTL = 0" "ax_reg (?st c) REG_FIFO_CONTROL = c"
    "fifo_count (?st c) = 0" "fifo_trig (?st c) = 0" for c
    by (simp_all add: set_reg_def adxl_init_def adi_adxl36x_reset_def timer_evt_reset_def timer_evt_init_def adxl_zero_def
        reset_reg_def)
  have s: "fifo_select (ax_reg (?st c) REG_FIFO_CONTROL AND 0x78) (temp_buf (?st c)) = Some [256]" if "c = 0x0A \<or> c = 0x0B" for c
    using that by (auto simp: i fifo_select_def temp_buf_def Let_def)
  show ?thesis
    using adxl_fifo_stores [OF ok s refl refl, of "0x0A"] adxl_fifo_stores [OF ok s refl refl, of "0x0B"]
    by (simp add: i fifo_entries_def)
qed

text \<open>
  C33. Reading the FIFO register in the 16-bit format returns the oldest samples in order, high byte first,
  and removes them; reading \<open>2 n\<close> bytes of single-channel samples lowers the count of samples by
  \<open>2 n\<close>, where \<open>n\<close> were read: the count is lowered once for each byte.
\<close>

theorem adxl_fifo_reads:
  assumes "adxl_ok st" "mode16 st" "read_count st mod 2 = 0" "ax_addr st = REG_I2C_FIFO_DATA"
    "length data = 2 * n" "n \<le> unat (fifo_count st)"
  shows "\<exists>st'. adi_adxl36x_read data st =
      Some ((int (2 * n), concat (map entry_bytes (take n (fifo_entries st)))), st') \<and>
    fifo_entries st' = drop n (fifo_entries st) \<and>
    (sample_size st = 1 \<longrightarrow> sample_count st' = sample_count st - of_nat (2 * n))"
proof -
  obtain st' where st': "read_bytes data st = Some (concat (map entry_bytes (take n (fifo_entries st))), st')"
    "fifo_entries st' = drop n (fifo_entries st)"
    "sample_size st = 1 \<longrightarrow> sample_count st' = sample_count st - of_nat (2 * n)"
    using read_entries [OF assms] by blast
  have "length (concat (map entry_bytes vs)) = 2 * length vs" for vs by (induction vs) (simp_all add: entry_bytes_def)
  moreover have "length (fifo_entries st) = unat (fifo_count st)" by (simp add: fifo_entries_def)
  ultimately show ?thesis using st' assms(6) by (simp add: adi_adxl36x_read_def)
qed

theorem adxl_fifo_reads_witness:
  "\<exists>st'. adi_adxl36x_read [0, 0] ((adxl_init 3)\<lparr>ax_addr := REG_I2C_FIFO_DATA, sample_fifo := 0x1234 # replicate 2047 0,
      sample_fifo_wpt := 1, fifo_count := 1, sample_size := 1, sample_count := 1\<rparr>) = Some ((2, [0x12, 0x34]), st') \<and>
    sample_count st' = 0xFFFFFFFF"
proof -
  let ?st = "(adxl_init 3)\<lparr>ax_addr := REG_I2C_FIFO_DATA, sample_fifo := 0x1234 # replicate 2047 0,
      sample_fifo_wpt := 1, fifo_count := 1, sample_size := 1, sample_count := 1\<rparr>"
  have r: "sample_fifo_rpt (adxl_init 3) = 0" "read_count (adxl_init 3) = 0" "ax_reg (adxl_init 3) REG_ADC_CTL = 0"
    by (simp_all add: adxl_init_def adi_adxl36x_reset_def timer_evt_reset_def timer_evt_init_def adxl_zero_def reset_reg_def)
  have "adxl_ok ?st" using ok_init [of 3] r(1) by (simp add: adxl_ok_def fifo_ok_def)
  moreover have "fifo_entries ?st = [0x1234]" by (simp add: fifo_entries_def fifo_index_def r(1))
  moreover have "mode16 ?st" by (simp add: mode16_def r(3))
  ultimately show ?thesis
    using adxl_fifo_reads [of ?st "[0, 0]" 1] r(2) by (auto simp: entry_bytes_def)
qed

text \<open>
  C34. Writing one of the six rates to \<open>FILTER_CTL\<close> gives the sample timer the rate's period, exact to
  the nanosecond although it is computed in single precision; when the device measures, the timer runs
  with it, and otherwise it does not run.
\<close>

theorem adxl_rate:
  assumes "ax_count (h_usr h) = 0" "b AND 7 < 6" "0 < length (tmevt (h_usr h))"
  shows "\<exists>st'. adi_adxl36x_write [REG_FILTER_CTL, b] c h = Some (2, c, h\<lparr>h_usr := st'\<rparr>) \<and>
    te_value (tmevt st' ! 0) = rate_nsec b \<and> te_interval (tmevt st' ! 0) = rate_nsec b \<and>
    (measuring (h_usr h) \<longrightarrow> te_setting (tmevt st' ! 0) = (rate_nsec b, rate_nsec b) \<and> due 0 st') \<and>
    (\<not> measuring (h_usr h) \<longrightarrow> \<not> due 0 st')"
  by (rule rate_written [OF assms])

theorem adxl_rate_witness:
  "\<exists>st'. adi_adxl36x_write [REG_FILTER_CTL, 5] (ex_core COREMODEL_I2C) (ex_host (adxl_init 3)) =
      Some (2, ex_core COREMODEL_I2C, (ex_host (adxl_init 3))\<lparr>h_usr := st'\<rparr>) \<and> te_value (tmevt st' ! 0) = 2500000"
proof -
  have "length (tmevt (adxl_init 3)) = 8" using ok_init [of 3] by (simp add: adxl_ok_def timers_ok_def)
  moreover have "ax_count (adxl_init 3) = 0"
    by (simp add: adxl_init_def adi_adxl36x_reset_def timer_evt_reset_def timer_evt_init_def adxl_zero_def)
  moreover have "rate_nsec 5 = 2500000" by (simp add: rate_nsec_def)
  ultimately show ?thesis
    using adxl_rate [of "ex_host (adxl_init 3)" 5 "ex_core COREMODEL_I2C"] by auto
qed

text \<open>
  C35. The two tables of the accelerometer agree: each register that can be written has a name and a list of
  fields, and the parts of a byte that the fields show make up exactly the bits that a write keeps.
\<close>

theorem adxl_fields:
  assumes "reg_mask a = Some m"
  shows "\<exists>name fs. adi_adxl36x_reg_name (ucast a) = Some name \<and> fields_of (ucast a) = Some fs \<and>
    foldr (\<lambda>f w. field_part (ucast b) f OR w) fs 0 = ucast (b AND m)"
  by (rule shown_fields [OF assms])

theorem adxl_fields_witness:
  "\<exists>name fs. adi_adxl36x_reg_name (ucast (0x2D :: u8)) = Some name \<and> fields_of (ucast (0x2D :: u8)) = Some fs \<and>
    foldr (\<lambda>f w. field_part (ucast (0xFF :: u8)) f OR w) fs 0 = ucast (0xFF AND 0x7F :: u8)"
  by (rule adxl_fields) (simp add: reg_mask_def)

section \<open>The Ethernet switch at work\<close>

text \<open>
  C36. The switch, from socket to socket: a frame that comes in on the connection of a client makes the
  switch enter its source address for that client, except when the first client of the list that knows
  the address is this one already (that another one knows it does not matter, as then both do); the frame is queued for
  the first client that knows the destination address, or, when there is none or the frame is a
  broadcast, for all clients but the sender; a client without credit loses it. The lists and tables stay
  well formed, and the client's connection is ready for the next frame. This is for tables in which no
  address is older than the five minutes after which it is purged, and for frames whose destination is not
  the sender itself.
\<close>

theorem switch_frame_forwarded:
  assumes "client_ready i w" "switch_ok is tab (ww_state w)" "all_fresh (ww_now w) (ww_state w)" "i \<in> set is"
    "client_conn i w = Some (pk_conn p)" "pk_pkt p = PKT_ETH_TX" "wf_packet p" "wire_size p \<le> MAX_PKT"
    "12 \<le> length (pk_data p)" "destination is tab (ww_state w) i (pk_data p) \<noteq> Some i"
    "\<forall>j \<in> set is. j \<noteq> i \<longrightarrow> (\<exists>q. sw_port (ww_state w) j = Some q \<and> port_up q)"
  shows "\<exists>w' tab'. client_processfds \<lparr>fd_wake = False, fd_read = True, fd_write = False\<rparr> [RData (wire_image p)] [] i w =
      Some (0, w') \<and> client_ready i w' \<and> client_conn i w' = client_conn i w \<and>
    switch_ok is tab' (ww_state w') \<and> all_fresh (ww_now w) (ww_state w') \<and>
    (\<forall>m. \<forall>j \<in> set is. knows tab' (ww_state w') m j = learned is tab (ww_state w) i (buf2mac (drop 6 (pk_data p))) m j) \<and>
    (\<forall>j \<in> set is. j \<noteq> i \<longrightarrow> sw_port (ww_state w') j =
      (if destination is tab (ww_state w) i (pk_data p) \<in> {None, Some j}
       then map_option (port_send (pk_data p)) (sw_port (ww_state w) j) else sw_port (ww_state w) j))"
  by (rule frame_round [OF assms])

theorem switch_frame_forwarded_witness:
  "\<exists>w'. client_processfds \<lparr>fd_wake = False, fd_read = True, fd_write = False\<rparr>
      [RData (wire_image (ex_packet 1 PKT_ETH_TX 0 0 ex_frame))] [] 0 ex_world = Some (0, w') \<and> client_ready 0 w' \<and>
    sw_port (ww_state w') 1 = map_option (port_send ex_frame) (sw_port ex_switch 1)"
proof -
  let ?p = "ex_packet 1 PKT_ETH_TX 0 0 ex_frame"
  have wf: "wf_packet ?p" by simp
  have ws: "wire_size ?p \<le> MAX_PKT" by (simp add: wire_size_eq unat_len16)
  have up: "\<forall>j \<in> set [0, 1]. j \<noteq> 0 \<longrightarrow> (\<exists>q. sw_port (ww_state ex_world) j = Some q \<and> port_up q)"
    using ex_port_up by simp
  have ok: "switch_ok [0, 1] (\<lambda>_. []) (ww_state ex_world)" "all_fresh (ww_now ex_world) (ww_state ex_world)"
    using ex_switch_ok by simp_all
  show ?thesis
    using switch_frame_forwarded [OF ex_world_ready(1) ok _ _ _ wf ws _ _ up] ex_world_ready(2) ex_broadcast by auto
qed

text \<open>
  C37. A client is added from its argument: with a host, a port and the name of an interface in it, the
  switch connects to that port of that host, attaches to that interface, and puts the client, ready and with
  an empty table, in front of the others, which stay as they were, as do the addresses learned.
\<close>

theorem switch_adds_client:
  assumes "switch_ok is tab (ww_state w)" "ww_next w \<notin> set is"
    "plain_field host" "length host < 250" "plain_field iface" "env_opens e (ww_proc w) host n rp wp fd"
    "wf_packet (attach_request COREMODEL_ETH iface 0 None 0)"
    "write_loop ws (h_txbufs (host_push (attach_request COREMODEL_ETH iface 0 None 0) (cm_host (snd (coremodel_init [] ()))))) =
      (None, out, [])"
    "pk_conn p = CONN_QUERY" "pk_pkt p = PKT_QUERY_RSP_CONN" "pk_hflag p \<noteq> CONN_QUERY" "wf_packet p"
    "pk_data p = le_bytes 4 cred"
  shows "\<exists>w' c h. switch_client_add e [] [] (attach_rounds ws p) (argument_of host n iface) w = Some (Inr (0, w')) \<and>
    switch_ok (ww_next w # is) (tab(ww_next w := [])) (ww_state w') \<and>
    client_ready (ww_next w) w' \<and> client_conn (ww_next w) w' = Some (pk_hflag p) \<and>
    sw_port (ww_state w') (ww_next w) = Some (Some c, Some h) \<and> c_cred c = cred \<and> h_oom h = [] \<and>
    (\<forall>j \<in> set is. sw_client (ww_state w') j = sw_client (ww_state w) j) \<and> sw_mac (ww_state w') = sw_mac (ww_state w) \<and>
    sw_nclients (ww_state w') = sw_nclients (ww_state w) + 1 \<and> k_fds (ww_proc w') = fd # rp # wp # k_fds (ww_proc w) \<and>
    ww_next w' = Suc (ww_next w) \<and> ww_now w' = ww_now w"
  by (rule client_added [OF assms])

theorem switch_adds_client_witness:
  "\<exists>w'. switch_client_add ex_env [] [] (attach_rounds [WData 20] (ex_packet CONN_QUERY 3 0 5 (le_bytes 4 (100 :: u32))))
      (argument_of [0x68] 1900 [0x65]) ex_world = Some (Inr (0, w')) \<and> client_ready 2 w' \<and>
    k_fds (ww_proc w') = [5, 3, 4, 0, 1, 2]"
proof -
  have ok: "switch_ok [0, 1] (\<lambda>_. []) (ww_state ex_world)" using ex_switch_ok by simp
  have pf: "plain_field [0x68]" "plain_field [0x65]" by (simp_all add: plain_field_def)
  have e: "env_opens ex_env (ww_proc ex_world) [0x68] 1900 3 4 5" using ex_env_opens by simp
  have wf: "wf_packet (attach_request COREMODEL_ETH [0x65] 0 None 0)" by (simp add: attach_request_def wf_packet_def unat_len16)
  show ?thesis
    using switch_adds_client [OF ok _ pf(1) _ pf(2) e wf request_written [of COREMODEL_ETH "0x65" "()"],
        where p = "ex_packet CONN_QUERY 3 0 5 (le_bytes 4 (100 :: u32))" and cred = 100]
    by (auto simp: ex_proc_def)
qed

text \<open>
  C38. A client given to the switch as text with another number of fields than three is refused, and no
  client of the switch is touched; but the refused one, which was never counted, is counted off. More than four
  fields overrun the array for the places of the separators.
\<close>

theorem switch_argument_refused:
  assumes "switch_ok is tab (ww_state w)" "ww_next w \<notin> set is" "sw_client (ww_state w) (ww_next w) = None"
    "fs \<noteq> []" "\<forall>f \<in> set fs. plain_field f" "length fs \<noteq> TUPLE_NELM"
  shows "switch_client_add e [] moom rs (join 0x2F (map (field_text 0x2F) fs)) w =
    (if length fs \<le> TUPLE_NELM + 1 then Some (Inr (- 1, w\<lparr>ww_next := Suc (ww_next w),
       ww_state := (ww_state w)\<lparr>sw_nclients := sw_nclients (ww_state w) - 1\<rparr>\<rparr>)) else None)"
  by (rule argument_refused [OF assms])

theorem switch_argument_refused_witness:
  "switch_client_add ex_env [] [] [] [0x68, 0x2F, 0x65] ex_world =
     Some (Inr (- 1, ex_world\<lparr>ww_next := 3, ww_state := ex_switch\<lparr>sw_nclients := 1\<rparr>\<rparr>))"
proof -
  have ok: "switch_ok [0, 1] (\<lambda>_. []) (ww_state ex_world)" using ex_switch_ok by simp
  have n: "sw_client (ww_state ex_world) (ww_next ex_world) = None" "sw_nclients ex_switch = 2" by (simp_all add: ex_switch_def)
  have f: "\<forall>f \<in> set [[0x68], [0x65]]. plain_field f" by (simp add: plain_field_def)
  have t: "join 0x2F (map (field_text 0x2F) [[0x68], [0x65]]) = [0x68, 0x2F, 0x65]" by (simp add: field_text_def)
  show ?thesis
    using switch_argument_refused [OF ok _ n(1) _ f, of ex_env "[]" "[]", unfolded t] n(2) by simp
qed

section \<open>The programs\<close>

text \<open>
  C39. The UART program from its arguments to its output: against a machine that accepts the connection,
  answers the attach and sends data, it has sent the request for its interface and nothing else, printed
  all of the data in order, and waits for more.
\<close>

theorem uart_program_prints:
  assumes "pg_argv pg = [prog, host @ 0x3A # decimal n, bus]" "pg_oom pg = []"
    "env_opens (pg_env pg) (pg_proc pg) host n rp wp fd"
    "wf_packet (attach_request COREMODEL_UART bus 0 None 0)"
    "write_loop ws (h_txbufs (host_push (attach_request COREMODEL_UART bus 0 None 0) (cm_host (snd (coremodel_init [] ([] :: out_item list)))))) =
      (None, out, [])"
    "pg_attach pg = attach_rounds ws rsp" "pk_conn rsp = CONN_QUERY" "pk_pkt rsp = PKT_QUERY_RSP_CONN"
    "pk_hflag rsp \<noteq> CONN_QUERY" "wf_packet rsp" "pk_data rsp = le_bytes 4 (cred :: u32)"
    "pg_rounds pg = [data_round ps]" "ps \<noteq> []" "length (stream ps) \<le> MAX_PKT"
    "\<forall>p \<in> set ps. pk_conn p = pk_hflag rsp \<and> pk_pkt p = PKT_UART_TX \<and> wf_packet p \<and> pk_data p \<noteq> [] \<and> wire_size p \<le> MAX_PKT"
  shows "\<exists>r' cm'. uart_main pg = Some (Waits (r', cm')) \<and> cm_fd cm' = fd \<and> cm_out cm' = out \<and>
    printed (cm_host cm') = concat (map pk_data ps)"
  by (rule uart_session [OF assms])

theorem uart_program_prints_witness:
  "\<exists>r' cm'. uart_main (ex_program [ex_packet 5 PKT_UART_TX 0 0 [72, 105]]) = Some (Waits (r', cm')) \<and>
    printed (cm_host cm') = [72, 105]"
proof -
  let ?p = "ex_packet 5 PKT_UART_TX 0 0 [72, 105]"
  have wf: "wf_packet ?p" by simp
  have ws: "wire_size ?p \<le> MAX_PKT" "length (stream [?p]) \<le> MAX_PKT" using wf by (simp_all add: wire_size_eq unat_len16 stream_def)
  have argv: "pg_argv (ex_program [?p]) = [[0x75, 0x61, 0x72, 0x74], [0x68] @ 0x3A # decimal 1900, [0x75]]"
    unfolding ex_port by simp
  have e: "env_opens (pg_env (ex_program [?p])) (pg_proc (ex_program [?p])) [0x68] 1900 3 4 5" using ex_env_opens by simp
  show ?thesis
    using uart_program_prints [OF argv _ e ex_request_wf request_written,
        of "ex_packet CONN_QUERY 3 0 5 (le_bytes 4 (100 :: u32))" 100 "[?p]"] wf ws
    by auto
qed

text \<open>
  C40. The CAN program from its arguments to the wire: against a machine that accepts the connection and
  answers the attach, a frame given as text, with an identifier of three decimal digits and up to eight
  bytes in hexadecimal of either case, leaves the socket after the request, with that identifier and
  these bytes; one character too many is dropped.
\<close>

theorem cansend_program_sends:
  assumes "pg_argv pg = [prog, host @ 0x3A # decimal n, bus, frame_text upper a b c ds @ extra]" "pg_oom pg = []"
    "env_opens (pg_env pg) (pg_proc pg) host n rp wp fd"
    "a < 10" "b < 10" "c < 10" "length ds \<le> 7 \<or> (length ds = 8 \<and> extra = [])" "length extra \<le> 1"
    "wf_packet (attach_request COREMODEL_CAN bus 0 None 0)"
    "write_loop ws (h_txbufs (host_push (attach_request COREMODEL_CAN bus 0 None 0) (cm_host (snd (coremodel_init [] ()))))) =
      (None, out, [])"
    "pg_attach pg = attach_rounds ws rsp" "pk_conn rsp = CONN_QUERY" "pk_pkt rsp = PKT_QUERY_RSP_CONN"
    "pk_hflag rsp \<noteq> CONN_QUERY" "wf_packet rsp" "pk_data rsp = le_bytes 4 (cred :: u32)"
    "pg_rounds pg = [write_round (pg_start pg)]"
  shows "\<exists>r' cm' co. cansend_main fresh () pg = Some (Waits (r', cm')) \<and> c_conn co = pk_hflag rsp \<and> c_trnidx co = 1 \<and>
    cm_out cm' = out @ wire_image (can_frame co (push_bit 36 (of_nat (a * 256 + b * 16 + c)) OR of_nat (length ds), 0) ds)"
  by (rule cansend_session [OF assms])

theorem cansend_program_sends_witness:
  "\<exists>r' cm' co. cansend_main [] () ex_can_program = Some (Waits (r', cm')) \<and> c_conn co = 5 \<and>
    drop 20 (cm_out cm') = wire_image (can_frame co (push_bit 36 0x123 OR 2, 0) [0xAB, 7])"
proof -
  have argv: "pg_argv ex_can_program = [[0x63], [0x68] @ 0x3A # decimal 1900, [0x63], frame_text True 1 2 3 [0xAB, 7] @ []]"
    unfolding ex_port ex_frame_text by simp
  have e: "env_opens (pg_env ex_can_program) (pg_proc ex_can_program) [0x68] 1900 3 4 5" using ex_env_opens by simp
  have wf: "wf_packet (attach_request COREMODEL_CAN [0x63] 0 None 0)" by (simp add: attach_request_def wf_packet_def unat_len16)
  have l: "length (wire_image (attach_request COREMODEL_CAN [0x63] 0 None 0)) = 20"
    using wf by (simp add: wire_size_eq attach_request_def unat_len16)
  show ?thesis
    using cansend_program_sends [OF argv _ e _ _ _ _ _ wf request_written,
        of "ex_packet CONN_QUERY 3 0 5 (le_bytes 4 (100 :: u32))" 100 "[]"] l
    by auto
qed

end
